(* ===== verification/Prelude.thy ===== *)
theory Prelude
  imports Main
begin

text \<open>
  What every component of the development shares: Go's error values, the outcome of a Go
  call (a value, a returned error, a panic, or the exit of the process), computations over
  an explicit state with such an outcome, the idioms the source uses to react to an error
  (return it, panic on it, ignore it), \<open>for range\<close> loops, and a small Hoare calculus and a
  frame predicate over these computations with their rules.
\<close>

named_theorems hoare_rules \<open>rules that decompose a Hoare statement about a computation\<close>
named_theorems leaves_rules \<open>rules that show that a computation leaves an observation unchanged\<close>

section \<open>Errors and outcomes\<close>

text \<open>
  A Go \<open>error\<close>: a plain text (\<open>errors.New\<close>, \<open>fmt.Errorf\<close>), an error registered under a
  codespace and a code, a gRPC status, or a wrapped error with the text put before it.
\<close>

datatype go_error =
    Error_text string
  | Registered string nat string
  | Status_error string string
  | Wrapped go_error string

fun errors_Is :: "go_error \<Rightarrow> go_error \<Rightarrow> bool" where
  "errors_Is (Wrapped e msg) target = (Wrapped e msg = target \<or> errors_Is e target)"
| "errors_Is e target = (e = target)"

lemma errors_Is_refl [simp]: "errors_Is e e"
  by (cases e) auto

datatype 'a outcome =
    Ok 'a
  | Err go_error
  | Panic go_error
  | Exit nat

fun is_ok :: "'a outcome \<Rightarrow> bool" where
  "is_ok (Ok _) = True"
| "is_ok _ = False"

lemma is_ok_iff: "is_ok r \<longleftrightarrow> (\<exists>x. r = Ok x)"
  by (cases r) auto

fun obind :: "'a outcome \<Rightarrow> ('a \<Rightarrow> 'b outcome) \<Rightarrow> 'b outcome" where
  "obind (Ok x) f = f x"
| "obind (Err e) f = Err e"
| "obind (Panic e) f = Panic e"
| "obind (Exit c) f = Exit c"

lemma obind_eq_Ok: "obind r f = Ok y \<longleftrightarrow> (\<exists>x. r = Ok x \<and> f x = Ok y)"
  by (cases r) auto

lemma obind_cong [fundef_cong]:
  "r = r' \<Longrightarrow> (\<And>x. r' = Ok x \<Longrightarrow> f x = f' x) \<Longrightarrow> obind r f = obind r' f'"
  by (cases r') auto

section \<open>Computations over a state\<close>

text \<open>
  A Go function with effects takes the state it works on and gives its outcome and the
  state it leaves: an error return keeps the writes made before it.
\<close>

type_synonym ('s, 'a) eff = "'s \<Rightarrow> 'a outcome \<times> 's"

definition ret :: "'a \<Rightarrow> ('s, 'a) eff" where
  "ret x = (\<lambda>s. (Ok x, s))"

definition raise :: "go_error \<Rightarrow> ('s, 'a) eff" where
  "raise e = (\<lambda>s. (Err e, s))"

definition panic :: "go_error \<Rightarrow> ('s, 'a) eff" where
  "panic e = (\<lambda>s. (Panic e, s))"

definition lift_outcome :: "'a outcome \<Rightarrow> ('s, 'a) eff" where
  "lift_outcome r = (\<lambda>s. (r, s))"

definition bind :: "('s, 'a) eff \<Rightarrow> ('a \<Rightarrow> ('s, 'b) eff) \<Rightarrow> ('s, 'b) eff" where
  "bind m f = (\<lambda>s. case m s of
     (Ok x, s') \<Rightarrow> f x s'
   | (Err e, s') \<Rightarrow> (Err e, s')
   | (Panic e, s') \<Rightarrow> (Panic e, s')
   | (Exit c, s') \<Rightarrow> (Exit c, s'))"

definition andThen :: "('s, 'a) eff \<Rightarrow> ('s, 'b) eff \<Rightarrow> ('s, 'b) eff" where
  "andThen m n = bind m (\<lambda>_. n)"

text \<open>\<open>if err := m(); err != nil { panic(err) }\<close>\<close>

definition or_panic :: "('s, 'a) eff \<Rightarrow> ('s, 'a) eff" where
  "or_panic m = (\<lambda>s. case m s of (Err e, s') \<Rightarrow> (Panic e, s') | r \<Rightarrow> r)"

text \<open>\<open>if err := m(); err != nil { return wrap(err) }\<close>\<close>

definition map_err :: "(go_error \<Rightarrow> go_error) \<Rightarrow> ('s, 'a) eff \<Rightarrow> ('s, 'a) eff" where
  "map_err g m = (\<lambda>s. case m s of (Err e, s') \<Rightarrow> (Err (g e), s') | r \<Rightarrow> r)"

text \<open>\<open>_, _ = m()\<close>: the value and the error are dropped; a panic is not.\<close>

definition discard :: "('s, 'a) eff \<Rightarrow> ('s, unit) eff" where
  "discard m = (\<lambda>s. case m s of
     (Ok _, s') \<Rightarrow> (Ok (), s')
   | (Err _, s') \<Rightarrow> (Ok (), s')
   | (Panic e, s') \<Rightarrow> (Panic e, s')
   | (Exit c, s') \<Rightarrow> (Exit c, s'))"

text \<open>\<open>x, err := m()\<close> with the error looked at later.\<close>

definition attempt :: "('s, 'a) eff \<Rightarrow> ('s, 'a outcome) eff" where
  "attempt m = (\<lambda>s. case m s of
     (Ok x, s') \<Rightarrow> (Ok (Ok x), s')
   | (Err e, s') \<Rightarrow> (Ok (Err e), s')
   | (Panic e, s') \<Rightarrow> (Panic e, s')
   | (Exit c, s') \<Rightarrow> (Exit c, s'))"

text \<open>\<open>defer d(); m\<close>: \<open>d\<close> runs when \<open>m\<close> ends, also by a panic, and its error is dropped; \<^verbatim>\<open>os.Exit\<close> skips it.\<close>

definition deferred :: "('s, unit) eff \<Rightarrow> ('s, 'a) eff \<Rightarrow> ('s, 'a) eff" where
  "deferred d m = (\<lambda>s. case m s of
     (Exit c, s') \<Rightarrow> (Exit c, s')
   | (r, s') \<Rightarrow> (case d s' of
         (Panic e, s'') \<Rightarrow> (Panic e, s'')
       | (Exit c, s'') \<Rightarrow> (Exit c, s'')
       | (_, s'') \<Rightarrow> (r, s'')))"

text \<open>\<open>for _, x := range xs { body }\<close>\<close>

primrec for_each :: "('a \<Rightarrow> ('s, unit) eff) \<Rightarrow> 'a list \<Rightarrow> ('s, unit) eff" where
  "for_each body [] = ret ()"
| "for_each body (x # xs) = bind (body x) (\<lambda>_. for_each body xs)"

lemmas eff_defs = ret_def raise_def panic_def lift_outcome_def

lemma eff_apply [simp]:
  "ret x s = (Ok x, s)" "raise e s = (Err e, s)" "panic e s = (Panic e, s)"
  "lift_outcome r s = (r, s)"
  by (simp_all add: eff_defs)

lemma bind_step [simp]:
  "m s = (Ok x, s') \<Longrightarrow> bind m f s = f x s'"
  "m s = (Err e, s') \<Longrightarrow> bind m f s = (Err e, s')"
  "m s = (Panic e, s') \<Longrightarrow> bind m f s = (Panic e, s')"
  "m s = (Exit c, s') \<Longrightarrow> bind m f s = (Exit c, s')"
  by (simp_all add: bind_def)

lemma bind_ret [simp]: "bind (ret x) f = f x"
  by (simp add: bind_def fun_eq_iff)

lemma bind_ret_right [simp]: "bind m ret = m" "bind m (\<lambda>x. ret x) = m"
  by (auto simp: bind_def ret_def fun_eq_iff split: prod.splits outcome.splits)

lemma lift_outcome_Ok [simp]: "lift_outcome (Ok x) = ret x"
  by (simp add: eff_defs)

lemma bind_assoc: "bind (bind m f) g = bind m (\<lambda>x. bind (f x) g)"
  by (auto simp: bind_def fun_eq_iff split: prod.splits outcome.splits)

lemma bind_Ok_iff:
  "bind m f s = (Ok y, t) \<longleftrightarrow> (\<exists>x s'. m s = (Ok x, s') \<and> f x s' = (Ok y, t))"
  by (auto simp: bind_def split: prod.splits outcome.splits)

lemma for_each_append:
  "for_each body (xs @ ys) = bind (for_each body xs) (\<lambda>_. for_each body ys)"
  by (induction xs) (simp_all add: bind_assoc)

lemma attempt_run [simp]:
  "m s = (Ok x, s') \<Longrightarrow> attempt m s = (Ok (Ok x), s')"
  "m s = (Err e, s') \<Longrightarrow> attempt m s = (Ok (Err e), s')"
  by (simp_all add: attempt_def)

lemma for_each_map: "for_each f (map g xs) = for_each (\<lambda>x. f (g x)) xs"
  by (induction xs) simp_all

lemma for_each_nested:
  "for_each (\<lambda>x. for_each (f x) ys) xs = for_each (\<lambda>(x, y). f x y) (List.product xs ys)"
  by (induction xs) (simp_all add: for_each_append for_each_map)

section \<open>Hoare statements and frames\<close>

text \<open>
  \<open>hoare P m Q X\<close>: from a state with \<open>P\<close>, a normal return gives a value and a state with
  \<open>Q\<close>, and every other outcome leaves a state with \<open>X\<close>.
\<close>

definition hoare :: "('s \<Rightarrow> bool) \<Rightarrow> ('s, 'a) eff \<Rightarrow> ('a \<Rightarrow> 's \<Rightarrow> bool) \<Rightarrow> ('s \<Rightarrow> bool) \<Rightarrow> bool" where
  "hoare P m Q X \<longleftrightarrow>
     (\<forall>s. P s \<longrightarrow> (case m s of (Ok x, s') \<Rightarrow> Q x s' | (_, s') \<Rightarrow> X s'))"

lemma hoareI:
  assumes "\<And>s x s'. P s \<Longrightarrow> m s = (Ok x, s') \<Longrightarrow> Q x s'"
    and "\<And>s r s'. P s \<Longrightarrow> m s = (r, s') \<Longrightarrow> \<not> is_ok r \<Longrightarrow> X s'"
  shows "hoare P m Q X"
  unfolding hoare_def
proof (intro allI impI)
  fix s assume P: "P s"
  show "case m s of (Ok x, s') \<Rightarrow> Q x s' | (_, s') \<Rightarrow> X s'"
  proof (cases "m s")
    case (Pair r s')
    with assms P show ?thesis by (cases r) fastforce+
  qed
qed

lemma hoare_OkD: "hoare P m Q X \<Longrightarrow> P s \<Longrightarrow> m s = (Ok x, s') \<Longrightarrow> Q x s'"
  unfolding hoare_def by fastforce

lemma hoare_failD:
  "hoare P m Q X \<Longrightarrow> P s \<Longrightarrow> m s = (r, s') \<Longrightarrow> \<not> is_ok r \<Longrightarrow> X s'"
  unfolding hoare_def by (cases r) fastforce+

lemma hoare_anyD:
  assumes "hoare P m (\<lambda>_. I) I" and "P s"
  shows "I (snd (m s))"
proof (cases "m s")
  case (Pair r s')
  then show ?thesis
    using hoare_OkD [OF assms] hoare_failD [OF assms] by (cases "is_ok r") (auto simp: is_ok_iff)
qed

lemma hoare_weaken:
  assumes "hoare P' m Q' X'"
    and "\<And>s. P s \<Longrightarrow> P' s" and "\<And>x s. Q' x s \<Longrightarrow> Q x s" and "\<And>s. X' s \<Longrightarrow> X s"
  shows "hoare P m Q X"
  using assms by (intro hoareI) (blast dest: hoare_OkD hoare_failD)+

lemma hoare_ret [hoare_rules]: "(\<And>s. P s \<Longrightarrow> Q x s) \<Longrightarrow> hoare P (ret x) Q X"
  by (simp add: hoare_def)

lemma hoare_raise [hoare_rules]: "(\<And>s. P s \<Longrightarrow> X s) \<Longrightarrow> hoare P (raise e) Q X"
  by (simp add: hoare_def)

lemma hoare_panic [hoare_rules]: "(\<And>s. P s \<Longrightarrow> X s) \<Longrightarrow> hoare P (panic e) Q X"
  by (simp add: hoare_def)

lemma hoare_lift_outcome:
  "(\<And>s x. P s \<Longrightarrow> r = Ok x \<Longrightarrow> Q x s) \<Longrightarrow> (\<And>s. P s \<Longrightarrow> \<not> is_ok r \<Longrightarrow> X s)
   \<Longrightarrow> hoare P (lift_outcome r) Q X"
  by (cases r) (auto simp: hoare_def)

lemma hoare_bind [hoare_rules]:
  assumes "hoare P m R X" and "\<And>x. hoare (R x) (f x) Q X"
  shows "hoare P (bind m f) Q X"
  using assms unfolding hoare_def bind_def by (fastforce split: prod.splits outcome.splits)

lemma hoare_andThen [hoare_rules]:
  "hoare P m (\<lambda>_. R) X \<Longrightarrow> hoare R n Q X \<Longrightarrow> hoare P (andThen m n) Q X"
  unfolding andThen_def by (rule hoare_bind)

lemma hoare_or_panic [hoare_rules]: "hoare P m Q X \<Longrightarrow> hoare P (or_panic m) Q X"
  unfolding hoare_def or_panic_def by (fastforce split: prod.splits outcome.splits)

lemma hoare_map_err [hoare_rules]: "hoare P m Q X \<Longrightarrow> hoare P (map_err g m) Q X"
  unfolding hoare_def map_err_def by (fastforce split: prod.splits outcome.splits)

lemma hoare_discard [hoare_rules]:
  "hoare P m (\<lambda>_. R) R \<Longrightarrow> (\<And>s. R s \<Longrightarrow> Q () s) \<Longrightarrow> (\<And>s. R s \<Longrightarrow> X s) \<Longrightarrow> hoare P (discard m) Q X"
  unfolding hoare_def discard_def by (fastforce split: prod.splits outcome.splits)

lemma hoare_if [hoare_rules]:
  "(b \<Longrightarrow> hoare P m Q X) \<Longrightarrow> (\<not> b \<Longrightarrow> hoare P n Q X) \<Longrightarrow> hoare P (if b then m else n) Q X"
  by simp

lemma hoare_for_each:
  assumes "\<And>x. x \<in> set xs \<Longrightarrow> hoare I (body x) (\<lambda>_. I) X"
  shows "hoare I (for_each body xs) (\<lambda>_. I) X"
  using assms by (induction xs) (auto intro!: hoare_rules)

text \<open>A loop whose body keeps \<open>I\<close> and what it established before, and establishes \<open>Q x\<close>.\<close>

lemma for_each_establish:
  assumes "\<And>x w. x \<in> set xs \<Longrightarrow> I w \<Longrightarrow> \<exists>w'. body x w = (Ok (), w') \<and> I w' \<and> Q x w' \<and> (\<forall>y. Q y w \<longrightarrow> Q y w')"
    and "I w"
  shows "\<exists>w'. for_each body xs w = (Ok (), w') \<and> I w' \<and> (\<forall>x \<in> set xs. Q x w') \<and> (\<forall>y. Q y w \<longrightarrow> Q y w')"
  using assms
proof (induction xs arbitrary: w)
  case (Cons x xs)
  obtain w1 where w1: "body x w = (Ok (), w1)" "I w1" "Q x w1" "\<forall>y. Q y w \<longrightarrow> Q y w1"
    using Cons.prems by (metis list.set_intros(1))
  obtain w2 where w2: "for_each body xs w1 = (Ok (), w2)" "I w2" "\<forall>x \<in> set xs. Q x w2" "\<forall>y. Q y w1 \<longrightarrow> Q y w2"
    using Cons.IH [of w1] Cons.prems(1) w1(2) by (metis list.set_intros(2))
  with w1 show ?case by (intro exI [of _ w2]) auto
qed auto

text \<open>\<open>leaves f m\<close>: whatever its outcome, \<open>m\<close> does not change the observation \<open>f\<close>.\<close>

definition leaves :: "('s \<Rightarrow> 'b) \<Rightarrow> ('s, 'a) eff \<Rightarrow> bool" where
  "leaves f m \<longleftrightarrow> (\<forall>s. f (snd (m s)) = f s)"

lemma leavesD: "leaves f m \<Longrightarrow> m s = (r, s') \<Longrightarrow> f s' = f s"
  unfolding leaves_def by (metis snd_conv)

text \<open>\<open>succeeds m\<close>: \<open>m\<close> returns normally from every state.\<close>

definition succeeds :: "('s, 'a) eff \<Rightarrow> bool" where
  "succeeds m \<longleftrightarrow> (\<forall>s. is_ok (fst (m s)))"

lemma succeedsE: "succeeds m \<Longrightarrow> (\<And>x s'. m s = (Ok x, s') \<Longrightarrow> R) \<Longrightarrow> R"
  unfolding succeeds_def by (metis is_ok_iff surjective_pairing)

lemma succeeds_bind:
  assumes "succeeds m" and "\<And>x s'. m s = (Ok x, s') \<Longrightarrow> is_ok (fst (g x s'))"
  shows "is_ok (fst (bind m g s))"
  by (rule succeedsE [OF assms(1), of s]) (simp add: assms(2))

lemma leavesI: "(\<And>s r s'. m s = (r, s') \<Longrightarrow> f s' = f s) \<Longrightarrow> leaves f m"
  unfolding leaves_def by (metis surjective_pairing)

lemma leaves_hoare:
  "leaves f m \<Longrightarrow> (\<And>s s'. P s \<Longrightarrow> f s' = f s \<Longrightarrow> I s') \<Longrightarrow> hoare P m (\<lambda>_. I) I"
  by (rule hoareI) (metis leavesD)+

lemma hoare_leaves:
  assumes "leaves f m" and "\<And>s. f s = b \<Longrightarrow> X s"
  shows "hoare (\<lambda>s. f s = b) m (\<lambda>_ s. f s = b) X"
  using assms(2) leavesD [OF assms(1)] by (intro hoareI) metis+

lemma hoare_bind_leaves:
  assumes "leaves f m" and "\<And>x. hoare (\<lambda>s. f s = b) (g x) Q X" and "\<And>s. f s = b \<Longrightarrow> X s"
  shows "hoare (\<lambda>s. f s = b) (bind m g) Q X"
  using hoare_bind [OF hoare_leaves [OF assms(1,3)] assms(2)] .

lemma hoare_pure: "(C \<Longrightarrow> hoare P m Q X) \<Longrightarrow> hoare (\<lambda>s. P s \<and> C) m Q X"
  by (cases C) (auto simp: hoare_def)

lemma leaves_basic [leaves_rules]:
  "leaves f (ret x)" "leaves f (raise e)" "leaves f (panic e)" "leaves f (lift_outcome r)"
  by (simp_all add: leaves_def)

lemma leaves_bind [leaves_rules]:
  "leaves f m \<Longrightarrow> (\<And>x. leaves f (g x)) \<Longrightarrow> leaves f (bind m g)"
  by (rule leavesI) (auto simp: bind_def split: prod.splits outcome.splits; metis leavesD)

lemma leaves_andThen [leaves_rules]:
  "leaves f m \<Longrightarrow> leaves f n \<Longrightarrow> leaves f (andThen m n)"
  unfolding andThen_def by (rule leaves_bind)

lemma leaves_deferred [leaves_rules]: "leaves f d \<Longrightarrow> leaves f m \<Longrightarrow> leaves f (deferred d m)"
  by (rule leavesI) (auto simp: deferred_def split: prod.splits outcome.splits; metis leavesD)

lemma succeeds_deferred:
  assumes "succeeds d" and "succeeds m"
  shows "succeeds (deferred d m)"
  unfolding succeeds_def
proof
  fix s
  obtain x s1 where "m s = (Ok x, s1)" by (rule succeedsE [OF assms(2)])
  moreover obtain s2 where "d s1 = (Ok (), s2)" by (rule succeedsE [OF assms(1)]) simp
  ultimately show "is_ok (fst (deferred d m s))" by (simp add: deferred_def)
qed

lemma leaves_or_panic [leaves_rules]: "leaves f m \<Longrightarrow> leaves f (or_panic m)"
  by (rule leavesI) (auto simp: or_panic_def dest: leavesD split: prod.splits outcome.splits)

lemma leaves_map_err [leaves_rules]: "leaves f m \<Longrightarrow> leaves f (map_err g m)"
  by (rule leavesI) (auto simp: map_err_def dest: leavesD split: prod.splits outcome.splits)

lemma leaves_discard [leaves_rules]: "leaves f m \<Longrightarrow> leaves f (discard m)"
  by (rule leavesI) (auto simp: discard_def dest: leavesD split: prod.splits outcome.splits)

lemma leaves_if [leaves_rules]:
  "(b \<Longrightarrow> leaves f m) \<Longrightarrow> (\<not> b \<Longrightarrow> leaves f n) \<Longrightarrow> leaves f (if b then m else n)"
  by simp

lemma leaves_for_each [leaves_rules]:
  "(\<And>x. leaves f (body x)) \<Longrightarrow> leaves f (for_each body xs)"
  by (induction xs) (auto intro!: leaves_rules)

section \<open>Functional refinement\<close>

text \<open>
  \<open>runs v m w y w'\<close>: from every state whose view \<open>v\<close> is \<open>w\<close>, \<open>m\<close> returns \<open>y\<close> and leaves a
  state whose view is \<open>w'\<close>. \<open>quiet v m\<close>: \<open>m\<close> returns and leaves the view as it is.
\<close>

named_theorems runs_rules \<open>rules that compose runs of computations\<close>

definition runs :: "('s \<Rightarrow> 'w) \<Rightarrow> ('s, 'a) eff \<Rightarrow> 'w \<Rightarrow> 'a \<Rightarrow> 'w \<Rightarrow> bool" where
  "runs v m w y w' \<longleftrightarrow> (\<forall>s. v s = w \<longrightarrow> (\<exists>s'. m s = (Ok y, s') \<and> v s' = w'))"

definition quiet :: "('s \<Rightarrow> 'w) \<Rightarrow> ('s, 'a) eff \<Rightarrow> bool" where
  "quiet v m \<longleftrightarrow> (\<forall>s. \<exists>y s'. m s = (Ok y, s') \<and> v s' = v s)"

text \<open>\<open>Iterate(ctx, func(x) (stop bool) { f })\<close> over the list of what is stored.\<close>

primrec iterate :: "('a \<Rightarrow> ('s, bool) eff) \<Rightarrow> 'a list \<Rightarrow> ('s, unit) eff" where
  "iterate f [] = ret ()"
| "iterate f (x # xs) = bind (f x) (\<lambda>stop. if stop then ret () else iterate f xs)"

lemma runsD: "runs v m w y w' \<Longrightarrow> v s = w \<Longrightarrow> \<exists>s'. m s = (Ok y, s') \<and> v s' = w'"
  by (simp add: runs_def)

lemma runs_ret [runs_rules]: "runs v (ret x) w x w"
  by (simp add: runs_def)

lemma runs_bind: "runs v m w x w' \<Longrightarrow> runs v (f x) w' y w'' \<Longrightarrow> runs v (bind m f) w y w''"
  unfolding runs_def by (metis bind_step(1))

lemma runs_or_panic [runs_rules]: "runs v m w x w' \<Longrightarrow> runs v (or_panic m) w x w'"
  unfolding runs_def or_panic_def by fastforce

lemma runs_map_err [runs_rules]: "runs v m w x w' \<Longrightarrow> runs v (map_err g m) w x w'"
  unfolding runs_def map_err_def by fastforce

lemma runs_discard [runs_rules]: "runs v m w () w' \<Longrightarrow> runs v (discard m) w () w'"
  unfolding runs_def discard_def by fastforce

lemma runs_lift [runs_rules]: "r = Ok x \<Longrightarrow> runs v (lift_outcome r) w x w"
  by (simp add: runs_def)

lemma runs_quiet_bind:
  "quiet v m \<Longrightarrow> (\<And>x. runs v (f x) w y w') \<Longrightarrow> runs v (bind m f) w y w'"
  unfolding runs_def quiet_def by (metis bind_step(1))

lemma runs_quiet: "quiet v (m :: ('s, unit) eff) \<Longrightarrow> runs v m w () w"
  unfolding runs_def quiet_def by (metis old.unit.exhaust)

lemma quietI: "(\<And>s. \<exists>y s'. m s = (Ok y, s') \<and> v s' = v s) \<Longrightarrow> quiet v m"
  by (simp add: quiet_def)

lemma quietE:
  assumes "quiet v m"
  obtains y s' where "m s = (Ok y, s')" and "v s' = v s"
  using assms unfolding quiet_def by blast

lemma quiet_or_panic [runs_rules]: "quiet v m \<Longrightarrow> quiet v (or_panic m)"
proof (rule quietI)
  fix s assume "quiet v m"
  then obtain y s' where "m s = (Ok y, s')" "v s' = v s" by (rule quietE)
  then show "\<exists>y s'. or_panic m s = (Ok y, s') \<and> v s' = v s" by (simp add: or_panic_def)
qed

lemma quiet_map_err [runs_rules]: "quiet v m \<Longrightarrow> quiet v (map_err g m)"
proof (rule quietI)
  fix s assume "quiet v m"
  then obtain y s' where "m s = (Ok y, s')" "v s' = v s" by (rule quietE)
  then show "\<exists>y s'. map_err g m s = (Ok y, s') \<and> v s' = v s" by (simp add: map_err_def)
qed

lemma quiet_bind [runs_rules]: "quiet v m \<Longrightarrow> (\<And>x. quiet v (f x)) \<Longrightarrow> quiet v (bind m f)"
proof (rule quietI)
  fix s assume m: "quiet v m" and f: "\<And>x. quiet v (f x)"
  obtain x s' where x: "m s = (Ok x, s')" "v s' = v s" using m by (rule quietE)
  obtain y s'' where "f x s' = (Ok y, s'')" "v s'' = v s'" using f by (rule quietE)
  with x show "\<exists>y s'. bind m f s = (Ok y, s') \<and> v s' = v s" by simp
qed

lemma quiet_ret [runs_rules]: "quiet v (ret x)"
  by (simp add: quiet_def)

lemma quiet_lift [runs_rules]: "is_ok r \<Longrightarrow> quiet v (lift_outcome r)"
  by (auto simp: is_ok_iff quiet_def)

lemma runs_at: "(\<And>s. v s = w \<Longrightarrow> m s = m' s) \<Longrightarrow> runs v m' w y w' \<Longrightarrow> runs v m w y w'"
  by (simp add: runs_def)

text \<open>A loop whose body, at each position, moves the view one step further.\<close>

lemma runs_for_each:
  assumes "\<And>ys x zs. xs = ys @ x # zs \<Longrightarrow> runs v (body x) (S ys) () (S (ys @ [x]))"
  shows "runs v (for_each body xs) (S []) () (S xs)"
  using assms
proof (induction xs arbitrary: S)
  case (Cons x xs)
  have "runs v (body x) (S []) () (S [x])" using Cons.prems [of "[]" x xs] by simp
  moreover have "runs v (for_each body xs) (S [x]) () (S (x # xs))"
    using Cons.IH [of "\<lambda>ys. S (x # ys)"] Cons.prems by (metis append_Cons)
  ultimately show ?case by (auto intro: runs_bind)
qed (simp add: runs_ret)

lemma runs_iterate:
  assumes "\<And>ys x zs. xs = ys @ x # zs \<Longrightarrow> runs v (f x) (S ys) False (S (ys @ [x]))"
  shows "runs v (iterate f xs) (S []) () (S xs)"
  using assms
proof (induction xs arbitrary: S)
  case (Cons x xs)
  have "runs v (f x) (S []) False (S [x])" using Cons.prems [of "[]" x xs] by simp
  moreover have "runs v (iterate f xs) (S [x]) () (S (x # xs))"
    using Cons.IH [of "\<lambda>ys. S (x # ys)"] Cons.prems by (metis append_Cons)
  ultimately show ?case by (auto intro: runs_bind)
qed (simp add: runs_ret)

section \<open>Total correctness\<close>

text \<open>\<open>works P m Q\<close>: from a state with \<open>P\<close>, \<open>m\<close> returns, with a value and a state with \<open>Q\<close>.\<close>

named_theorems works_rules \<open>rules that show that a computation returns\<close>

definition works :: "('s \<Rightarrow> bool) \<Rightarrow> ('s, 'a) eff \<Rightarrow> ('a \<Rightarrow> 's \<Rightarrow> bool) \<Rightarrow> bool" where
  "works P m Q \<longleftrightarrow> (\<forall>s. P s \<longrightarrow> (\<exists>x s'. m s = (Ok x, s') \<and> Q x s'))"

lemma worksI: "(\<And>s. P s \<Longrightarrow> \<exists>x s'. m s = (Ok x, s') \<and> Q x s') \<Longrightarrow> works P m Q"
  by (simp add: works_def)

lemma worksD: "works P m Q \<Longrightarrow> P s \<Longrightarrow> \<exists>x s'. m s = (Ok x, s') \<and> Q x s'"
  by (simp add: works_def)

lemma works_weaken: "works P m R \<Longrightarrow> (\<And>x s. R x s \<Longrightarrow> Q x s) \<Longrightarrow> works P m Q"
  unfolding works_def by blast

lemma works_bind: "works P m R \<Longrightarrow> (\<And>x. works (R x) (f x) Q) \<Longrightarrow> works P (bind m f) Q"
  unfolding works_def by (metis bind_step(1))

lemma works_step [works_rules]:
  "works P m (\<lambda>_. P) \<Longrightarrow> (\<And>x. works P (f x) Q) \<Longrightarrow> works P (bind m f) Q"
  by (rule works_bind)

lemma works_ret: "(\<And>s. P s \<Longrightarrow> Q x s) \<Longrightarrow> works P (ret x) Q"
  by (simp add: works_def)

lemma works_lift [works_rules]: "is_ok r \<Longrightarrow> works P (lift_outcome r) (\<lambda>_. P)"
  by (auto simp: works_def is_ok_iff)

lemma works_or_panic [works_rules]: "works P m Q \<Longrightarrow> works P (or_panic m) Q"
  unfolding works_def or_panic_def by fastforce

lemma works_discard [works_rules]: "works P m (\<lambda>_. Q) \<Longrightarrow> works P (discard m) (\<lambda>_. Q)"
  unfolding works_def discard_def by fastforce

lemma works_pure: "(C \<Longrightarrow> works P m Q) \<Longrightarrow> works (\<lambda>s. P s \<and> C) m Q"
  by (auto simp: works_def)

lemma works_quiet: "quiet v m \<Longrightarrow> (\<And>s s'. v s' = v s \<Longrightarrow> P s \<Longrightarrow> P s') \<Longrightarrow> works P m (\<lambda>_. P)"
  unfolding works_def quiet_def by metis

lemma works_for_each [works_rules]:
  "(\<And>x. x \<in> set xs \<Longrightarrow> works P (body x) (\<lambda>_. P)) \<Longrightarrow> works P (for_each body xs) (\<lambda>_. P)"
  by (induction xs) (auto intro: works_ret works_step)

section \<open>Keyed tables\<close>

text \<open>A store keeps one entry per key; writing an entry replaces the one with its key.\<close>

definition replace_by :: "('a \<Rightarrow> 'k) \<Rightarrow> 'a \<Rightarrow> 'a list \<Rightarrow> 'a list" where
  "replace_by key x xs = map (\<lambda>y. if key y = key x then x else y) xs"

definition updated :: "('a \<Rightarrow> 'a) \<Rightarrow> 'a set \<Rightarrow> 'a list \<Rightarrow> 'a list" where
  "updated g A xs = map (\<lambda>x. if x \<in> A then g x else x) xs"

lemma updated_simps [simp]: "updated g {} xs = xs" "updated g (set xs) xs = map g xs"
  by (simp_all add: updated_def)

lemma replace_updated:
  assumes "distinct (map key xs)" and "\<And>x. key (g x) = key x" and "y \<in> set xs"
  shows "replace_by key (g y) (updated g A xs) = updated g (insert y A) xs"
proof -
  have "key x = key y \<longleftrightarrow> x = y" if "x \<in> set xs" for x
    using that assms(1,3) by (auto simp: distinct_map dest: inj_onD)
  then show ?thesis using assms(2) by (auto simp: replace_by_def updated_def)
qed

end
