(* ===== verification/Supply_Limit.thy ===== *)
theory Supply_Limit
  imports Prelude
begin

text \<open>
  The contract between a mint and the chain that runs it block after block: how the supply
  after a block depends on the supply before it and on the amount the block asks for. The
  chain's lemmas are proved once from the contract; \<^verbatim>\<open>Mint_Hardcap\<close> shows that the
  repository's clamp satisfies it. The parameter \<open>lawful\<close> restricts the configuration
  (denomination, cap, library) the contract holds for.
\<close>

locale supply_limiter =
  fixes lawful :: "'l \<Rightarrow> bool" and cap :: "'l \<Rightarrow> int" and after :: "'l \<Rightarrow> int \<Rightarrow> int \<Rightarrow> int"
  assumes grows: "lawful l \<Longrightarrow> 0 \<le> s \<Longrightarrow> s \<le> after l s a"
    and bounded: "lawful l \<Longrightarrow> 0 \<le> s \<Longrightarrow> after l s a \<le> max s (cap l)"
    and grants: "lawful l \<Longrightarrow> 0 \<le> s \<Longrightarrow> 0 \<le> a \<Longrightarrow> s + a \<le> cap l \<Longrightarrow> after l s a = s + a"
    and exhausts: "lawful l \<Longrightarrow> 0 \<le> s \<Longrightarrow> s \<le> cap l \<Longrightarrow> cap l \<le> s + a \<Longrightarrow> after l s a = cap l"
    and idles: "lawful l \<Longrightarrow> 0 \<le> s \<Longrightarrow> a \<le> 0 \<Longrightarrow> after l s a = s"
begin

lemma after_closed:
  assumes "lawful l" and "0 \<le> s" and "s \<le> cap l"
  shows "after l s a = min (cap l) (s + max 0 a)"
proof -
  consider "a \<le> 0" | "0 \<le> a" "s + a \<le> cap l" | "cap l \<le> s + a" by linarith
  then show ?thesis
    using assms by cases (simp_all add: idles grants exhausts)
qed

lemma after_frozen: "lawful l \<Longrightarrow> 0 \<le> s \<Longrightarrow> cap l \<le> s \<Longrightarrow> after l s a = s"
  using grows [of l s a] bounded [of l s a] by simp

text \<open>A run of blocks ends at the sum of what was asked for, cut off at the cap.\<close>

lemma run_closed:
  "lawful l \<Longrightarrow> 0 \<le> s \<Longrightarrow> s \<le> cap l \<Longrightarrow>
   foldl (after l) s as = min (cap l) (s + (\<Sum>a\<leftarrow>as. max 0 a))"
proof (induction as arbitrary: s)
  case Nil
  then show ?case by simp
next
  case (Cons a as)
  have nn: "0 \<le> (\<Sum>a\<leftarrow>as. max 0 (a :: int))" by (rule sum_list_nonneg) auto
  have "0 \<le> after l s a" "after l s a \<le> cap l"
    using grows [of l s a] bounded [of l s a] Cons.prems by auto
  moreover have "min c (min c x + y) = min c (x + y)" if "0 \<le> y" for c x y :: int
    using that by auto
  ultimately show ?case
    using Cons.IH [of "after l s a"] after_closed [of l s a] Cons.prems nn
    by (simp add: add.assoc)
qed

lemma run_frozen: "lawful l \<Longrightarrow> 0 \<le> s \<Longrightarrow> cap l \<le> s \<Longrightarrow> foldl (after l) s as = s"
  by (induction as) (simp_all add: after_frozen)

end

end
