(* ===== verification/Mint_Hardcap.thy ===== *)
theory Mint_Hardcap
  imports Supply_Limit
begin

text \<open>
  \<^verbatim>\<open>app/mint_hardcap.go\<close>: the mint function that the application injects in place of the SDK's
  default one. It recomputes the minter, asks for the block provision, clamps it to what the
  hard cap on the \<^verbatim>\<open>ubps\<close> supply leaves, mints it and moves it to the fee collector.

  The SDK is not part of the repository. Its integers and coins (\<^verbatim>\<open>cosmossdk.io/math\<close>,
  \<^verbatim>\<open>sdk.NewCoin\<close>, \<^verbatim>\<open>sdk.NewCoins\<close>) are the record \<open>sdk_lib\<close>, the mint and bank keepers the
  function calls are the record \<open>mint_env\<close> over an arbitrary state; what the function
  relies on is stated as \<open>sdk_laws\<close> and \<open>mint_laws\<close>. An \<^verbatim>\<open>sdkmath.Int\<close> or a
  \<^verbatim>\<open>LegacyDec\<close> is represented by its \<open>int\<close> (a decimal by the scaled integer it holds).
\<close>

section \<open>Data\<close>

record coin =
  denom :: string
  amount :: int

record minter =
  Inflation :: int
  AnnualProvisions :: int

record mint_event =
  ev_bonded_ratio :: string
  ev_inflation :: string
  ev_annual_provisions :: string
  ev_amount :: string

record sdk_lib =
  valid_denom :: "string \<Rightarrow> bool"
  int_Sub :: "int \<Rightarrow> int \<Rightarrow> int outcome"
  NewCoin :: "string \<Rightarrow> int \<Rightarrow> coin outcome"
  NewCoins :: "coin list \<Rightarrow> coin list outcome"
  int_String :: "int \<Rightarrow> string"
  dec_String :: "int \<Rightarrow> string"

record ('s, 'p) mint_env =
  Minter_Get :: "('s, minter) eff"
  MintParams_Get :: "('s, 'p) eff"
  StakingTokenSupply :: "('s, int) eff"
  BondedRatio :: "('s, int) eff"
  InflationCalculation :: "minter \<Rightarrow> 'p \<Rightarrow> int \<Rightarrow> ('s, int) eff"
  NextAnnualProvisions :: "minter \<Rightarrow> 'p \<Rightarrow> int \<Rightarrow> ('s, int) eff"
  Minter_Set :: "minter \<Rightarrow> ('s, unit) eff"
  BlockProvision :: "minter \<Rightarrow> 'p \<Rightarrow> ('s, coin) eff"
  GetSupply :: "string \<Rightarrow> ('s, coin) eff"
  MintCoins :: "coin list \<Rightarrow> ('s, unit) eff"
  AddCollectedFees :: "coin list \<Rightarrow> ('s, unit) eff"
  EmitEvent :: "mint_event \<Rightarrow> ('s, unit) eff"
  ModuleSetGauge :: "int \<Rightarrow> ('s, unit) eff"

section \<open>The code\<close>

definition MintHardCapDenom :: string where
  "MintHardCapDenom = ''ubps''"

definition MintHardCapAmount :: int where
  "MintHardCapAmount = 100000000000000"

definition clampMintToHardCap ::
  "sdk_lib \<Rightarrow> int \<Rightarrow> coin \<Rightarrow> string \<Rightarrow> int \<Rightarrow> coin outcome" where
  "clampMintToHardCap L currentSupply mintedCoin capDenom capAmount =
     (if \<not> 0 < amount mintedCoin then Ok mintedCoin
      else if capDenom = '''' \<or> \<not> 0 < capAmount then Ok mintedCoin
      else if denom mintedCoin \<noteq> capDenom then Ok mintedCoin
      else if capAmount \<le> currentSupply then NewCoin L (denom mintedCoin) 0
      else obind (int_Sub L capAmount currentSupply) (\<lambda>remaining.
        if remaining < amount mintedCoin then NewCoin L (denom mintedCoin) remaining
        else Ok mintedCoin))"

definition IsInt64 :: "int \<Rightarrow> bool" where
  "IsInt64 a \<longleftrightarrow> - (2 ^ 63) \<le> a \<and> a < 2 ^ 63"

text \<open>
  The deferred telemetry call runs when the function returns: the gauge is set after the event.
\<close>

definition NewHardCapMintFn ::
  "sdk_lib \<Rightarrow> ('s, 'p) mint_env \<Rightarrow> string \<Rightarrow> int \<Rightarrow> ('s, unit) eff" where
  "NewHardCapMintFn L E capDenom capAmount =
     bind (Minter_Get E) (\<lambda>minter.
     bind (MintParams_Get E) (\<lambda>params.
     bind (StakingTokenSupply E) (\<lambda>totalStakingSupply.
     bind (BondedRatio E) (\<lambda>bondedRatio.
     bind (InflationCalculation E minter params bondedRatio) (\<lambda>inflation.
     let minter = minter\<lparr>Inflation := inflation\<rparr> in
     bind (NextAnnualProvisions E minter params totalStakingSupply) (\<lambda>provisions.
     let minter = minter\<lparr>AnnualProvisions := provisions\<rparr> in
     bind (Minter_Set E minter) (\<lambda>_.
     bind (BlockProvision E minter params) (\<lambda>mintedCoin.
     bind (GetSupply E capDenom) (\<lambda>currentSupply.
     bind (lift_outcome (clampMintToHardCap L (amount currentSupply) mintedCoin capDenom capAmount))
       (\<lambda>mintedCoin.
     bind (if 0 < amount mintedCoin then
             bind (lift_outcome (NewCoins L [mintedCoin])) (\<lambda>mintedCoins.
             bind (MintCoins E mintedCoins) (\<lambda>_.
             AddCollectedFees E mintedCoins))
           else ret ()) (\<lambda>_.
     deferred (if IsInt64 (amount mintedCoin) then ModuleSetGauge E (amount mintedCoin) else ret ())
       (EmitEvent E \<lparr>ev_bonded_ratio = dec_String L bondedRatio,
             ev_inflation = dec_String L (Inflation minter),
             ev_annual_provisions = dec_String L (AnnualProvisions minter),
             ev_amount = int_String L (amount mintedCoin)\<rparr>))))))))))))"

definition ProvideHardCapMintFn :: "sdk_lib \<Rightarrow> ('s, 'p) mint_env \<Rightarrow> ('s, unit) eff" where
  "ProvideHardCapMintFn L E = NewHardCapMintFn L E MintHardCapDenom MintHardCapAmount"

section \<open>What the SDK promises\<close>

text \<open>
  Subtraction is exact unless the result needs more than 256 bits (then it panics);
  \<^verbatim>\<open>NewCoin\<close> gives the coin for a valid denomination and a non-negative amount and panics
  otherwise; \<^verbatim>\<open>NewCoins\<close> of one positive coin gives that coin or panics.
\<close>

definition sdk_laws :: "sdk_lib \<Rightarrow> bool" where
  "sdk_laws L \<longleftrightarrow>
     valid_denom L MintHardCapDenom \<and>
     (\<forall>a b. \<bar>a - b\<bar> < 2 ^ 256 \<longrightarrow> int_Sub L a b = Ok (a - b)) \<and>
     (\<forall>d a. valid_denom L d \<and> 0 \<le> a \<longrightarrow> NewCoin L d a = Ok \<lparr>denom = d, amount = a\<rparr>) \<and>
     (\<forall>d a. \<not> (valid_denom L d \<and> 0 \<le> a) \<longrightarrow> (\<exists>e. NewCoin L d a = Panic e)) \<and>
     (\<forall>c. 0 < amount c \<longrightarrow>
        (if valid_denom L (denom c) then NewCoins L [c] = Ok [c]
         else (\<exists>e. NewCoins L [c] = Panic e)))"

definition coins_of :: "string \<Rightarrow> coin list \<Rightarrow> int" where
  "coins_of d cs = sum_list (map amount (filter (\<lambda>c. denom c = d) cs))"

text \<open>
  What is observed of the state for one denomination: the total supply, what the fee
  collector holds and what the mint module account holds.
\<close>

record books =
  total_supply :: int
  collected :: int
  minter_balance :: int

text \<open>
  \<^verbatim>\<open>GetSupply\<close> reads the supply; \<^verbatim>\<open>MintCoins\<close> adds to the supply and to the mint module's
  account, and a failed one adds at most that much; \<^verbatim>\<open>AddCollectedFees\<close> moves coins from the
  mint module to the fee collector; the other calls touch none of the three.
\<close>

definition mint_laws :: "('s, 'p) mint_env \<Rightarrow> string \<Rightarrow> ('s \<Rightarrow> books) \<Rightarrow> bool" where
  "mint_laws E d bk \<longleftrightarrow>
     (\<forall>s. GetSupply E d s = (Ok \<lparr>denom = d, amount = total_supply (bk s)\<rparr>, s)) \<and>
     (\<forall>cs b. hoare (\<lambda>s. bk s = b) (MintCoins E cs)
        (\<lambda>_ s. bk s = b\<lparr>total_supply := total_supply b + coins_of d cs,
                        minter_balance := minter_balance b + coins_of d cs\<rparr>)
        (\<lambda>s. total_supply b \<le> total_supply (bk s) \<and> total_supply (bk s) \<le> total_supply b + coins_of d cs)) \<and>
     (\<forall>cs b. hoare (\<lambda>s. bk s = b) (AddCollectedFees E cs)
        (\<lambda>_ s. bk s = b\<lparr>collected := collected b + coins_of d cs,
                        minter_balance := minter_balance b - coins_of d cs\<rparr>)
        (\<lambda>s. total_supply (bk s) = total_supply b)) \<and>
     leaves bk (Minter_Get E) \<and> leaves bk (MintParams_Get E) \<and>
     leaves bk (StakingTokenSupply E) \<and> leaves bk (BondedRatio E) \<and>
     (\<forall>m p r. leaves bk (InflationCalculation E m p r)) \<and>
     (\<forall>m p t. leaves bk (NextAnnualProvisions E m p t)) \<and>
     (\<forall>m. leaves bk (Minter_Set E m)) \<and>
     (\<forall>m p. leaves bk (BlockProvision E m p)) \<and>
     (\<forall>e. leaves bk (EmitEvent E e)) \<and>
     (\<forall>a. leaves bk (ModuleSetGauge E a))"

section \<open>The abstract mint\<close>

text \<open>
  What a block may mint under a cap, and the books after it: the abstract specification that
  the code refines.
\<close>

definition granted :: "int \<Rightarrow> int \<Rightarrow> int \<Rightarrow> int" where
  "granted cap s a = max 0 (min a (cap - s))"

definition credit :: "books \<Rightarrow> int \<Rightarrow> books" where
  "credit b g = b\<lparr>total_supply := total_supply b + g, collected := collected b + g\<rparr>"

lemma credit_0 [simp]: "credit b 0 = b"
  by (simp add: credit_def)

lemma granted_bounds: "0 \<le> granted cap s a" "s + granted cap s a \<le> max s cap"
  by (auto simp: granted_def)

definition cap_config :: "sdk_lib \<Rightarrow> string \<Rightarrow> int \<Rightarrow> bool" where
  "cap_config L d cap \<longleftrightarrow>
     sdk_laws L \<and> valid_denom L d \<and> d \<noteq> '''' \<and> 0 < cap \<and> cap < 2 ^ 256"

lemma hardcap_config: "sdk_laws L \<Longrightarrow> cap_config L MintHardCapDenom MintHardCapAmount"
  by (simp add: cap_config_def sdk_laws_def MintHardCapDenom_def MintHardCapAmount_def)

lemma clamp_own_denom:
  assumes "cap_config L d cap" and "0 \<le> s" and "denom c = d"
  shows "clampMintToHardCap L s c d cap =
    Ok (c\<lparr>amount := (if amount c \<le> 0 then amount c else granted cap s (amount c))\<rparr>)"
proof -
  have "int_Sub L cap s = Ok (cap - s)" if "s < cap"
    using assms that by (auto simp: cap_config_def sdk_laws_def)
  moreover have "NewCoin L d a = Ok \<lparr>denom = d, amount = a\<rparr>" if "0 \<le> a" for a
    using assms that by (auto simp: cap_config_def sdk_laws_def)
  ultimately show ?thesis
    using assms(1,3) by (cases c) (auto simp: clampMintToHardCap_def cap_config_def granted_def)
qed

lemma clamp_other_denom: "denom c \<noteq> d \<Longrightarrow> clampMintToHardCap L s c d cap = Ok c"
  by (simp add: clampMintToHardCap_def)

lemma coins_of_single [simp]: "coins_of d [c] = (if denom c = d then amount c else 0)"
  by (simp add: coins_of_def)

lemma NewCoins_single:
  "sdk_laws L \<Longrightarrow> 0 < amount c \<Longrightarrow> NewCoins L [c] = Ok cs \<Longrightarrow> cs = [c]"
  by (auto simp: sdk_laws_def split: if_splits)

section \<open>The code refines the abstract mint\<close>

text \<open>What \<open>MintCoins\<close> and \<open>AddCollectedFees\<close> of one positive coin do to the books.\<close>

lemma mint_and_collect:
  assumes L: "sdk_laws L" and E: "mint_laws E d bk" and pos: "0 < amount c"
  shows "hoare (\<lambda>s. bk s = b)
     (bind (lift_outcome (NewCoins L [c])) (\<lambda>cs. bind (MintCoins E cs) (\<lambda>_. AddCollectedFees E cs)))
     (\<lambda>_ s. bk s = credit b (coins_of d [c]))
     (\<lambda>s. total_supply b \<le> total_supply (bk s) \<and>
          total_supply (bk s) \<le> total_supply b + coins_of d [c])"
    (is "hoare _ _ ?Q ?X")
proof (rule hoare_bind [where R = "\<lambda>cs s. bk s = b \<and> cs = [c]"])
  show "hoare (\<lambda>s. bk s = b) (lift_outcome (NewCoins L [c])) (\<lambda>cs s. bk s = b \<and> cs = [c]) ?X"
    using NewCoins_single [OF L pos] pos by (intro hoare_lift_outcome) auto
next
  fix cs
  let ?b = "b\<lparr>total_supply := total_supply b + coins_of d [c],
             minter_balance := minter_balance b + coins_of d [c]\<rparr>"
  have M: "hoare (\<lambda>s. bk s = b) (MintCoins E [c]) (\<lambda>_ s. bk s = ?b) ?X"
    using E unfolding mint_laws_def by blast
  have "hoare (\<lambda>s. bk s = ?b) (AddCollectedFees E [c])
        (\<lambda>_ s. bk s = ?b\<lparr>collected := collected ?b + coins_of d [c],
                        minter_balance := minter_balance ?b - coins_of d [c]\<rparr>)
        (\<lambda>s. total_supply (bk s) = total_supply ?b)"
    using E unfolding mint_laws_def by blast
  then have A: "hoare (\<lambda>s. bk s = ?b) (AddCollectedFees E [c]) ?Q ?X"
    by (rule hoare_weaken) (use pos in \<open>auto simp: credit_def\<close>)
  show "hoare (\<lambda>s. bk s = b \<and> cs = [c]) (bind (MintCoins E cs) (\<lambda>_. AddCollectedFees E cs)) ?Q ?X"
    using hoare_bind [OF M A] by (intro hoare_pure) simp
qed

text \<open>What a block whose provision is \<open>c\<close> mints of the capped denomination.\<close>

definition block_grant :: "string \<Rightarrow> int \<Rightarrow> books \<Rightarrow> coin \<Rightarrow> int" where
  "block_grant d cap b c = (if denom c = d then granted cap (total_supply b) (amount c) else 0)"

lemma block_grant_bounds:
  "0 \<le> block_grant d cap b c" "total_supply b + block_grant d cap b c \<le> max (total_supply b) cap"
  using granted_bounds [where cap = cap and s = "total_supply b"] by (auto simp: block_grant_def)

lemma clamp_result:
  assumes "cap_config L d cap" and "0 \<le> total_supply b"
  obtains c' where "clampMintToHardCap L (total_supply b) c d cap = Ok c'"
    and "block_grant d cap b c = (if 0 < amount c' then coins_of d [c'] else 0)"
proof (cases "denom c = d")
  case True
  then show ?thesis
    using clamp_own_denom [OF assms True] granted_bounds(1) [of cap "total_supply b" "amount c"]
    by (intro that) (auto simp: block_grant_def granted_def split: if_splits)
next
  case False
  then show ?thesis
    by (intro that [OF clamp_other_denom]) (auto simp: block_grant_def)
qed

lemma mint_tail:
  assumes cfg: "cap_config L d cap" and E: "mint_laws E d bk" and nn: "0 \<le> total_supply b"
  shows "hoare (\<lambda>s. bk s = b)
     (bind (GetSupply E d) (\<lambda>currentSupply.
      bind (lift_outcome (clampMintToHardCap L (amount currentSupply) c d cap)) (\<lambda>c.
      bind (if 0 < amount c then
              bind (lift_outcome (NewCoins L [c])) (\<lambda>cs.
              bind (MintCoins E cs) (\<lambda>_. AddCollectedFees E cs))
            else ret ()) (\<lambda>_.
      deferred (if IsInt64 (amount c) then ModuleSetGauge E (amount c) else ret ()) (EmitEvent E (ev c))))))
     (\<lambda>_ s. bk s = credit b (block_grant d cap b c))
     (\<lambda>s. total_supply b \<le> total_supply (bk s) \<and> total_supply (bk s) \<le> max (total_supply b) cap)"
    (is "hoare _ (bind _ (\<lambda>cs. bind (lift_outcome (?clamp cs)) ?rest)) ?Q ?X")
proof -
  obtain c' where c': "clampMintToHardCap L (total_supply b) c d cap = Ok c'"
    and g: "block_grant d cap b c = (if 0 < amount c' then coins_of d [c'] else 0)"
    using clamp_result [OF cfg nn] by blast
  let ?b = "credit b (block_grant d cap b c)"
  have le: "total_supply b \<le> total_supply ?b" "total_supply ?b \<le> max (total_supply b) cap"
    using block_grant_bounds [where d = d and cap = cap and b = b and c = c] by (simp_all add: credit_def)
  have L: "sdk_laws L" using cfg by (simp add: cap_config_def)
  have lv: "leaves bk (EmitEvent E (ev c'))" "leaves bk (ModuleSetGauge E (amount c'))"
    using E by (simp_all add: mint_laws_def)
  have fin: "hoare (\<lambda>s. bk s = ?b) (deferred (if IsInt64 (amount c') then ModuleSetGauge E (amount c') else ret ()) (EmitEvent E (ev c'))) ?Q ?X"
    using le lv by (intro hoare_leaves leaves_deferred) (simp_all add: leaves_basic)
  have mid: "hoare (\<lambda>s. bk s = b)
      (if 0 < amount c' then bind (lift_outcome (NewCoins L [c'])) (\<lambda>cs.
         bind (MintCoins E cs) (\<lambda>_. AddCollectedFees E cs)) else ret ()) (\<lambda>_ s. bk s = ?b) ?X"
  proof (intro hoare_if hoare_ret)
    assume "0 < amount c'"
    then show "hoare (\<lambda>s. bk s = b) (bind (lift_outcome (NewCoins L [c'])) (\<lambda>cs.
         bind (MintCoins E cs) (\<lambda>_. AddCollectedFees E cs))) (\<lambda>_ s. bk s = ?b) ?X"
      using g block_grant_bounds [where d = d and cap = cap and b = b and c = c]
      by (intro hoare_weaken [OF mint_and_collect [OF L E]]) auto
  qed (use g in simp)
  have "?rest c' = bind (if 0 < amount c' then bind (lift_outcome (NewCoins L [c'])) (\<lambda>cs.
         bind (MintCoins E cs) (\<lambda>_. AddCollectedFees E cs)) else ret ())
       (\<lambda>_. deferred (if IsInt64 (amount c') then ModuleSetGauge E (amount c') else ret ()) (EmitEvent E (ev c')))" ..
  with hoare_bind [OF mid fin] have "hoare (\<lambda>s. bk s = b) (?rest c') ?Q ?X" by simp
  moreover have "bind (GetSupply E d) (\<lambda>cs. bind (lift_outcome (?clamp cs)) ?rest) s = ?rest c' s"
    if "bk s = b" for s
    using E that c' by (simp add: mint_laws_def bind_def)
  ultimately show ?thesis unfolding hoare_def by simp
qed

text \<open>
  The whole function: whatever the reads return, a normal return has minted exactly the
  grant for some coin \<open>c\<close> the block provision can return, and any other outcome leaves the
  supply between what it was and the cap.
\<close>

lemma mint_refines:
  assumes cfg: "cap_config L d cap" and E: "mint_laws E d bk" and nn: "0 \<le> total_supply b"
    and prov: "\<And>m p. hoare (\<lambda>_. True) (BlockProvision E m p) (\<lambda>c _. C c) (\<lambda>_. True)"
  shows "hoare (\<lambda>s. bk s = b) (NewHardCapMintFn L E d cap)
     (\<lambda>_ s. \<exists>c. C c \<and> bk s = credit b (block_grant d cap b c))
     (\<lambda>s. total_supply b \<le> total_supply (bk s) \<and> total_supply (bk s) \<le> max (total_supply b) cap)"
    (is "hoare ?P _ ?Q ?X")
proof -
  have P: "hoare ?P (BlockProvision E m p) (\<lambda>c s. bk s = b \<and> C c) ?X" for m p
  proof (rule hoareI)
    have "leaves bk (BlockProvision E m p)" using E by (simp add: mint_laws_def)
    then show "bk s' = b \<and> C c" if "bk s = b" "BlockProvision E m p s = (Ok c, s')" for s c s'
      using that hoare_OkD [OF prov] by (blast dest: leavesD)
    from \<open>leaves bk _\<close> show "?X s'" if "bk s = b" "BlockProvision E m p s = (r, s')" for s r s'
      using that by (auto dest: leavesD)
  qed
  have T: "hoare (\<lambda>s. bk s = b \<and> C c)
     (bind (GetSupply E d) (\<lambda>currentSupply.
      bind (lift_outcome (clampMintToHardCap L (amount currentSupply) c d cap)) (\<lambda>c.
      bind (if 0 < amount c then
              bind (lift_outcome (NewCoins L [c])) (\<lambda>cs.
              bind (MintCoins E cs) (\<lambda>_. AddCollectedFees E cs))
            else ret ()) (\<lambda>_.
      deferred (if IsInt64 (amount c) then ModuleSetGauge E (amount c) else ret ()) (EmitEvent E (ev c)))))) ?Q ?X" for c ev
    by (rule hoare_pure, rule hoare_weaken [OF mint_tail [OF cfg E nn]]) auto
  have lv: "leaves bk (Minter_Get E)" "leaves bk (MintParams_Get E)"
    "leaves bk (StakingTokenSupply E)" "leaves bk (BondedRatio E)"
    "\<And>m p r. leaves bk (InflationCalculation E m p r)"
    "\<And>m p t. leaves bk (NextAnnualProvisions E m p t)" "\<And>m. leaves bk (Minter_Set E m)"
    using E by (simp_all add: mint_laws_def)
  show ?thesis
    unfolding NewHardCapMintFn_def Let_def
    by (intro hoare_bind_leaves [OF lv(1)] hoare_bind_leaves [OF lv(2)]
        hoare_bind_leaves [OF lv(3)] hoare_bind_leaves [OF lv(4)] hoare_bind_leaves [OF lv(5)]
        hoare_bind_leaves [OF lv(6)] hoare_bind_leaves [OF lv(7)] hoare_bind [OF P T]) auto
qed

text \<open>When every call of the keepers succeeds, so does the function.\<close>

definition mint_env_succeeds :: "('s, 'p) mint_env \<Rightarrow> bool" where
  "mint_env_succeeds E \<longleftrightarrow>
     succeeds (Minter_Get E) \<and> succeeds (MintParams_Get E) \<and> succeeds (StakingTokenSupply E) \<and>
     succeeds (BondedRatio E) \<and> (\<forall>m p r. succeeds (InflationCalculation E m p r)) \<and>
     (\<forall>m p t. succeeds (NextAnnualProvisions E m p t)) \<and> (\<forall>m. succeeds (Minter_Set E m)) \<and>
     (\<forall>m p. succeeds (BlockProvision E m p)) \<and> (\<forall>cs. succeeds (MintCoins E cs)) \<and>
     (\<forall>cs. succeeds (AddCollectedFees E cs)) \<and> (\<forall>e. succeeds (EmitEvent E e)) \<and>
     (\<forall>a. succeeds (ModuleSetGauge E a))"

lemma clamp_valid:
  assumes "cap_config L d cap" and "0 \<le> s" and "valid_denom L (denom c)"
  obtains c' where "clampMintToHardCap L s c d cap = Ok c'" and "valid_denom L (denom c')"
  using assms clamp_own_denom [OF assms(1,2), of c] clamp_other_denom [of c d L s cap]
  by (cases "denom c = d") auto

lemma mint_tail_succeeds:
  assumes cfg: "cap_config L d cap" and E: "mint_laws E d bk" and ok: "mint_env_succeeds E"
    and nn: "0 \<le> total_supply (bk s)" and c: "valid_denom L (denom c)"
  shows "is_ok (fst (bind (GetSupply E d) (\<lambda>currentSupply.
      bind (lift_outcome (clampMintToHardCap L (amount currentSupply) c d cap)) (\<lambda>c.
      bind (if 0 < amount c then
              bind (lift_outcome (NewCoins L [c])) (\<lambda>cs.
              bind (MintCoins E cs) (\<lambda>_. AddCollectedFees E cs))
            else ret ()) (\<lambda>_.
      deferred (if IsInt64 (amount c) then ModuleSetGauge E (amount c) else ret ()) (EmitEvent E (ev c))))) s))"
proof -
  obtain c' where c': "clampMintToHardCap L (total_supply (bk s)) c d cap = Ok c'"
    and v: "valid_denom L (denom c')" using clamp_valid [OF cfg nn c] by blast
  have NC: "NewCoins L [c'] = Ok [c']" if "0 < amount c'"
    using cfg v that by (auto simp: cap_config_def sdk_laws_def)
  have ok': "\<And>cs. succeeds (MintCoins E cs)" "\<And>cs. succeeds (AddCollectedFees E cs)"
    "\<And>e. succeeds (EmitEvent E e)" "\<And>a. succeeds (ModuleSetGauge E a)"
    using ok by (simp_all add: mint_env_succeeds_def)
  have gs: "GetSupply E d s = (Ok \<lparr>denom = d, amount = total_supply (bk s)\<rparr>, s)"
    using E by (simp add: mint_laws_def)
  have mid: "succeeds (if 0 < amount c' then
       bind (lift_outcome (NewCoins L [c'])) (\<lambda>cs. bind (MintCoins E cs) (\<lambda>_. AddCollectedFees E cs))
     else ret ())"
    using NC ok'(2) unfolding succeeds_def by (auto intro!: succeeds_bind [OF ok'(1)])
  have "is_ok (fst (bind (if 0 < amount c' then
       bind (lift_outcome (NewCoins L [c'])) (\<lambda>cs. bind (MintCoins E cs) (\<lambda>_. AddCollectedFees E cs))
     else ret ()) (\<lambda>_. deferred (if IsInt64 (amount c') then ModuleSetGauge E (amount c') else ret ()) (EmitEvent E (ev c'))) s))"
    using succeeds_deferred [OF _ ok'(3)] ok'(4) by (intro succeeds_bind [OF mid]) (simp add: succeeds_def)
  then show ?thesis using gs c' by simp
qed

lemma mint_succeeds:
  assumes cfg: "cap_config L d cap" and E: "mint_laws E d bk" and ok: "mint_env_succeeds E"
    and nn: "0 \<le> total_supply (bk s)"
    and prov: "\<And>m p s c s'. BlockProvision E m p s = (Ok c, s') \<Longrightarrow> valid_denom L (denom c)"
  shows "is_ok (fst (NewHardCapMintFn L E d cap s))"
proof -
  have lv: "leaves bk (Minter_Get E)" "leaves bk (MintParams_Get E)"
    "leaves bk (StakingTokenSupply E)" "leaves bk (BondedRatio E)"
    "\<And>m p r. leaves bk (InflationCalculation E m p r)"
    "\<And>m p t. leaves bk (NextAnnualProvisions E m p t)" "\<And>m. leaves bk (Minter_Set E m)"
    "\<And>m p. leaves bk (BlockProvision E m p)"
    using E by (simp_all add: mint_laws_def)
  have ok': "succeeds (Minter_Get E)" "succeeds (MintParams_Get E)"
    "succeeds (StakingTokenSupply E)" "succeeds (BondedRatio E)"
    "\<And>m p r. succeeds (InflationCalculation E m p r)"
    "\<And>m p t. succeeds (NextAnnualProvisions E m p t)" "\<And>m. succeeds (Minter_Set E m)"
    "\<And>m p. succeeds (BlockProvision E m p)"
    using ok by (simp_all add: mint_env_succeeds_def)
  show ?thesis
    unfolding NewHardCapMintFn_def Let_def
    by (intro succeeds_bind [OF ok'(1)] succeeds_bind [OF ok'(2)] succeeds_bind [OF ok'(3)]
        succeeds_bind [OF ok'(4)] succeeds_bind [OF ok'(5)] succeeds_bind [OF ok'(6)]
        succeeds_bind [OF ok'(7)] succeeds_bind [OF ok'(8)] mint_tail_succeeds [OF cfg E ok])
      (use nn prov in \<open>auto dest!: leavesD [OF lv(1)] leavesD [OF lv(2)] leavesD [OF lv(3)]
        leavesD [OF lv(4)] leavesD [OF lv(5)] leavesD [OF lv(6)] leavesD [OF lv(7)]
        leavesD [OF lv(8)]\<close>)
qed

section \<open>The clamp as a supply limiter\<close>

text \<open>The supply after a block that asks for \<open>a\<close>, as the code's clamp decides it.\<close>

fun clamped_supply :: "sdk_lib \<times> string \<times> int \<Rightarrow> int \<Rightarrow> int \<Rightarrow> int" where
  "clamped_supply (L, d, cap) s a =
     (case clampMintToHardCap L s \<lparr>denom = d, amount = a\<rparr> d cap of
        Ok c \<Rightarrow> if 0 < amount c then s + amount c else s
      | _ \<Rightarrow> s)"

lemma clamped_supply_granted:
  "cap_config L d cap \<Longrightarrow> 0 \<le> s \<Longrightarrow> clamped_supply (L, d, cap) s a = s + granted cap s a"
  by (auto simp: clamp_own_denom granted_def)

interpretation hardcap: supply_limiter "\<lambda>(L, d, cap). cap_config L d cap" "\<lambda>(L, d, cap). cap"
  clamped_supply
  by unfold_locales (auto simp: clamped_supply_granted granted_def simp del: clamped_supply.simps)

text \<open>
  The chain: blocks run the mint function with any outcome, and between them other
  transactions may do what they like but do not raise the supply of the capped denomination.
\<close>

inductive chain_step ::
  "sdk_lib \<Rightarrow> ('s, 'p) mint_env \<Rightarrow> string \<Rightarrow> int \<Rightarrow> ('s \<Rightarrow> books) \<Rightarrow> 's \<Rightarrow> 's \<Rightarrow> bool"
  for L E d cap bk where
  begin_block: "NewHardCapMintFn L E d cap s = (r, s') \<Longrightarrow> chain_step L E d cap bk s s'"
| other_tx: "0 \<le> total_supply (bk s') \<Longrightarrow> total_supply (bk s') \<le> total_supply (bk s)
    \<Longrightarrow> chain_step L E d cap bk s s'"

inductive chain_reach ::
  "sdk_lib \<Rightarrow> ('s, 'p) mint_env \<Rightarrow> string \<Rightarrow> int \<Rightarrow> ('s \<Rightarrow> books) \<Rightarrow> 's \<Rightarrow> 's \<Rightarrow> bool"
  for L E d cap bk s0 where
  genesis: "chain_reach L E d cap bk s0 s0"
| next_step: "chain_reach L E d cap bk s0 s \<Longrightarrow> chain_step L E d cap bk s s'
    \<Longrightarrow> chain_reach L E d cap bk s0 s'"

inductive_cases chain_stepE: "chain_step L E d cap bk s s'"

lemma mint_within:
  assumes "cap_config L d cap" and "mint_laws E d bk" and "0 \<le> total_supply (bk s)"
    and "NewHardCapMintFn L E d cap s = (r, s')"
  shows "total_supply (bk s) \<le> total_supply (bk s')"
    and "total_supply (bk s') \<le> max (total_supply (bk s)) cap"
proof -
  have H: "hoare (\<lambda>t. bk t = bk s) (NewHardCapMintFn L E d cap)
     (\<lambda>_ t. \<exists>c. True \<and> bk t = credit (bk s) (block_grant d cap (bk s) c))
     (\<lambda>t. total_supply (bk s) \<le> total_supply (bk t) \<and>
          total_supply (bk t) \<le> max (total_supply (bk s)) cap)"
    by (rule mint_refines [OF assms(1,2,3)]) (simp add: hoare_def split: prod.split outcome.split)
  have "total_supply (bk s) \<le> total_supply (bk s') \<and>
        total_supply (bk s') \<le> max (total_supply (bk s)) cap"
  proof (cases "is_ok r")
    case True
    then obtain c where "bk s' = credit (bk s) (block_grant d cap (bk s) c)"
      using hoare_OkD [OF H refl] assms(4) by (auto simp: is_ok_iff)
    then show ?thesis
      using block_grant_bounds [where d = d and cap = cap and b = "bk s" and c = c]
      by (simp add: credit_def)
  next
    case False
    then show ?thesis using hoare_failD [OF H refl assms(4)] by simp
  qed
  then show "total_supply (bk s) \<le> total_supply (bk s')"
    and "total_supply (bk s') \<le> max (total_supply (bk s)) cap" by auto
qed

lemma chain_step_within:
  assumes "cap_config L d cap" and "mint_laws E d bk" and "chain_step L E d cap bk s s'"
    and "0 \<le> total_supply (bk s)" and "total_supply (bk s) \<le> cap"
  shows "0 \<le> total_supply (bk s') \<and> total_supply (bk s') \<le> cap"
  using assms(3)
proof (rule chain_stepE)
  fix r assume "NewHardCapMintFn L E d cap s = (r, s')"
  then show ?thesis using mint_within [OF assms(1,2,4)] assms(4,5) by force
qed (use assms(5) in simp)

lemma chain_within:
  assumes "cap_config L d cap" and "mint_laws E d bk" and "chain_reach L E d cap bk s0 s"
    and "0 \<le> total_supply (bk s0)" and "total_supply (bk s0) \<le> cap"
  shows "0 \<le> total_supply (bk s) \<and> total_supply (bk s) \<le> cap"
  using assms(3-5) by induction (use chain_step_within [OF assms(1,2)] in blast)+

text \<open>A run of blocks whose provisions, all in the capped denomination, are given.\<close>

definition with_provision :: "('s, 'p) mint_env \<Rightarrow> string \<Rightarrow> int \<Rightarrow> ('s, 'p) mint_env" where
  "with_provision E d a = E\<lparr>BlockProvision := (\<lambda>_ _. ret \<lparr>denom = d, amount = a\<rparr>)\<rparr>"

definition run_blocks :: "sdk_lib \<Rightarrow> ('s, 'p) mint_env \<Rightarrow> string \<Rightarrow> int \<Rightarrow> int list \<Rightarrow> ('s, unit) eff" where
  "run_blocks L E d cap = for_each (\<lambda>a. NewHardCapMintFn L (with_provision E d a) d cap)"

lemma with_provision_laws:
  "mint_laws E d bk \<Longrightarrow> mint_laws (with_provision E d a) d bk"
  "mint_env_succeeds E \<Longrightarrow> mint_env_succeeds (with_provision E d a)"
  by (simp_all add: mint_laws_def mint_env_succeeds_def with_provision_def succeeds_def leaves_rules)

lemma one_block:
  assumes cfg: "cap_config L d cap" and E: "mint_laws E d bk" and ok: "mint_env_succeeds E"
    and nn: "0 \<le> total_supply (bk s)"
  obtains s' where "NewHardCapMintFn L (with_provision E d a) d cap s = (Ok (), s')"
    and "bk s' = credit (bk s) (granted cap (total_supply (bk s)) a)"
proof -
  let ?E = "with_provision E d a"
  have "is_ok (fst (NewHardCapMintFn L ?E d cap s))"
    by (rule mint_succeeds [OF cfg with_provision_laws(1) [OF E] with_provision_laws(2) [OF ok] nn])
      (use cfg in \<open>auto simp: with_provision_def cap_config_def\<close>)
  then obtain s' where s': "NewHardCapMintFn L ?E d cap s = (Ok (), s')"
    by (metis is_ok_iff old.unit.exhaust surjective_pairing)
  have "hoare (\<lambda>t. bk t = bk s) (NewHardCapMintFn L ?E d cap)
     (\<lambda>_ t. \<exists>c. c = \<lparr>denom = d, amount = a\<rparr> \<and> bk t = credit (bk s) (block_grant d cap (bk s) c))
     (\<lambda>t. total_supply (bk s) \<le> total_supply (bk t) \<and>
          total_supply (bk t) \<le> max (total_supply (bk s)) cap)"
    by (rule mint_refines [OF cfg with_provision_laws(1) [OF E] nn])
      (simp add: hoare_def with_provision_def)
  from hoare_OkD [OF this refl s'] have "bk s' = credit (bk s) (granted cap (total_supply (bk s)) a)"
    by (simp add: block_grant_def)
  with s' show ?thesis by (rule that)
qed

lemma run_blocks_refines:
  assumes "cap_config L d cap" and "mint_laws E d bk" and "mint_env_succeeds E"
    and "0 \<le> total_supply (bk s)"
  shows "\<exists>s'. run_blocks L E d cap as s = (Ok (), s') \<and>
           total_supply (bk s') = foldl (clamped_supply (L, d, cap)) (total_supply (bk s)) as \<and>
           collected (bk s') - collected (bk s) = total_supply (bk s') - total_supply (bk s) \<and>
           minter_balance (bk s') = minter_balance (bk s)"
  using assms(4)
proof (induction as arbitrary: s)
  case Nil
  then show ?case by (simp add: run_blocks_def)
next
  case (Cons a as)
  obtain t where t: "NewHardCapMintFn L (with_provision E d a) d cap s = (Ok (), t)"
    and bt: "bk t = credit (bk s) (granted cap (total_supply (bk s)) a)"
    using one_block [OF assms(1,2,3) Cons.prems] by blast
  have st: "total_supply (bk t) = clamped_supply (L, d, cap) (total_supply (bk s)) a"
    using bt clamped_supply_granted [OF assms(1) Cons.prems] by (simp add: credit_def)
  have "0 \<le> total_supply (bk t)"
    using bt Cons.prems granted_bounds(1) [of cap "total_supply (bk s)" a] by (simp add: credit_def)
  from Cons.IH [OF this] show ?case
    using t st bt by (auto simp: run_blocks_def credit_def simp del: clamped_supply.simps)
qed

section \<open>A library and a ledger the laws hold for\<close>

definition sample_lib :: sdk_lib where
  "sample_lib =
     \<lparr>valid_denom = (\<lambda>d. d \<noteq> ''''),
      int_Sub = (\<lambda>a b. if \<bar>a - b\<bar> < 2 ^ 256 then Ok (a - b) else Panic (Error_text ''overflow'')),
      NewCoin = (\<lambda>d a. if d \<noteq> '''' \<and> 0 \<le> a then Ok \<lparr>denom = d, amount = a\<rparr>
                       else Panic (Error_text ''invalid coin'')),
      NewCoins = (\<lambda>cs. if list_all (\<lambda>c. denom c \<noteq> '''' \<and> 0 < amount c) cs then Ok cs
                       else Panic (Error_text ''invalid coins'')),
      int_String = (\<lambda>_. ''''), dec_String = (\<lambda>_. '''')\<rparr>"

definition sample_env :: "int \<Rightarrow> (books, unit) mint_env" where
  "sample_env a =
     \<lparr>Minter_Get = ret \<lparr>Inflation = 0, AnnualProvisions = 0\<rparr>, MintParams_Get = ret (),
      StakingTokenSupply = ret 0, BondedRatio = ret 0,
      InflationCalculation = (\<lambda>_ _ _. ret 13), NextAnnualProvisions = (\<lambda>_ _ _. ret 7),
      Minter_Set = (\<lambda>_. ret ()), BlockProvision = (\<lambda>_ _. ret \<lparr>denom = MintHardCapDenom, amount = a\<rparr>),
      GetSupply = (\<lambda>d b. (Ok \<lparr>denom = d, amount = total_supply b\<rparr>, b)),
      MintCoins = (\<lambda>cs b. (Ok (), b\<lparr>total_supply := total_supply b + coins_of MintHardCapDenom cs,
                     minter_balance := minter_balance b + coins_of MintHardCapDenom cs\<rparr>)),
      AddCollectedFees = (\<lambda>cs b. (Ok (), b\<lparr>collected := collected b + coins_of MintHardCapDenom cs,
                     minter_balance := minter_balance b - coins_of MintHardCapDenom cs\<rparr>)),
      EmitEvent = (\<lambda>_. ret ()), ModuleSetGauge = (\<lambda>_. ret ())\<rparr>"

definition sample_books :: "int \<Rightarrow> books" where
  "sample_books s = \<lparr>total_supply = s, collected = 0, minter_balance = 0\<rparr>"

lemma sample_lib_laws: "sdk_laws sample_lib"
  by (auto simp: sdk_laws_def sample_lib_def MintHardCapDenom_def)

lemma sample_env_laws:
  "mint_laws (sample_env a) MintHardCapDenom (\<lambda>b. b)" "mint_env_succeeds (sample_env a)"
  by (simp_all add: mint_laws_def mint_env_succeeds_def sample_env_def hoare_def leaves_rules
      succeeds_def)

section \<open>Properties\<close>

text \<open>
  C1: one run of the injected mint function, whatever its outcome (a normal return, an error
  or a panic of any call it makes), never lowers the supply of \<^verbatim>\<open>ubps\<close> and never raises it
  above 100,000,000,000,000, whatever the block provision asks for; from a supply that is
  already at or above the cap it mints nothing.
\<close>

theorem mint_never_exceeds_cap:
  assumes "sdk_laws L" and "mint_laws E MintHardCapDenom bk" and "0 \<le> total_supply (bk s)"
    and "ProvideHardCapMintFn L E s = (r, s')"
  shows "total_supply (bk s) \<le> total_supply (bk s') \<and>
         total_supply (bk s') \<le> max (total_supply (bk s)) MintHardCapAmount"
  using mint_within [OF hardcap_config [OF assms(1)] assms(2,3)] assms(4)
  unfolding ProvideHardCapMintFn_def by simp

theorem mint_never_exceeds_cap_witness:
  "total_supply (snd (ProvideHardCapMintFn sample_lib (sample_env 500) (sample_books 99999999999900)))
     \<le> max 99999999999900 MintHardCapAmount"
proof -
  let ?r = "ProvideHardCapMintFn sample_lib (sample_env 500) (sample_books 99999999999900)"
  have "?r = (fst ?r, snd ?r)" by simp
  from mint_never_exceeds_cap [OF sample_lib_laws sample_env_laws(1) [of 500] _ this]
  show ?thesis by (simp add: sample_books_def)
qed

text \<open>
  C2: in every state a chain reaches from a genesis whose \<^verbatim>\<open>ubps\<close> supply is within the cap,
  by any interleaving of begin-block mints (succeeding or failing) with other transactions
  that do not raise that supply, the supply is still within the cap.
\<close>

theorem chain_supply_within_cap:
  assumes "sdk_laws L" and "mint_laws E MintHardCapDenom bk"
    and "chain_reach L E MintHardCapDenom MintHardCapAmount bk s0 s"
    and "0 \<le> total_supply (bk s0)" and "total_supply (bk s0) \<le> MintHardCapAmount"
  shows "0 \<le> total_supply (bk s) \<and> total_supply (bk s) \<le> MintHardCapAmount"
  using assms by (intro chain_within [OF hardcap_config])

theorem chain_supply_within_cap_witness:
  "let s1 = snd (ProvideHardCapMintFn sample_lib (sample_env 500) (sample_books 99999999999900));
       s2 = sample_books 5
   in total_supply s2 \<le> MintHardCapAmount \<and>
      chain_reach sample_lib (sample_env 500) MintHardCapDenom MintHardCapAmount (\<lambda>b. b)
        (sample_books 99999999999900) s2"
proof -
  let ?N = "NewHardCapMintFn sample_lib (sample_env 500) MintHardCapDenom MintHardCapAmount"
  let ?s0 = "sample_books 99999999999900"
  let ?R = "chain_reach sample_lib (sample_env 500) MintHardCapDenom MintHardCapAmount (\<lambda>b. b) ?s0"
  have "?N ?s0 = (fst (?N ?s0), snd (?N ?s0))" by simp
  from chain_reach.next_step [OF chain_reach.genesis chain_step.begin_block [OF this]]
  have r1: "?R (snd (?N ?s0))" .
  have "99999999999900 \<le> total_supply (snd (?N ?s0))"
    using mint_within(1) [OF hardcap_config [OF sample_lib_laws] sample_env_laws(1) [of 500] _ \<open>?N ?s0 = _\<close>]
    by (simp add: sample_books_def)
  then have "?R (sample_books 5)"
    by (intro chain_reach.next_step [OF r1] chain_step.other_tx) (simp_all add: sample_books_def)
  with chain_supply_within_cap [OF sample_lib_laws sample_env_laws(1) [of 500] this] show ?thesis
    by (simp add: Let_def sample_books_def MintHardCapAmount_def)
qed

text \<open>
  C8: when the keepers' calls succeed, any sequence of blocks with given \<^verbatim>\<open>ubps\<close> provisions
  runs to the end, and the supply it reaches is the start plus everything asked for, cut off
  exactly at the cap; the fee collector receives exactly what was minted, and the mint
  module's account keeps nothing.
\<close>

theorem blocks_mint_up_to_cap:
  assumes "sdk_laws L" and "mint_laws E MintHardCapDenom bk" and "mint_env_succeeds E"
    and "0 \<le> total_supply (bk s)" and "total_supply (bk s) \<le> MintHardCapAmount"
  shows "\<exists>s'. run_blocks L E MintHardCapDenom MintHardCapAmount provs s = (Ok (), s') \<and>
     total_supply (bk s') = min MintHardCapAmount (total_supply (bk s) + (\<Sum>a\<leftarrow>provs. max 0 a)) \<and>
     collected (bk s') - collected (bk s) = total_supply (bk s') - total_supply (bk s) \<and>
     minter_balance (bk s') = minter_balance (bk s)"
  using run_blocks_refines [OF hardcap_config [OF assms(1)] assms(2,3,4), of provs]
    hardcap.run_closed [of "(L, MintHardCapDenom, MintHardCapAmount)"]
    hardcap_config [OF assms(1)] assms(4,5) by simp

theorem blocks_mint_up_to_cap_witness:
  "\<exists>s'. run_blocks sample_lib (sample_env 0) MintHardCapDenom MintHardCapAmount [300, -5, 900]
          (sample_books 99999999999000) = (Ok (), s') \<and>
        total_supply s' = MintHardCapAmount \<and> collected s' = 1000"
  using blocks_mint_up_to_cap [OF sample_lib_laws sample_env_laws [of 0],
      where s = "sample_books 99999999999000" and provs = "[300, -5, 900]"]
  by (auto simp: sample_books_def MintHardCapAmount_def)

text \<open>
  C27: the clamp itself, on every branch: a coin of another denomination, a non-positive
  amount, or a missing cap configuration is returned as it is; a positive amount of the
  capped denomination becomes the largest amount that is at most what was asked for and
  keeps the supply within the cap, zero when there is no room.
\<close>

theorem clamp_is_largest_admissible:
  assumes "sdk_laws L" and "valid_denom L capDenom" and "cap < 2 ^ 256" and "0 \<le> s"
  shows "\<exists>c'. clampMintToHardCap L s c capDenom cap = Ok c' \<and> denom c' = denom c \<and>
     (if amount c \<le> 0 \<or> capDenom = '''' \<or> cap \<le> 0 \<or> denom c \<noteq> capDenom then c' = c
      else 0 \<le> amount c' \<and> amount c' \<le> amount c \<and> (amount c' = 0 \<or> s + amount c' \<le> cap) \<and>
           (\<forall>a. 0 \<le> a \<and> a \<le> amount c \<and> s + a \<le> cap \<longrightarrow> a \<le> amount c'))"
proof (cases "amount c \<le> 0 \<or> capDenom = '''' \<or> cap \<le> 0 \<or> denom c \<noteq> capDenom")
  case True
  then show ?thesis by (auto simp: clampMintToHardCap_def)
next
  case False
  then have "cap_config L capDenom cap" using assms by (simp add: cap_config_def)
  with False clamp_own_denom [OF this assms(4)] show ?thesis by (auto simp: granted_def)
qed

theorem clamp_is_largest_admissible_witness:
  "clampMintToHardCap sample_lib 9800 \<lparr>denom = ''ubps'', amount = 500\<rparr> ''ubps'' 10000
     = Ok \<lparr>denom = ''ubps'', amount = 200\<rparr>"
proof -
  let ?c = "\<lparr>denom = ''ubps'', amount = 500\<rparr>"
  obtain c' where c': "clampMintToHardCap sample_lib 9800 ?c ''ubps'' 10000 = Ok c'"
    "denom c' = ''ubps''" "amount c' = 0 \<or> 9800 + amount c' \<le> 10000"
    "\<forall>a. 0 \<le> a \<and> a \<le> 500 \<and> 9800 + a \<le> 10000 \<longrightarrow> a \<le> amount c'"
    using clamp_is_largest_admissible [OF sample_lib_laws, of "''ubps''" 10000 9800 ?c]
    by (auto simp: sample_lib_def)
  moreover from c'(3) spec [OF c'(4), of 200] have "amount c' = 200" by auto
  ultimately show ?thesis by (cases c') simp
qed

end
