(* ===== verification/Bps_Types.thy ===== *)
theory Bps_Types
  imports Prelude "HOL-Library.Word"
begin

text \<open>
  \<^verbatim>\<open>x/bps/types\<close>: the data of the BPS module (its parameters, its genesis state, its
  messages), the module's names and store keys, its registered error, and the validation
  functions. A byte is an \<open>8 word\<close>, a Go string a list of byte-sized characters.
\<close>

type_synonym byte = "8 word"
type_synonym bytes = "byte list"

text \<open>The genesis of the chain: the raw JSON of each module under its name.\<close>

type_synonym genesis_map = "string \<rightharpoonup> string"

section \<open>Names, keys and errors\<close>

definition ModuleName :: string where "ModuleName = ''bps''"
definition StoreKey :: string where "StoreKey = ModuleName"
definition GovModuleName :: string where "GovModuleName = ''gov''"

definition legacyParamsPrefix :: bytes where
  "legacyParamsPrefix = [0x70, 0x5f, 0x73, 0x65, 0x6d, 0x61, 0x72]"

definition ParamsKey :: bytes where "ParamsKey = legacyParamsPrefix"

definition ErrInvalidSigner :: go_error where
  "ErrInvalidSigner =
     Registered ModuleName 1100 ''expected gov account as only signer for proposal message''"

section \<open>Parameters and genesis\<close>

text \<open>The parameter struct has no field, so it has one value.\<close>

datatype params = Params

definition NewParams :: params where "NewParams = Params"
definition DefaultParams :: params where "DefaultParams = NewParams"

definition Params_Validate :: "params \<Rightarrow> unit outcome" where
  "Params_Validate p = Ok ()"

record genesis_state =
  GenesisState_Params :: params

lemma params_unique: "(p :: params) = Params"
  by (cases p)

lemma genesis_state_unique: "(gs :: genesis_state) = \<lparr>GenesisState_Params = Params\<rparr>"
  by (cases gs) (metis params_unique)

definition DefaultGenesis :: genesis_state where
  "DefaultGenesis = \<lparr>GenesisState_Params = DefaultParams\<rparr>"

definition GenesisState_Validate :: "genesis_state \<Rightarrow> unit outcome" where
  "GenesisState_Validate gs = Params_Validate (GenesisState_Params gs)"

section \<open>Messages\<close>

record msg_update_params =
  Authority :: string
  MsgParams :: params

datatype msg_update_params_response = MsgUpdateParamsResponse

datatype query_params_request = QueryParamsRequest

record query_params_response =
  ResponseParams :: params

record module_config =
  ConfigAuthority :: string

text \<open>The getters tolerate a nil receiver, here \<open>None\<close>.\<close>

definition MsgUpdateParams_GetAuthority :: "msg_update_params option \<Rightarrow> string" where
  "MsgUpdateParams_GetAuthority m = (case m of Some m \<Rightarrow> Authority m | None \<Rightarrow> '''')"

definition MsgUpdateParams_GetParams :: "msg_update_params option \<Rightarrow> params" where
  "MsgUpdateParams_GetParams m = (case m of Some m \<Rightarrow> MsgParams m | None \<Rightarrow> Params)"

section \<open>Bytes and characters\<close>

definition byte_of_char :: "char \<Rightarrow> byte" where
  "byte_of_char c = word_of_nat (of_char c)"

definition char_of_byte :: "byte \<Rightarrow> char" where
  "char_of_byte b = char_of (unat b)"

lemma char_of_byte_of_char [simp]: "char_of_byte (byte_of_char c) = c"
proof -
  have "(of_char c :: nat) < 256" using of_char_mod_256 [of c] by (metis mod_less_divisor zero_less_numeral)
  then show ?thesis by (simp add: char_of_byte_def byte_of_char_def unsigned_of_nat take_bit_nat_eq_self)
qed

lemma byte_of_char_of_byte [simp]: "byte_of_char (char_of_byte b) = b"
proof -
  have "unat b < 256" using unsigned_less [of b, where ?'a = nat] by simp
  then show ?thesis by (simp add: char_of_byte_def byte_of_char_def)
qed

definition bytes_of_string :: "string \<Rightarrow> bytes" where
  "bytes_of_string s = map byte_of_char s"

definition string_of_bytes :: "bytes \<Rightarrow> string" where
  "string_of_bytes bs = map char_of_byte bs"

lemma string_bytes [simp]:
  "string_of_bytes (bytes_of_string s) = s" "bytes_of_string (string_of_bytes bs) = bs"
  "length (bytes_of_string s) = length s" "length (string_of_bytes bs) = length bs"
  "bytes_of_string [] = []" "string_of_bytes [] = []"
  by (simp_all add: string_of_bytes_def bytes_of_string_def comp_def)

lemma bytes_of_string_eq [simp]: "bytes_of_string s = bytes_of_string t \<longleftrightarrow> s = t"
  by (metis string_bytes(1))

lemma bytes_of_string_Nil [simp]:
  "bytes_of_string s = [] \<longleftrightarrow> s = []" "string_of_bytes bs = [] \<longleftrightarrow> bs = []"
  by (simp_all add: bytes_of_string_def string_of_bytes_def)

end
