(* ===== verification/Bps_Keeper.thy ===== *)
theory Bps_Keeper
  imports Bps_Types
begin

text \<open>
  \<^verbatim>\<open>x/bps/keeper\<close> and \<^verbatim>\<open>x/bps/module\<close>: the keeper, its message handler and query, its
  genesis import and export, and the module that the application calls. The address codec,
  the collections item that stores the parameters and the JSON codec belong to the SDK and
  are records of functions; their documented behaviour is \<open>codec_laws\<close>, \<open>item_laws\<close> and
  \<open>json_laws\<close>.
\<close>

section \<open>What the keeper is built from\<close>

record addr_codec =
  StringToBytes :: "string \<Rightarrow> bytes outcome"
  BytesToString :: "bytes \<Rightarrow> string outcome"

record ('s, 'v) item =
  item_Get :: "('s, 'v) eff"
  item_Set :: "'v \<Rightarrow> ('s, unit) eff"
  ErrNotFound :: go_error

text \<open>
  A value of another package that the code only passes on is \<open>opaque\<close>. \<open>json_codec\<close> is the part of
  \<^verbatim>\<open>codec.Codec\<close> the module uses.
\<close>

type_synonym opaque = nat

record json_codec =
  MarshalJSON :: "genesis_state \<Rightarrow> string outcome"
  MustMarshalJSON :: "genesis_state \<Rightarrow> string outcome"
  UnmarshalJSON :: "string \<Rightarrow> genesis_state outcome"

record 's schema_builder =
  NewItem :: "bytes \<Rightarrow> string \<Rightarrow> json_codec \<Rightarrow> ('s, params) item"
  Build :: "opaque outcome"

record 's store_service =
  NewSchemaBuilder :: "'s schema_builder"

record 's keeper =
  storeService :: "'s store_service"
  keeper_cdc :: json_codec
  addressCodec :: addr_codec
  authority :: bytes
  Schema :: opaque
  ParamsItem :: "('s, params) item"

definition invalid_authority :: "go_error \<Rightarrow> go_error" where
  "invalid_authority e = Wrapped e ''invalid authority address''"

text \<open>The item of the parameters is made with the codec; the schema is built after it.\<close>

definition NewKeeper ::
  "'s store_service \<Rightarrow> json_codec \<Rightarrow> addr_codec \<Rightarrow> bytes \<Rightarrow> 's keeper outcome" where
  "NewKeeper ss cdc ac auth =
     (case BytesToString ac auth of
        Err e \<Rightarrow> Panic (Wrapped e (''invalid authority address '' @ string_of_bytes auth))
      | Panic e \<Rightarrow> Panic e
      | Exit c \<Rightarrow> Exit c
      | Ok _ \<Rightarrow>
          let sb = NewSchemaBuilder ss;
              params = NewItem sb ParamsKey ''params'' cdc
          in (case Build sb of
                Ok schema \<Rightarrow> Ok \<lparr>storeService = ss, keeper_cdc = cdc, addressCodec = ac,
                   authority = auth, Schema = schema, ParamsItem = params\<rparr>
              | Err e \<Rightarrow> Panic e
              | Panic e \<Rightarrow> Panic e
              | Exit c \<Rightarrow> Exit c))"

definition GetAuthority :: "'s keeper \<Rightarrow> bytes" where
  "GetAuthority k = authority k"

section \<open>The message server\<close>

text \<open>\<open>expectedAuthorityStr, _ := BytesToString(\<dots>)\<close>: an error leaves the empty string.\<close>

fun text_or_empty :: "string outcome \<Rightarrow> string outcome" where
  "text_or_empty (Err e) = Ok ''''"
| "text_or_empty r = r"

definition UpdateParams ::
  "'s keeper \<Rightarrow> msg_update_params \<Rightarrow> ('s, msg_update_params_response) eff" where
  "UpdateParams k req =
     bind (map_err invalid_authority (lift_outcome (StringToBytes (addressCodec k) (Authority req))))
       (\<lambda>auth.
     if GetAuthority k \<noteq> auth then
       bind (lift_outcome (text_or_empty (BytesToString (addressCodec k) (GetAuthority k))))
         (\<lambda>expected. raise (Wrapped ErrInvalidSigner
            (''invalid authority; expected '' @ expected @ '', got '' @ Authority req)))
     else
       bind (lift_outcome (Params_Validate (MsgParams req))) (\<lambda>_.
       bind (item_Set (ParamsItem k) (MsgParams req)) (\<lambda>_.
       ret MsgUpdateParamsResponse)))"

section \<open>The query server\<close>

text \<open>A nil request is \<open>None\<close>; \<open>Get\<close> gives the zero parameters along with an error.\<close>

definition Query_Params ::
  "'s keeper \<Rightarrow> query_params_request option \<Rightarrow> ('s, query_params_response) eff" where
  "Query_Params k req =
     (case req of
        None \<Rightarrow> raise (Status_error ''InvalidArgument'' ''invalid request'')
      | Some _ \<Rightarrow> (\<lambda>s. case item_Get (ParamsItem k) s of
            (Ok p, s') \<Rightarrow> (Ok \<lparr>ResponseParams = p\<rparr>, s')
          | (Err e, s') \<Rightarrow>
              if \<not> errors_Is e (ErrNotFound (ParamsItem k))
              then (Err (Status_error ''Internal'' ''internal error''), s')
              else (Ok \<lparr>ResponseParams = Params\<rparr>, s')
          | (Panic e, s') \<Rightarrow> (Panic e, s')
          | (Exit c, s') \<Rightarrow> (Exit c, s')))"

section \<open>Genesis of the keeper\<close>

definition Keeper_InitGenesis :: "'s keeper \<Rightarrow> genesis_state \<Rightarrow> ('s, unit) eff" where
  "Keeper_InitGenesis k gs = item_Set (ParamsItem k) (GenesisState_Params gs)"

definition Keeper_ExportGenesis :: "'s keeper \<Rightarrow> ('s, genesis_state) eff" where
  "Keeper_ExportGenesis k =
     (let genesis = DefaultGenesis in
      bind (item_Get (ParamsItem k)) (\<lambda>p. ret (genesis\<lparr>GenesisState_Params := p\<rparr>)))"

section \<open>The module\<close>

text \<open>
  The interfaces the module expects of other keepers (\<^verbatim>\<open>types/expected_keepers.go\<close>). An account is
  opaque, coins are denominations with amounts.
\<close>

record 's auth_keeper =
  AddressCodec :: addr_codec
  GetAccount :: "'s \<Rightarrow> bytes \<Rightarrow> opaque option"

record 's bank_keeper =
  SpendableCoins :: "'s \<Rightarrow> bytes \<Rightarrow> (string \<times> int) list"

record 's param_subspace =
  subspace_Get :: "bytes \<Rightarrow> ('s, opaque) eff"
  subspace_Set :: "bytes \<Rightarrow> opaque \<Rightarrow> ('s, unit) eff"

record 's app_module =
  am_cdc :: json_codec
  am_keeper :: "'s keeper"
  am_authKeeper :: "'s auth_keeper"
  am_bankKeeper :: "'s bank_keeper"

definition NewAppModule ::
  "json_codec \<Rightarrow> 's keeper \<Rightarrow> 's auth_keeper \<Rightarrow> 's bank_keeper \<Rightarrow> 's app_module" where
  "NewAppModule cdc keeper authKeeper bankKeeper =
     \<lparr>am_cdc = cdc, am_keeper = keeper, am_authKeeper = authKeeper, am_bankKeeper = bankKeeper\<rparr>"

text \<open>The marker methods and the registrations with an empty body do nothing.\<close>

definition IsAppModule :: "'s app_module \<Rightarrow> ('s, unit) eff" where "IsAppModule am = ret ()"

definition IsOnePerModuleType :: "'s app_module \<Rightarrow> ('s, unit) eff" where
  "IsOnePerModuleType am = ret ()"

definition RegisterLegacyAminoCodec :: "'s app_module \<Rightarrow> opaque \<Rightarrow> ('s, unit) eff" where
  "RegisterLegacyAminoCodec am amino = ret ()"

text \<open>The options of autocli are nil, on purpose: the client gets no generated commands.\<close>

definition AutoCLIOptions :: "'s app_module \<Rightarrow> opaque option" where
  "AutoCLIOptions am = None"

definition AppModule_Name :: "'s app_module \<Rightarrow> string" where
  "AppModule_Name am = ModuleName"

definition unmarshal_failed :: "go_error \<Rightarrow> go_error" where
  "unmarshal_failed e = Wrapped e (''failed to unmarshal '' @ ModuleName @ '' genesis state'')"

definition init_failed :: "go_error \<Rightarrow> go_error" where
  "init_failed e = Wrapped e (''failed to initialize '' @ ModuleName @ '' genesis state'')"

definition export_failed :: "go_error \<Rightarrow> go_error" where
  "export_failed e = Wrapped e (''failed to export '' @ ModuleName @ '' genesis state'')"

definition marshal_failed :: "go_error \<Rightarrow> go_error" where
  "marshal_failed e = Wrapped e (''failed to marshal '' @ ModuleName @ '' genesis state'')"

definition Module_DefaultGenesis :: "'s app_module \<Rightarrow> string outcome" where
  "Module_DefaultGenesis am = MustMarshalJSON (am_cdc am) DefaultGenesis"

definition Module_ValidateGenesis :: "'s app_module \<Rightarrow> string \<Rightarrow> unit outcome" where
  "Module_ValidateGenesis am bz =
     (case UnmarshalJSON (am_cdc am) bz of
        Err e \<Rightarrow> Err (unmarshal_failed e)
      | Panic e \<Rightarrow> Panic e
      | Exit c \<Rightarrow> Exit c
      | Ok genState \<Rightarrow> GenesisState_Validate genState)"

definition Module_InitGenesis :: "'s app_module \<Rightarrow> string \<Rightarrow> ('s, unit) eff" where
  "Module_InitGenesis am gs =
     bind (or_panic (map_err unmarshal_failed (lift_outcome (UnmarshalJSON (am_cdc am) gs))))
       (\<lambda>genState. or_panic (map_err init_failed (Keeper_InitGenesis (am_keeper am) genState)))"

definition Module_ExportGenesis :: "'s app_module \<Rightarrow> ('s, string) eff" where
  "Module_ExportGenesis am =
     bind (or_panic (map_err export_failed (Keeper_ExportGenesis (am_keeper am)))) (\<lambda>genState.
     or_panic (map_err marshal_failed (lift_outcome (MarshalJSON (am_cdc am) genState))))"

definition ConsensusVersion :: nat where "ConsensusVersion = 1"

definition BeginBlock :: "'s app_module \<Rightarrow> ('s, unit) eff" where "BeginBlock am = ret ()"
definition EndBlock :: "'s app_module \<Rightarrow> ('s, unit) eff" where "EndBlock am = ret ()"

section \<open>Wiring of the module\<close>

record address_lib =
  NewModuleAddress :: "string \<Rightarrow> bytes"
  NewModuleAddressOrBech32Address :: "string \<Rightarrow> bytes"

definition module_authority :: "address_lib \<Rightarrow> module_config \<Rightarrow> bytes" where
  "module_authority A cfg =
     (if ConfigAuthority cfg \<noteq> '''' then NewModuleAddressOrBech32Address A (ConfigAuthority cfg)
      else NewModuleAddress A GovModuleName)"

record 's module_inputs =
  mi_Config :: module_config
  mi_StoreService :: "'s store_service"
  mi_Cdc :: json_codec
  mi_AddressCodec :: addr_codec
  mi_AuthKeeper :: "'s auth_keeper"
  mi_BankKeeper :: "'s bank_keeper"

record 's module_outputs =
  mo_BPSKeeper :: "'s keeper"
  mo_Module :: "'s app_module"

definition ProvideModule :: "address_lib \<Rightarrow> 's module_inputs \<Rightarrow> 's module_outputs outcome" where
  "ProvideModule A inp =
     obind (NewKeeper (mi_StoreService inp) (mi_Cdc inp) (mi_AddressCodec inp)
              (module_authority A (mi_Config inp))) (\<lambda>k.
     let m = NewAppModule (mi_Cdc inp) k (mi_AuthKeeper inp) (mi_BankKeeper inp) in
     Ok \<lparr>mo_BPSKeeper = k, mo_Module = m\<rparr>)"

text \<open>
  When the package is loaded it registers, for its configuration message, the provider that the
  injection calls; the registry is a function of the SDK.
\<close>

datatype provider = Provide_module

definition depinject_init :: "(module_config \<Rightarrow> provider list \<Rightarrow> ('r, unit) eff) \<Rightarrow> ('r, unit) eff" where
  "depinject_init Register = Register \<lparr>ConfigAuthority = ''''\<rparr> [Provide_module]"

section \<open>Simulation\<close>

text \<open>
  The simulation's random genesis puts the default state under the module's name; the addresses
  of the accounts are rendered and not used. There are no decoders, operations or proposals.
\<close>

definition GenerateGenesisState ::
  "json_codec \<Rightarrow> (bytes \<Rightarrow> string) \<Rightarrow> bytes list \<Rightarrow> genesis_map \<Rightarrow> genesis_map outcome" where
  "GenerateGenesisState cdc String Accounts GenState =
     (let accs = map String Accounts; bpsGenesis = \<lparr>GenesisState_Params = DefaultParams\<rparr> in
      obind (MustMarshalJSON cdc bpsGenesis) (\<lambda>bz. Ok (GenState(ModuleName \<mapsto> bz))))"

definition RegisterStoreDecoder :: "'s app_module \<Rightarrow> ('r, unit) eff" where
  "RegisterStoreDecoder am = ret ()"

definition WeightedOperations :: "'s app_module \<Rightarrow> opaque \<Rightarrow> opaque list" where
  "WeightedOperations am simState = (let operations = [] in operations)"

definition ProposalMsgs :: "'s app_module \<Rightarrow> opaque \<Rightarrow> opaque list" where
  "ProposalMsgs am simState = []"

section \<open>What the SDK promises\<close>

text \<open>An address rendered by the codec is read back as the same bytes.\<close>

definition codec_laws :: "addr_codec \<Rightarrow> bool" where
  "codec_laws ac \<longleftrightarrow> (\<forall>b s. BytesToString ac b = Ok s \<longrightarrow> StringToBytes ac s = Ok b)"

text \<open>
  The item holds at most one value (\<open>view\<close>): \<open>Get\<close> returns it or the not-found error and
  changes nothing, a successful \<open>Set\<close> stores its argument, a failed one stores nothing.
\<close>

definition item_laws :: "('s, 'v) item \<Rightarrow> ('s \<Rightarrow> 'v option) \<Rightarrow> bool" where
  "item_laws I view \<longleftrightarrow>
     (\<forall>s. item_Get I s = (case view s of Some v \<Rightarrow> (Ok v, s) | None \<Rightarrow> (Err (ErrNotFound I), s))) \<and>
     (\<forall>v o'. hoare (\<lambda>s. view s = o') (item_Set I v) (\<lambda>_ s. view s = Some v) (\<lambda>s. view s = o'))"

definition json_laws :: "json_codec \<Rightarrow> bool" where
  "json_laws J \<longleftrightarrow>
     (\<forall>gs. \<exists>bz. MarshalJSON J gs = Ok bz \<and> MustMarshalJSON J gs = Ok bz \<and> UnmarshalJSON J bz = Ok gs)"

lemma item_Set_view:
  "item_laws I view \<Longrightarrow> item_Set I v s = (Ok u, s') \<Longrightarrow> view s' = Some v"
  unfolding item_laws_def by (blast dest: hoare_OkD)

section \<open>Lemmas on the handlers\<close>

lemma UpdateParams_rejects_text:
  "StringToBytes (addressCodec k) (Authority req) = Err e
   \<Longrightarrow> UpdateParams k req s = (Err (invalid_authority e), s)"
  by (simp add: UpdateParams_def map_err_def bind_def)

lemma UpdateParams_rejects_signer:
  "StringToBytes (addressCodec k) (Authority req) = Ok a \<Longrightarrow> a \<noteq> authority k \<Longrightarrow>
   BytesToString (addressCodec k) (authority k) = Ok ex \<Longrightarrow>
   UpdateParams k req s = (Err (Wrapped ErrInvalidSigner
     (''invalid authority; expected '' @ ex @ '', got '' @ Authority req)), s)"
  by (auto simp: UpdateParams_def map_err_def bind_def GetAuthority_def)

lemma UpdateParams_accepts:
  "StringToBytes (addressCodec k) (Authority req) = Ok (authority k) \<Longrightarrow>
   UpdateParams k req =
     bind (item_Set (ParamsItem k) (MsgParams req)) (\<lambda>_. ret MsgUpdateParamsResponse)"
  by (simp add: UpdateParams_def map_err_def bind_def GetAuthority_def Params_Validate_def
      fun_eq_iff)

lemma UpdateParams_unauthorised:
  assumes "StringToBytes (addressCodec k) (Authority req) \<noteq> Ok (authority k)"
  shows "snd (UpdateParams k req s) = s" and "\<not> is_ok (fst (UpdateParams k req s))"
proof -
  have "snd (UpdateParams k req s) = s \<and> \<not> is_ok (fst (UpdateParams k req s))"
  proof (cases "StringToBytes (addressCodec k) (Authority req)")
    case (Ok a)
    with assms show ?thesis
      by (cases "BytesToString (addressCodec k) (authority k)")
        (auto simp: UpdateParams_def map_err_def bind_def GetAuthority_def)
  qed (simp_all add: UpdateParams_def map_err_def bind_def)
  then show "snd (UpdateParams k req s) = s" and "\<not> is_ok (fst (UpdateParams k req s))" by auto
qed

lemma Query_Params_view:
  "item_laws (ParamsItem k) view \<Longrightarrow> Query_Params k (Some q) s
     = (Ok \<lparr>ResponseParams = (case view s of Some p \<Rightarrow> p | None \<Rightarrow> Params)\<rparr>, s)"
  by (simp add: Query_Params_def item_laws_def split: option.split)

lemma ExportGenesis_view:
  assumes "item_laws (ParamsItem (am_keeper am)) view" and "json_laws (am_cdc am)"
    and "view s = Some p"
  obtains bz where "Module_ExportGenesis am s = (Ok bz, s)"
    and "UnmarshalJSON (am_cdc am) bz = Ok \<lparr>GenesisState_Params = p\<rparr>"
proof -
  from assms(2) obtain bz where bz: "MarshalJSON (am_cdc am) \<lparr>GenesisState_Params = p\<rparr> = Ok bz"
    and u: "UnmarshalJSON (am_cdc am) bz = Ok \<lparr>GenesisState_Params = p\<rparr>"
    by (auto simp: json_laws_def)
  have "Module_ExportGenesis am s = (Ok bz, s)"
    using assms(1,3) bz
    by (simp add: Module_ExportGenesis_def Keeper_ExportGenesis_def item_laws_def DefaultGenesis_def
        bind_def or_panic_def map_err_def)
  with u show ?thesis by (intro that)
qed

lemma InitGenesis_view:
  assumes "item_laws (ParamsItem (am_keeper am)) view"
    and "UnmarshalJSON (am_cdc am) bz = Ok gs"
    and "Module_InitGenesis am bz s = (Ok u, s')"
  shows "view s' = Some (GenesisState_Params gs)"
  using assms(2,3) item_Set_view [OF assms(1)]
  by (auto simp: Module_InitGenesis_def Keeper_InitGenesis_def bind_def or_panic_def map_err_def
      split: prod.splits outcome.splits)

lemma InitGenesis_succeeds:
  assumes "UnmarshalJSON (am_cdc am) bz = Ok gs"
    and "\<And>p. succeeds (item_Set (ParamsItem (am_keeper am)) p)"
  shows "\<exists>s'. Module_InitGenesis am bz s = (Ok (), s')"
  using assms(1) by (rule_tac succeedsE [OF assms(2) [of "GenesisState_Params gs"], of s])
    (simp add: Module_InitGenesis_def Keeper_InitGenesis_def bind_def or_panic_def map_err_def)

text \<open>The item that the keeper of a module with these inputs stores its parameters in.\<close>

definition module_item :: "'s module_inputs \<Rightarrow> ('s, params) item" where
  "module_item inp = NewItem (NewSchemaBuilder (mi_StoreService inp)) ParamsKey ''params'' (mi_Cdc inp)"

lemma ProvideModule_Ok:
  "ProvideModule A inp = Ok out \<Longrightarrow>
     addressCodec (mo_BPSKeeper out) = mi_AddressCodec inp \<and>
     authority (mo_BPSKeeper out) = module_authority A (mi_Config inp) \<and>
     ParamsItem (mo_BPSKeeper out) = module_item inp \<and>
     am_keeper (mo_Module out) = mo_BPSKeeper out \<and> am_cdc (mo_Module out) = mi_Cdc inp \<and>
     am_authKeeper (mo_Module out) = mi_AuthKeeper inp \<and>
     (\<exists>s. BytesToString (mi_AddressCodec inp) (module_authority A (mi_Config inp)) = Ok s)"
  by (auto simp: ProvideModule_def NewKeeper_def NewAppModule_def module_item_def obind_eq_Ok Let_def
      split: outcome.splits)

section \<open>An instance of the SDK the laws hold for\<close>

definition sample_codec :: addr_codec where
  "sample_codec =
     \<lparr>StringToBytes = (\<lambda>s. if s = '''' then Err (Error_text ''empty address'') else Ok (bytes_of_string s)),
      BytesToString = (\<lambda>b. if b = [] then Err (Error_text ''empty address'') else Ok (string_of_bytes b))\<rparr>"

definition sample_item :: "(params option, params) item" where
  "sample_item =
     \<lparr>item_Get = (\<lambda>s. (case s of Some p \<Rightarrow> Ok p | None \<Rightarrow> Err (Error_text ''not found''), s)),
      item_Set = (\<lambda>p _. (Ok (), Some p)), ErrNotFound = Error_text ''not found''\<rparr>"

definition sample_builder :: "(params option) schema_builder" where
  "sample_builder = \<lparr>NewItem = (\<lambda>_ _ _. sample_item), Build = Ok 0\<rparr>"

definition sample_store :: "(params option) store_service" where
  "sample_store = \<lparr>NewSchemaBuilder = sample_builder\<rparr>"

definition sample_json :: json_codec where
  "sample_json =
     \<lparr>MarshalJSON = (\<lambda>_. Ok ''{}''), MustMarshalJSON = (\<lambda>_. Ok ''{}''),
      UnmarshalJSON = (\<lambda>bz. if bz = ''{}'' then Ok \<lparr>GenesisState_Params = Params\<rparr>
                             else Err (Error_text ''syntax''))\<rparr>"

definition sample_addresses :: address_lib where
  "sample_addresses =
     \<lparr>NewModuleAddress = bytes_of_string, NewModuleAddressOrBech32Address = bytes_of_string\<rparr>"

definition sample_keeper :: "(params option) keeper" where
  "sample_keeper =
     \<lparr>storeService = sample_store, keeper_cdc = sample_json, addressCodec = sample_codec,
      authority = bytes_of_string ''gov'', Schema = 0, ParamsItem = sample_item\<rparr>"

definition sample_inputs :: "string \<Rightarrow> (params option) module_inputs" where
  "sample_inputs auth =
     \<lparr>mi_Config = \<lparr>ConfigAuthority = auth\<rparr>, mi_StoreService = sample_store, mi_Cdc = sample_json,
      mi_AddressCodec = sample_codec,
      mi_AuthKeeper = \<lparr>AddressCodec = sample_codec, GetAccount = (\<lambda>_ _. None)\<rparr>,
      mi_BankKeeper = \<lparr>SpendableCoins = (\<lambda>_ _. [])\<rparr>\<rparr>"

definition sample_module :: "(params option) app_module" where
  "sample_module = NewAppModule sample_json sample_keeper (mi_AuthKeeper (sample_inputs ''''))
     (mi_BankKeeper (sample_inputs ''''))"

lemma sample_module_fields [simp]:
  "am_cdc sample_module = sample_json" "am_keeper sample_module = sample_keeper"
  by (simp_all add: sample_module_def NewAppModule_def)

lemma sample_laws:
  "codec_laws sample_codec" "item_laws sample_item (\<lambda>s. s)" "json_laws sample_json"
  by (auto simp: codec_laws_def sample_codec_def item_laws_def sample_item_def hoare_def
      json_laws_def sample_json_def genesis_state_unique [symmetric] split: option.split if_splits)

lemma sample_ProvideModule:
  "ProvideModule sample_addresses (sample_inputs '''')
     = Ok \<lparr>mo_BPSKeeper = sample_keeper, mo_Module = sample_module\<rparr>"
  by (simp add: ProvideModule_def NewKeeper_def module_authority_def sample_addresses_def sample_store_def
      sample_codec_def sample_builder_def sample_keeper_def sample_module_def NewAppModule_def
      sample_inputs_def GovModuleName_def)

lemma sample_inputs_fields [simp]:
  "mi_AddressCodec (sample_inputs a) = sample_codec"
  "mi_Config (sample_inputs a) = \<lparr>ConfigAuthority = a\<rparr>"
  by (simp_all add: sample_inputs_def)

lemma sample_module_item [simp]: "module_item (sample_inputs a) = sample_item"
  by (simp add: module_item_def sample_inputs_def sample_store_def sample_builder_def)

section \<open>Properties\<close>

text \<open>The messages of a block, handled one after another; a failed one does not stop the rest.\<close>

definition run_messages :: "'s keeper \<Rightarrow> msg_update_params list \<Rightarrow> ('s, unit) eff" where
  "run_messages k = for_each (\<lambda>req. discard (UpdateParams k req))"

text \<open>
  Whatever messages are sent, in whatever number and order, as long as none of them names
  an authority that decodes to the module's own authority, the state of the store after them
  is exactly the state before them.
\<close>

theorem unauthorised_messages_change_nothing:
  assumes "\<forall>req \<in> set reqs. StringToBytes (addressCodec k) (Authority req) \<noteq> Ok (authority k)"
  shows "snd (run_messages k reqs s) = s"
  using assms
proof (induction reqs)
  case Nil
  then show ?case by (simp add: run_messages_def)
next
  case (Cons req reqs)
  then have "snd (UpdateParams k req s) = s" by (simp add: UpdateParams_unauthorised)
  then have "snd (discard (UpdateParams k req) s) = s"
    by (auto simp: discard_def split: prod.split outcome.split)
  then obtain r where "discard (UpdateParams k req) s = (r, s)" by (metis surjective_pairing)
  with Cons show ?case by (cases r) (simp_all add: run_messages_def)
qed

theorem unauthorised_messages_change_nothing_witness:
  "run_messages sample_keeper [\<lparr>Authority = ''invalid'', MsgParams = Params\<rparr>,
      \<lparr>Authority = '''', MsgParams = Params\<rparr>] None = (Ok (), None)"
proof -
  let ?reqs = "[\<lparr>Authority = ''invalid'', MsgParams = Params\<rparr>, \<lparr>Authority = '''', MsgParams = Params\<rparr>]"
  have "snd (run_messages sample_keeper ?reqs None) = None"
    by (rule unauthorised_messages_change_nothing) (simp add: sample_keeper_def sample_codec_def)
  moreover have "fst (run_messages sample_keeper ?reqs None) = Ok ()"
    by (simp add: run_messages_def discard_def UpdateParams_def sample_keeper_def sample_codec_def
        map_err_def bind_def GetAuthority_def)
  ultimately show ?thesis by (metis surjective_pairing)
qed

text \<open>
  Every way the update handler of a module built by \<^verbatim>\<open>ProvideModule\<close> can end: an authority
  text that does not decode returns the decoding error wrapped as an invalid authority; one
  that decodes to another address returns an error that \<^verbatim>\<open>errors.Is\<close> recognises as
  \<^verbatim>\<open>ErrInvalidSigner\<close> and that quotes both authorities, with the state untouched in both cases;
  the module's authority gets exactly the outcome and the state of storing the parameters.
\<close>

theorem UpdateParams_outcomes:
  assumes "ProvideModule A inp = Ok out"
  shows "\<exists>ex. BytesToString (mi_AddressCodec inp) (module_authority A (mi_Config inp)) = Ok ex \<and>
     (case StringToBytes (mi_AddressCodec inp) (Authority req) of
        Err e \<Rightarrow> UpdateParams (mo_BPSKeeper out) req s = (Err (Wrapped e ''invalid authority address''), s)
      | Panic e \<Rightarrow> UpdateParams (mo_BPSKeeper out) req s = (Panic e, s)
      | Exit c \<Rightarrow> UpdateParams (mo_BPSKeeper out) req s = (Exit c, s)
      | Ok a \<Rightarrow>
          if a \<noteq> module_authority A (mi_Config inp) then
            \<exists>e. UpdateParams (mo_BPSKeeper out) req s = (Err e, s) \<and> errors_Is e ErrInvalidSigner \<and>
              e = Wrapped ErrInvalidSigner
                (''invalid authority; expected '' @ ex @ '', got '' @ Authority req)
          else UpdateParams (mo_BPSKeeper out) req s =
            bind (item_Set (module_item inp) (MsgParams req))
              (\<lambda>_. ret MsgUpdateParamsResponse) s)"
proof -
  let ?k = "mo_BPSKeeper out" and ?ac = "mi_AddressCodec inp"
  obtain ex where k: "addressCodec ?k = ?ac" "authority ?k = module_authority A (mi_Config inp)"
      "ParamsItem ?k = module_item inp"
    and ex: "BytesToString ?ac (module_authority A (mi_Config inp)) = Ok ex"
    using ProvideModule_Ok [OF assms] by auto
  show ?thesis
  proof (cases "StringToBytes ?ac (Authority req)")
    case (Ok a)
    show ?thesis
    proof (cases "a = module_authority A (mi_Config inp)")
      case True
      with Ok k ex show ?thesis by (simp add: UpdateParams_accepts)
    next
      case False
      with Ok k ex UpdateParams_rejects_signer [of ?k req a ex s] show ?thesis by auto
    qed
  qed (use k ex UpdateParams_rejects_text [of ?k req _ s] in
      \<open>simp_all add: UpdateParams_def map_err_def bind_def invalid_authority_def\<close>)
qed

theorem UpdateParams_outcomes_witness:
  "errors_Is (Wrapped ErrInvalidSigner ''invalid authority; expected gov, got alice'') ErrInvalidSigner \<and>
   UpdateParams sample_keeper \<lparr>Authority = ''alice'', MsgParams = Params\<rparr> None =
     (Err (Wrapped ErrInvalidSigner ''invalid authority; expected gov, got alice''), None)"
  using UpdateParams_outcomes [OF sample_ProvideModule, of "\<lparr>Authority = ''alice'', MsgParams = Params\<rparr>" None]
  by (auto simp: sample_inputs_def sample_codec_def module_authority_def sample_addresses_def GovModuleName_def)

text \<open>
  A module configured without an authority is controlled by governance: the message that
  carries the address of the \<^verbatim>\<open>gov\<close> module account is accepted and stores its parameters, and
  the parameter query then answers with them, where before any write it answered with the
  zero parameters instead of an error.
\<close>

theorem gov_update_is_queried:
  assumes "codec_laws (mi_AddressCodec inp)" and "item_laws (module_item inp) view"
    and "\<And>p. succeeds (item_Set (module_item inp) p)"
    and "ProvideModule A inp = Ok out" and "ConfigAuthority (mi_Config inp) = ''''"
  shows "\<exists>gov. BytesToString (mi_AddressCodec inp) (NewModuleAddress A ''gov'') = Ok gov \<and>
     (view s = None \<longrightarrow>
        Query_Params (mo_BPSKeeper out) (Some q) s = (Ok \<lparr>ResponseParams = Params\<rparr>, s)) \<and>
     (\<exists>s'. UpdateParams (mo_BPSKeeper out) \<lparr>Authority = gov, MsgParams = p\<rparr> s = (Ok MsgUpdateParamsResponse, s') \<and>
        view s' = Some p \<and> Query_Params (mo_BPSKeeper out) (Some q) s' = (Ok \<lparr>ResponseParams = p\<rparr>, s'))"
proof -
  let ?k = "mo_BPSKeeper out"
  have auth: "module_authority A (mi_Config inp) = NewModuleAddress A ''gov''"
    by (simp add: module_authority_def GovModuleName_def assms(5))
  obtain gov where gov: "BytesToString (mi_AddressCodec inp) (NewModuleAddress A ''gov'') = Ok gov"
    and k: "addressCodec ?k = mi_AddressCodec inp" "authority ?k = NewModuleAddress A ''gov''"
      "ParamsItem ?k = module_item inp"
    using ProvideModule_Ok [OF assms(4)] auth by auto
  from assms(1) gov have "StringToBytes (addressCodec ?k) gov = Ok (authority ?k)"
    by (simp add: codec_laws_def k)
  then have U: "UpdateParams ?k \<lparr>Authority = gov, MsgParams = p\<rparr> =
     bind (item_Set (ParamsItem ?k) p) (\<lambda>_. ret MsgUpdateParamsResponse)"
    by (simp add: UpdateParams_accepts)
  obtain s' where "item_Set (ParamsItem ?k) p s = (Ok (), s')"
    using assms(3) k(3) by (metis old.unit.exhaust succeedsE)
  moreover from this have "view s' = Some p" using item_Set_view [OF assms(2)] k(3) by simp
  ultimately show ?thesis
    using gov U Query_Params_view [of ?k view q] assms(2) k(3) by auto
qed

theorem gov_update_is_queried_witness:
  "Query_Params sample_keeper (Some QueryParamsRequest) (None :: params option)
     = (Ok \<lparr>ResponseParams = Params\<rparr>, None) \<and>
   UpdateParams sample_keeper \<lparr>Authority = ''gov'', MsgParams = Params\<rparr> None
     = (Ok MsgUpdateParamsResponse, Some Params)"
proof -
  have S: "succeeds (item_Set (module_item (sample_inputs '''')) p)" for p
    by (simp add: sample_item_def succeeds_def)
  have I: "item_laws (module_item (sample_inputs '''')) (\<lambda>s. s)" using sample_laws(2) by simp
  have C: "codec_laws (mi_AddressCodec (sample_inputs ''''))" "ConfigAuthority (mi_Config (sample_inputs '''')) = ''''"
    using sample_laws(1) by (simp_all add: sample_inputs_def)
  show ?thesis
    using gov_update_is_queried [OF C(1) I S sample_ProvideModule C(2), of None QueryParamsRequest Params]
    by (auto simp: sample_addresses_def sample_inputs_def sample_codec_def)
qed

text \<open>
  C22: genesis round trip through the module: exporting an initialised module succeeds without
  changing it, the exported text passes the module's own validation, and initialising any
  other store from it makes that store's parameters equal to the exported ones; a module
  whose parameters were never stored panics on export.
\<close>

theorem genesis_roundtrip:
  assumes "item_laws (ParamsItem (am_keeper am)) view" and "json_laws (am_cdc am)"
    and "\<And>p. succeeds (item_Set (ParamsItem (am_keeper am)) p)"
  shows "(case view s of
     Some p \<Rightarrow> \<exists>bz t'. Module_ExportGenesis am s = (Ok bz, s) \<and>
        Module_ValidateGenesis am bz = Ok () \<and>
        Module_InitGenesis am bz t = (Ok (), t') \<and> view t' = Some p
   | None \<Rightarrow> Module_ExportGenesis am s =
        (Panic (Wrapped (ErrNotFound (ParamsItem (am_keeper am))) ''failed to export bps genesis state''), s))"
proof (cases "view s")
  case None
  then show ?thesis
    using assms(1)
    by (simp add: Module_ExportGenesis_def Keeper_ExportGenesis_def item_laws_def bind_def
        or_panic_def map_err_def export_failed_def ModuleName_def)
next
  case (Some p)
  obtain bz where bz: "Module_ExportGenesis am s = (Ok bz, s)"
    and u: "UnmarshalJSON (am_cdc am) bz = Ok \<lparr>GenesisState_Params = p\<rparr>"
    using ExportGenesis_view [OF assms(1,2) Some] by blast
  obtain t' where t': "Module_InitGenesis am bz t = (Ok (), t')"
    using InitGenesis_succeeds [OF u assms(3)] by blast
  have "view t' = Some p" using InitGenesis_view [OF assms(1) u t'] by simp
  with bz u t' Some show ?thesis
    by (auto simp: Module_ValidateGenesis_def GenesisState_Validate_def Params_Validate_def)
qed

theorem genesis_roundtrip_witness:
  "\<exists>bz. Module_ExportGenesis sample_module (Some Params) = (Ok bz, Some Params) \<and>
        Module_InitGenesis sample_module bz None = (Ok (), Some Params)"
proof -
  have S: "succeeds (item_Set (ParamsItem (am_keeper sample_module)) p)" for p
    by (simp add: sample_keeper_def sample_item_def succeeds_def)
  have I: "item_laws (ParamsItem (am_keeper sample_module)) (\<lambda>s. s)"
    and J: "json_laws (am_cdc sample_module)"
    using sample_laws by (simp_all add: sample_keeper_def)
  show ?thesis using genesis_roundtrip [OF I J S, of "Some Params" None] by auto
qed

text \<open>
  Wiring the module never returns an error: it gives a module exactly when the chosen
  authority renders as an address and the schema builds, with the configured authority when
  one is set and the \<^verbatim>\<open>gov\<close> account otherwise, and it panics in every other case (for a codec
  and a schema builder that return or fail).
\<close>

theorem ProvideModule_total:
  assumes "\<forall>b. is_ok (BytesToString (mi_AddressCodec inp) b) \<or> (\<exists>e. BytesToString (mi_AddressCodec inp) b = Err e)"
    and "is_ok (Build (NewSchemaBuilder (mi_StoreService inp))) \<or> (\<exists>e. Build (NewSchemaBuilder (mi_StoreService inp)) = Err e)"
  shows "if is_ok (BytesToString (mi_AddressCodec inp) (module_authority A (mi_Config inp)))
        \<and> is_ok (Build (NewSchemaBuilder (mi_StoreService inp)))
     then \<exists>out. ProvideModule A inp = Ok out \<and> am_keeper (mo_Module out) = mo_BPSKeeper out \<and>
       GetAuthority (mo_BPSKeeper out) =
         (if ConfigAuthority (mi_Config inp) = '''' then NewModuleAddress A ''gov''
          else NewModuleAddressOrBech32Address A (ConfigAuthority (mi_Config inp)))
     else \<exists>e. ProvideModule A inp = Panic e"
proof -
  let ?a = "module_authority A (mi_Config inp)" and ?sb = "NewSchemaBuilder (mi_StoreService inp)"
  consider x y where "BytesToString (mi_AddressCodec inp) ?a = Ok x" "Build ?sb = Ok y"
    | x e where "BytesToString (mi_AddressCodec inp) ?a = Ok x" "Build ?sb = Err e"
    | e where "BytesToString (mi_AddressCodec inp) ?a = Err e"
    using assms by (metis is_ok_iff)
  then show ?thesis
    by cases (auto simp: ProvideModule_def NewKeeper_def NewAppModule_def Let_def GetAuthority_def
        module_authority_def GovModuleName_def)
qed

theorem ProvideModule_total_witness:
  "\<exists>out. ProvideModule sample_addresses (sample_inputs ''dao'') = Ok out
     \<and> GetAuthority (mo_BPSKeeper out) = bytes_of_string ''dao''"
proof -
  have "\<forall>b. is_ok (BytesToString (mi_AddressCodec (sample_inputs ''dao'')) b)
      \<or> (\<exists>e. BytesToString (mi_AddressCodec (sample_inputs ''dao'')) b = Err e)"
    and "is_ok (Build (NewSchemaBuilder (mi_StoreService (sample_inputs ''dao''))))
      \<or> (\<exists>e. Build (NewSchemaBuilder (mi_StoreService (sample_inputs ''dao''))) = Err e)"
    by (simp_all add: sample_inputs_def sample_codec_def sample_store_def sample_builder_def)
  from ProvideModule_total [OF this, of sample_addresses] show ?thesis
    by (auto simp: sample_inputs_def sample_store_def sample_codec_def sample_builder_def
        sample_addresses_def module_authority_def)
qed

end
