(* ===== verification/Go_Std.thy ===== *)
theory Go_Std
  imports Prelude
begin

text \<open>
  What the source uses of Go's standard library on numbers and strings: \<^verbatim>\<open>strconv.Itoa\<close> (and
  the \<^verbatim>\<open>%d\<close> of \<^verbatim>\<open>fmt\<close>), \<^verbatim>\<open>strings.Split\<close> with a one-character separator,
  \<^verbatim>\<open>strings.HasPrefix\<close>, \<^verbatim>\<open>strings.Join\<close>, and the 64-bit \<^verbatim>\<open>int\<close>.
\<close>

section \<open>The 64-bit int\<close>

definition wrap64 :: "int \<Rightarrow> int" where
  "wrap64 x = (x + 2 ^ 63) mod 2 ^ 64 - 2 ^ 63"

lemma wrap64_id [simp]: "- (2 ^ 63) \<le> x \<Longrightarrow> x < 2 ^ 63 \<Longrightarrow> wrap64 x = x"
  by (simp add: wrap64_def)

lemma wrap64_range: "- (2 ^ 63) \<le> wrap64 x" "wrap64 x < 2 ^ 63"
  by (simp_all add: wrap64_def pos_mod_bound less_diff_eq)

lemma wrap64_over: "2 ^ 63 \<le> x \<Longrightarrow> x < 2 ^ 64 + 2 ^ 63 \<Longrightarrow> wrap64 x = x - 2 ^ 64"
proof -
  assume "2 ^ 63 \<le> x" "x < 2 ^ 64 + 2 ^ 63"
  then have "(x + 2 ^ 63) mod 2 ^ 64 = x + 2 ^ 63 - 2 ^ 64"
    by (intro int_mod_pos_eq [of _ _ 1]) auto
  then show ?thesis by (simp add: wrap64_def)
qed

text \<open>A sum of two non-negative ints is exact or negative.\<close>

lemma wrap64_sum:
  "0 \<le> a \<Longrightarrow> a < 2 ^ 63 \<Longrightarrow> 0 \<le> b \<Longrightarrow> b < 2 ^ 63 \<Longrightarrow>
   wrap64 (a + b) = (if a + b < 2 ^ 63 then a + b else a + b - 2 ^ 64)"
  using wrap64_over [of "a + b"] by auto

section \<open>Decimal numbers\<close>

definition digit :: "nat \<Rightarrow> char" where
  "digit d = ''0123456789'' ! d"

fun nat_text :: "nat \<Rightarrow> string" where
  "nat_text n = (if n < 10 then [digit n] else nat_text (n div 10) @ [digit (n mod 10)])"

declare nat_text.simps [simp del]

definition Itoa :: "int \<Rightarrow> string" where
  "Itoa i = (if i < 0 then CHR ''-'' # nat_text (nat (- i)) else nat_text (nat i))"

definition digit_value :: "char \<Rightarrow> nat" where
  "digit_value c = of_char c - 48"

definition text_value :: "string \<Rightarrow> nat" where
  "text_value s = foldl (\<lambda>n c. 10 * n + digit_value c) 0 s"

lemma nat_less_10_cases:
  "(n :: nat) < 10 \<Longrightarrow> n \<in> {0, 1, 2, 3, 4, 5, 6, 7, 8, 9}"
  by auto

lemma digit_value_digit: "n < 10 \<Longrightarrow> digit_value (digit n) = n"
  by (drule nat_less_10_cases) (auto simp: digit_value_def digit_def)

lemma digit_not_minus: "n < 10 \<Longrightarrow> digit n \<noteq> CHR ''-'' \<and> digit n \<noteq> CHR '',''"
  by (drule nat_less_10_cases) (auto simp: digit_def)

lemma text_value_nat_text: "text_value (nat_text n) = n"
proof (induction n rule: nat_text.induct)
  case (1 n)
  then show ?case
    by (cases "n < 10") (auto simp: nat_text.simps [of n] text_value_def digit_value_digit)
qed

lemma nat_text_chars: "c \<in> set (nat_text n) \<Longrightarrow> c \<noteq> CHR ''-'' \<and> c \<noteq> CHR '',''"
proof (induction n rule: nat_text.induct)
  case (1 n)
  then show ?case
    using digit_not_minus [of n] digit_not_minus [of "n mod 10"]
    by (cases "n < 10") (auto simp: nat_text.simps [of n])
qed

lemma nat_text_nonempty [simp]: "nat_text n \<noteq> []"
  by (subst nat_text.simps) simp

lemma nat_text_inj: "nat_text m = nat_text n \<longleftrightarrow> m = n"
  by (metis text_value_nat_text)

lemma Itoa_inj [simp]: "Itoa i = Itoa j \<longleftrightarrow> i = j"
proof -
  have "nat_text n \<noteq> CHR ''-'' # xs" for n xs
    using nat_text_chars [of "CHR ''-''" n] by auto
  then show ?thesis
    by (auto simp: Itoa_def nat_text_inj dest: sym)
qed

lemma Itoa_no_comma: "CHR '','' \<notin> set (Itoa i)"
  by (auto simp: Itoa_def dest: nat_text_chars)

section \<open>Strings\<close>

fun strings_Split :: "string \<Rightarrow> char \<Rightarrow> string list" where
  "strings_Split [] sep = [[]]"
| "strings_Split (c # cs) sep =
     (if c = sep then [] # strings_Split cs sep
      else (case strings_Split cs sep of
              w # ws \<Rightarrow> (c # w) # ws
            | [] \<Rightarrow> [[c]]))"

fun strings_HasPrefix :: "string \<Rightarrow> string \<Rightarrow> bool" where
  "strings_HasPrefix s [] = True"
| "strings_HasPrefix [] (p # ps) = False"
| "strings_HasPrefix (c # cs) (p # ps) = (c = p \<and> strings_HasPrefix cs ps)"

fun strings_Join :: "string list \<Rightarrow> char \<Rightarrow> string" where
  "strings_Join [] sep = []"
| "strings_Join [w] sep = w"
| "strings_Join (w # ws) sep = w @ sep # strings_Join ws sep"

lemma Split_nonempty [simp]: "strings_Split s sep \<noteq> []"
  by (cases s) (auto split: list.split)

lemma Split_single: "sep \<notin> set w \<Longrightarrow> strings_Split w sep = [w]"
  by (induction w) auto

lemma Split_append:
  "sep \<notin> set w \<Longrightarrow> strings_Split (w @ sep # rest) sep = w # strings_Split rest sep"
  by (induction w) auto

lemma Split_Join:
  "ws \<noteq> [] \<Longrightarrow> \<forall>w \<in> set ws. sep \<notin> set w \<Longrightarrow> strings_Split (strings_Join ws sep) sep = ws"
  by (induction ws sep rule: strings_Join.induct) (simp_all add: Split_single Split_append)

lemma Join_Split: "strings_Join (strings_Split s sep) sep = s"
proof (induction s sep rule: strings_Split.induct)
  case (2 c cs sep)
  then show ?case
    by (cases "strings_Split cs sep"; cases "tl (strings_Split cs sep)") auto
qed simp

lemma HasPrefix_iff: "strings_HasPrefix s p \<longleftrightarrow> (\<exists>r. s = p @ r)"
  by (induction s p rule: strings_HasPrefix.induct) auto

end
