(* ===== verification/Wire.thy ===== *)
theory Wire
  imports Bps_Types Go_Std
begin

unbundle bit_operations_syntax

text \<open>
  The protobuf wire format as the module's \<^verbatim>\<open>*.pb.go\<close> files read and write it: byte buffers
  with Go's index and slice panics, varints written backwards into a sized buffer, the varint
  reading loop, the loop that skips an unknown field, and the field loop of the
  \<^verbatim>\<open>Unmarshal\<close> methods. The five generated files repeat the same code for their messages; it
  is translated once here, from \<^verbatim>\<open>tx.pb.go\<close>, with what differs between the messages (the
  message's name and what its \<^verbatim>\<open>switch fieldNum\<close> does) as arguments.

  A buffer is a list of bytes, an index an \<open>int\<close> whose additions wrap at 64 bits where they
  can overflow, \<^verbatim>\<open>uint64\<close> a \<open>64 word\<close>.
\<close>

section \<open>Buffers\<close>

definition golen :: "'a list \<Rightarrow> int" where
  "golen xs = wrap64 (int (length xs))"

lemma golen_id [simp]: "length xs < 2 ^ 63 \<Longrightarrow> golen xs = int (length xs)"
proof -
  assume "length xs < 2 ^ 63"
  then have "int (length xs) < int (2 ^ 63)" by (simp only: of_nat_less_iff)
  then show ?thesis by (simp add: golen_def)
qed

lemma golen_less: "golen xs < 2 ^ 63"
  using wrap64_range(2) [of "int (length xs)"] by (simp add: golen_def)

definition out_of_range :: go_error where
  "out_of_range = Error_text ''runtime error: index out of range''"

definition get_at :: "bytes \<Rightarrow> int \<Rightarrow> byte outcome" where
  "get_at bs i = (if 0 \<le> i \<and> i < int (length bs) then Ok (bs ! nat i) else Panic out_of_range)"

definition put_at :: "bytes \<Rightarrow> int \<Rightarrow> byte \<Rightarrow> bytes outcome" where
  "put_at bs i b = (if 0 \<le> i \<and> i < int (length bs) then Ok (bs[nat i := b]) else Panic out_of_range)"

definition slice :: "bytes \<Rightarrow> int \<Rightarrow> int \<Rightarrow> bytes outcome" where
  "slice bs lo hi =
     (if 0 \<le> lo \<and> lo \<le> hi \<and> hi \<le> int (length bs)
      then Ok (take (nat (hi - lo)) (drop (nat lo) bs)) else Panic out_of_range)"

text \<open>\<open>copy(dAtA[i:], src)\<close>\<close>

definition copy_at :: "bytes \<Rightarrow> int \<Rightarrow> bytes \<Rightarrow> bytes outcome" where
  "copy_at bs i src =
     (if 0 \<le> i \<and> i \<le> int (length bs)
      then Ok (take (nat i) bs @ take (length bs - nat i) src @ drop (nat i + length src) bs)
      else Panic out_of_range)"

section \<open>Errors of the decoders\<close>

definition ErrInvalidLength :: go_error where
  "ErrInvalidLength = Error_text ''proto: negative length found during unmarshaling''"

definition ErrIntOverflow :: go_error where
  "ErrIntOverflow = Error_text ''proto: integer overflow''"

definition ErrUnexpectedEndOfGroup :: go_error where
  "ErrUnexpectedEndOfGroup = Error_text ''proto: unexpected end of group''"

definition ErrUnexpectedEOF :: go_error where
  "ErrUnexpectedEOF = Error_text ''unexpected EOF''"

section \<open>Writing varints\<close>

text \<open>\<^verbatim>\<open>math/bits.Len64\<close>: the number of bits needed for the value.\<close>

fun bit_len :: "nat \<Rightarrow> nat" where
  "bit_len n = (if n = 0 then 0 else Suc (bit_len (n div 2)))"

declare bit_len.simps [simp del]

definition Len64 :: "64 word \<Rightarrow> int" where
  "Len64 x = int (bit_len (unat x))"

definition sov :: "64 word \<Rightarrow> int" where
  "sov x = (Len64 (x OR 1) + 6) div 7"

definition soz :: "64 word \<Rightarrow> int" where
  "soz x = sov (push_bit 1 x XOR signed_drop_bit 63 x)"

lemma unat_drop_7: "unat (drop_bit 7 (v :: 64 word)) = unat v div 128"
  by (simp add: drop_bit_eq_div unat_div)

function put_varint :: "bytes \<Rightarrow> int \<Rightarrow> 64 word \<Rightarrow> bytes outcome" where
  "put_varint dAtA offset v =
     (if 128 \<le> v then
        obind (put_at dAtA offset (ucast (v AND 0x7f OR 0x80))) (\<lambda>dAtA.
        put_varint dAtA (offset + 1) (drop_bit 7 v))
      else put_at dAtA offset (ucast v))"
  by pat_completeness auto
termination
proof (relation "measure (\<lambda>(_, _, v). unat v)", simp)
  fix dAtA :: bytes and offset :: int and v :: "64 word" and x
  assume "128 \<le> v"
  then have "128 \<le> unat v" by (simp add: word_le_nat_alt)
  then have "unat v div 128 < unat v" by simp
  then show "((x, offset + 1, drop_bit 7 v), dAtA, offset, v) \<in> measure (\<lambda>(_, _, v). unat v)"
    by (simp add: unat_drop_7)
qed

declare put_varint.simps [simp del]

definition encodeVarint :: "bytes \<Rightarrow> int \<Rightarrow> 64 word \<Rightarrow> (bytes \<times> int) outcome" where
  "encodeVarint dAtA offset v =
     (let base = offset - sov v in obind (put_varint dAtA base v) (\<lambda>dAtA. Ok (dAtA, base)))"

section \<open>Reading varints\<close>

function read_varint :: "bytes \<Rightarrow> nat \<Rightarrow> int \<Rightarrow> 64 word \<Rightarrow> (64 word \<times> int) outcome" where
  "read_varint dAtA shift iNdEx acc =
     (if 64 \<le> shift then Err ErrIntOverflow
      else if golen dAtA \<le> iNdEx then Err ErrUnexpectedEOF
      else obind (get_at dAtA iNdEx) (\<lambda>b.
        let acc = acc OR push_bit shift (ucast (b AND 0x7F)) in
        if b < 0x80 then Ok (acc, iNdEx + 1)
        else read_varint dAtA (shift + 7) (iNdEx + 1) acc))"
  by pat_completeness auto
termination
  by (relation "measure (\<lambda>(_, shift, _, _). 64 - shift)") auto

declare read_varint.simps [simp del]

text \<open>A varint that is read ends after its first byte and within the data.\<close>

lemma read_varint_index:
  "read_varint dAtA shift i acc = Ok (v, j) \<Longrightarrow> 0 \<le> i \<and> i < j \<and> j \<le> golen dAtA"
proof (induction dAtA shift i acc rule: read_varint.induct)
  case (1 dAtA shift i acc)
  from "1.prems" obtain b where b: "\<not> 64 \<le> shift" "\<not> golen dAtA \<le> i" "get_at dAtA i = Ok b"
    and r: "(if b < 0x80 then Ok (acc OR push_bit shift (ucast (b AND 0x7F)), i + 1)
             else read_varint dAtA (shift + 7) (i + 1) (acc OR push_bit shift (ucast (b AND 0x7F))))
            = Ok (v, j)"
    by (subst (asm) read_varint.simps) (auto simp: obind_eq_Ok Let_def split: if_splits)
  show ?case
  proof (cases "b < 0x80")
    case True
    with b r show ?thesis by (auto simp: get_at_def split: if_splits)
  next
    case False
    with b r "1.IH" [OF b refl False] show ?thesis by (auto simp: get_at_def split: if_splits)
  qed
qed

section \<open>Skipping an unknown field\<close>

definition skip_field :: "bytes \<Rightarrow> int \<Rightarrow> int \<Rightarrow> int \<Rightarrow> (int \<times> int) outcome" where
  "skip_field dAtA wireType iNdEx depth =
     (if wireType = 0 then obind (read_varint dAtA 0 iNdEx 0) (\<lambda>(_, iNdEx). Ok (iNdEx, depth))
      else if wireType = 1 then Ok (wrap64 (iNdEx + 8), depth)
      else if wireType = 2 then
        obind (read_varint dAtA 0 iNdEx 0) (\<lambda>(v, iNdEx).
        let len = sint v in
        if len < 0 then Err ErrInvalidLength else Ok (wrap64 (iNdEx + len), depth))
      else if wireType = 3 then Ok (iNdEx, depth + 1)
      else if wireType = 4 then
        (if depth = 0 then Err ErrUnexpectedEndOfGroup else Ok (iNdEx, depth - 1))
      else if wireType = 5 then Ok (wrap64 (iNdEx + 4), depth)
      else Err (Error_text (''proto: illegal wireType '' @ Itoa wireType)))"

lemma sint_range64: "- (2 ^ 63) \<le> sint (w :: 64 word)" "sint (w :: 64 word) < 2 ^ 63"
  using sint_greater_eq [of w] sint_less [of w] by simp_all

text \<open>Skipping a field moves the index forward, or wraps it to a negative value.\<close>

lemma skip_field_index:
  assumes "skip_field dAtA wt i depth = Ok (j, depth')" and "0 \<le> i" and "i < 2 ^ 63"
  shows "j < 0 \<or> i \<le> j \<and> j < 2 ^ 63"
proof -
  consider "wt = 0" | "wt = 1" | "wt = 2" | "wt = 3" | "wt = 4" | "wt = 5"
    using assms(1) unfolding skip_field_def by (auto split: if_splits)
  then show ?thesis
  proof cases
    case 3
    then obtain v k where "read_varint dAtA 0 i 0 = Ok (v, k)" "0 \<le> sint v" "j = wrap64 (k + sint v)"
      using assms(1) by (auto simp: skip_field_def obind_eq_Ok Let_def split: if_splits)
    then show ?thesis
      using read_varint_index [of dAtA 0 i 0 v k] golen_less [of dAtA] sint_range64(2) [of v]
        wrap64_sum [of k "sint v"] by (auto split: if_splits)
  qed (use assms golen_less [of dAtA] wrap64_sum [of i 8] wrap64_sum [of i 4] in
      \<open>auto simp: skip_field_def obind_eq_Ok split: if_splits dest: read_varint_index\<close>)
qed

function skip_loop :: "bytes \<Rightarrow> int \<Rightarrow> int \<Rightarrow> int outcome" where
  "skip_loop dAtA iNdEx depth =
     (if iNdEx < golen dAtA then
        obind (read_varint dAtA 0 iNdEx 0) (\<lambda>(wire, i).
        obind (skip_field dAtA (uint (wire AND 0x7)) i depth) (\<lambda>(i, depth).
        if i < 0 then Err ErrInvalidLength
        else if depth = 0 then Ok i
        else skip_loop dAtA i depth))
      else Err ErrUnexpectedEOF)"
  by pat_completeness auto
termination
proof (relation "measure (\<lambda>(dAtA, i, _). nat (golen dAtA - i))", simp)
  fix dAtA :: bytes and i depth wire j i' depth' x y and z :: "64 word"
  assume a: "i < golen dAtA" "read_varint dAtA 0 i 0 = Ok x" "(z, j) = x"
    "skip_field dAtA (uint (z AND 0x7)) j depth = Ok y" "(i', depth') = y" "\<not> i' < 0"
  then have "0 \<le> i" "i < j" "j \<le> golen dAtA" using read_varint_index by blast+
  moreover have "j \<le> i'"
    using skip_field_index [of dAtA _ j depth i' depth'] a calculation golen_less [of dAtA] by auto
  ultimately show "((dAtA, i', depth'), dAtA, i, depth) \<in> measure (\<lambda>(dAtA, i, _). nat (golen dAtA - i))"
    by simp
qed

declare skip_loop.simps [simp del]

definition skip :: "bytes \<Rightarrow> int outcome" where
  "skip dAtA = skip_loop dAtA 0 0"

lemma skip_loop_index:
  "skip_loop dAtA i depth = Ok n \<Longrightarrow> 0 \<le> i \<and> i < n \<and> n < 2 ^ 63"
proof (induction dAtA i depth rule: skip_loop.induct)
  case (1 dAtA i depth)
  from "1.prems" obtain wire j k depth' where s: "i < golen dAtA"
      "read_varint dAtA 0 i 0 = Ok (wire, j)"
      "skip_field dAtA (uint (wire AND 0x7)) j depth = Ok (k, depth')" "\<not> k < 0"
    and r: "(if depth' = 0 then Ok k else skip_loop dAtA k depth') = Ok n"
    by (subst (asm) skip_loop.simps) (auto simp: obind_eq_Ok split: if_splits)
  have i: "0 \<le> i" "i < j" "j < 2 ^ 63"
    using read_varint_index [OF s(2)] golen_less [of dAtA] by auto
  with s skip_field_index [OF s(3)] have k: "j \<le> k" "k < 2 ^ 63" by auto
  show ?case
  proof (cases "depth' = 0")
    case True
    with i k r show ?thesis by auto
  next
    case False
    with "1.IH" [OF s(1,2) refl s(3) refl s(4) False] r i k show ?thesis by auto
  qed
qed

section \<open>The field loop of Unmarshal\<close>

text \<open>What \<open>case n\<close> of the \<open>switch fieldNum\<close> does: a string or an embedded message.\<close>

datatype 'm field =
    String_field string "string \<Rightarrow> 'm \<Rightarrow> 'm"
  | Message_field string "bytes \<Rightarrow> 'm \<Rightarrow> 'm outcome"

fun field_name :: "'m field \<Rightarrow> string" where
  "field_name (String_field name _) = name"
| "field_name (Message_field name _) = name"

fun field_store :: "'m field \<Rightarrow> bytes \<Rightarrow> 'm \<Rightarrow> 'm outcome" where
  "field_store (String_field _ set_field) bs m = Ok (set_field (string_of_bytes bs) m)"
| "field_store (Message_field _ unmarshal) bs m = unmarshal bs m"

definition unmarshal_known ::
  "'m field \<Rightarrow> bytes \<Rightarrow> int \<Rightarrow> int \<Rightarrow> 'm \<Rightarrow> ('m \<times> int) outcome" where
  "unmarshal_known f dAtA wireType iNdEx m =
     (if wireType \<noteq> 2 then
        Err (Error_text (''proto: wrong wireType = '' @ Itoa wireType @ '' for field '' @ field_name f))
      else obind (read_varint dAtA 0 iNdEx 0) (\<lambda>(v, iNdEx).
        let len = sint v in
        if len < 0 then Err ErrInvalidLength
        else let postIndex = wrap64 (iNdEx + len) in
        if postIndex < 0 then Err ErrInvalidLength
        else if golen dAtA < postIndex then Err ErrUnexpectedEOF
        else obind (slice dAtA iNdEx postIndex) (\<lambda>bs.
             obind (field_store f bs m) (\<lambda>m. Ok (m, postIndex)))))"

definition unmarshal_unknown :: "bytes \<Rightarrow> int \<Rightarrow> 'm \<Rightarrow> ('m \<times> int) outcome" where
  "unmarshal_unknown dAtA preIndex m =
     obind (slice dAtA preIndex (int (length dAtA))) (\<lambda>rest.
     obind (skip rest) (\<lambda>skippy.
     if skippy < 0 \<or> wrap64 (preIndex + skippy) < 0 then Err ErrInvalidLength
     else if golen dAtA < wrap64 (preIndex + skippy) then Err ErrUnexpectedEOF
     else Ok (m, wrap64 (preIndex + skippy))))"

definition unmarshal_field ::
  "(int \<Rightarrow> 'm field option) \<Rightarrow> bytes \<Rightarrow> int \<Rightarrow> int \<Rightarrow> int \<Rightarrow> int \<Rightarrow> 'm \<Rightarrow> ('m \<times> int) outcome" where
  "unmarshal_field flds dAtA preIndex fieldNum wireType iNdEx m =
     (case flds fieldNum of
        Some f \<Rightarrow> unmarshal_known f dAtA wireType iNdEx m
      | None \<Rightarrow> unmarshal_unknown dAtA preIndex m)"

definition tag_field :: "64 word \<Rightarrow> int" where
  "tag_field wire = sint (ucast (drop_bit 3 wire) :: 32 word)"

definition tag_type :: "64 word \<Rightarrow> int" where
  "tag_type wire = uint (wire AND 0x7)"

lemma unmarshal_known_index:
  assumes "unmarshal_known f dAtA wt i m = Ok (m', j)" and "0 \<le> i"
  shows "i < j \<and> j < 2 ^ 63"
proof -
  from assms(1) obtain v k where r: "read_varint dAtA 0 i 0 = Ok (v, k)" "0 \<le> sint v"
    and j: "j = wrap64 (k + sint v)" "0 \<le> j"
    by (auto simp: unmarshal_known_def obind_eq_Ok Let_def split: if_splits)
  then show ?thesis
    using read_varint_index [OF r(1)] golen_less [of dAtA] sint_range64(2) [of v]
      wrap64_sum [of k "sint v"] by (auto split: if_splits)
qed

lemma unmarshal_unknown_index:
  assumes "unmarshal_unknown dAtA i m = Ok (m', j)" and "i < 2 ^ 63"
  shows "i < j \<and> j < 2 ^ 63"
proof -
  from assms(1) obtain rest n where "skip rest = Ok n" "0 \<le> i" "j = wrap64 (i + n)" "0 \<le> j"
    by (auto simp: unmarshal_unknown_def slice_def obind_eq_Ok split: if_splits)
  then show ?thesis
    using skip_loop_index [of rest 0 0 n] assms(2) wrap64_sum [of i n]
    by (auto simp: skip_def split: if_splits)
qed

lemma unmarshal_field_index:
  assumes "unmarshal_field flds dAtA pre fieldNum wt i m = Ok (m', j)"
    and "0 \<le> pre" and "pre < i" and "pre < 2 ^ 63"
  shows "pre < j \<and> j < 2 ^ 63"
  using assms unmarshal_known_index [of _ dAtA wt i m m' j] unmarshal_unknown_index [of dAtA pre m m' j]
  by (fastforce simp: unmarshal_field_def split: option.splits)

function unmarshal_loop ::
  "string \<Rightarrow> (int \<Rightarrow> 'm field option) \<Rightarrow> bytes \<Rightarrow> int \<Rightarrow> 'm \<Rightarrow> 'm outcome" where
  "unmarshal_loop name flds dAtA iNdEx m =
     (if iNdEx < golen dAtA then
        obind (read_varint dAtA 0 iNdEx 0) (\<lambda>(wire, i).
        let fieldNum = tag_field wire; wireType = tag_type wire in
        if wireType = 4 then
          Err (Error_text (''proto: '' @ name @ '': wiretype end group for non-group''))
        else if fieldNum \<le> 0 then
          Err (Error_text (''proto: '' @ name @ '': illegal tag '' @ Itoa fieldNum @
               '' (wire type '' @ Itoa (uint wire) @ '')''))
        else obind (unmarshal_field flds dAtA iNdEx fieldNum wireType i m) (\<lambda>(m, j).
          unmarshal_loop name flds dAtA j m))
      else if golen dAtA < iNdEx then Err ErrUnexpectedEOF
      else Ok m)"
  by pat_completeness auto
termination
proof (relation "measure (\<lambda>(_, _, dAtA, i, _). nat (golen dAtA - i))", simp)
  fix name :: string and flds :: "int \<Rightarrow> 'm field option" and dAtA :: bytes
  fix i m x wire j fieldNum wireType y m' k
  assume a: "i < golen dAtA" "read_varint dAtA 0 i 0 = Ok x" "(wire, j) = x"
    "unmarshal_field flds dAtA i fieldNum wireType j m = Ok y" "(m', k) = y"
  then have "0 \<le> i" "i < j" using read_varint_index by blast+
  with a unmarshal_field_index [of flds dAtA i fieldNum wireType j m m' k] golen_less [of dAtA]
  have "i < k" by auto
  with a(1) show "((name, flds, dAtA, k, m'), name, flds, dAtA, i, m)
      \<in> measure (\<lambda>(_, _, dAtA, i, _). nat (golen dAtA - i))" by simp
qed

declare unmarshal_loop.simps [simp del]

definition unmarshal_message ::
  "string \<Rightarrow> (int \<Rightarrow> 'm field option) \<Rightarrow> bytes \<Rightarrow> 'm \<Rightarrow> 'm outcome" where
  "unmarshal_message name flds dAtA m = unmarshal_loop name flds dAtA 0 m"

section \<open>The Marshal method around a writer\<close>

definition marshal_with ::
  "('m \<Rightarrow> int) \<Rightarrow> ('m \<Rightarrow> bytes \<Rightarrow> (bytes \<times> int) outcome) \<Rightarrow> 'm \<Rightarrow> bytes outcome" where
  "marshal_with sizeOf marshalTo m =
     (let sz = sizeOf m in
      if sz < 0 then Panic (Error_text ''runtime error: makeslice: len out of range'')
      else let dAtA = replicate (nat sz) 0 in
        obind (marshalTo m dAtA) (\<lambda>(dAtA, n). slice dAtA 0 n))"

section \<open>The blocks of the MarshalToSizedBuffer methods\<close>

text \<open>
  \<open>size, err := x.MarshalToSizedBuffer(dAtA[:i]); i -= size; i = encodeVarint(dAtA, i, size);
  i--; dAtA[i] = tag\<close>: the callee writes into the shared front of the buffer.
\<close>

definition marshal_message_field ::
  "('x \<Rightarrow> bytes \<Rightarrow> (bytes \<times> int) outcome) \<Rightarrow> byte \<Rightarrow> 'x \<Rightarrow> bytes \<Rightarrow> int \<Rightarrow> (bytes \<times> int) outcome" where
  "marshal_message_field marshalTo tag x dAtA i =
     obind (slice dAtA 0 i) (\<lambda>front.
     obind (marshalTo x front) (\<lambda>(front, size).
     let dAtA = front @ drop (nat i) dAtA; i = i - size in
     obind (encodeVarint dAtA i (word_of_int size)) (\<lambda>(dAtA, i).
     let i = i - 1 in
     obind (put_at dAtA i tag) (\<lambda>dAtA. Ok (dAtA, i)))))"

text \<open>
  \<open>if len(s) > 0 { i -= len(s); copy(dAtA[i:], s); i = encodeVarint(dAtA, i, len(s)); i--;
  dAtA[i] = tag }\<close>
\<close>

definition marshal_string_field ::
  "byte \<Rightarrow> string \<Rightarrow> bytes \<Rightarrow> int \<Rightarrow> (bytes \<times> int) outcome" where
  "marshal_string_field tag s dAtA i =
     (if golen s > 0 then
        let i = i - golen s in
        obind (copy_at dAtA i (bytes_of_string s)) (\<lambda>dAtA.
        obind (encodeVarint dAtA i (word_of_int (golen s))) (\<lambda>(dAtA, i).
        let i = i - 1 in
        obind (put_at dAtA i tag) (\<lambda>dAtA. Ok (dAtA, i))))
      else Ok (dAtA, i))"

end
