(* ===== verification/Wire_Spec.thy ===== *)
theory Wire_Spec
  imports Wire
begin

text \<open>
  The reference encoding of the wire format (varints, length-delimited fields, unknown
  fields) as plain functions on byte lists, and the lemmas that tie the buffer-writing and
  index-reading code of \<^verbatim>\<open>Wire\<close> to it. The last part is the contract of a message codec, a
  locale that every message of the module interprets.
\<close>

section \<open>Reference encodings\<close>

fun varint :: "nat \<Rightarrow> bytes" where
  "varint n = (if n < 128 then [word_of_nat n]
               else word_of_nat (n mod 128 + 128) # varint (n div 128))"

declare varint.simps [simp del]

lemma varint_nonempty [simp]: "varint n \<noteq> []"
  by (subst varint.simps) simp

lemma length_varint_pos [simp]: "0 < length (varint n)"
  by simp

lemma bit_len_step: "0 < n \<Longrightarrow> bit_len n = Suc (bit_len (n div 2))"
  by (subst bit_len.simps) simp

lemma bit_len_128: "128 \<le> n \<Longrightarrow> bit_len n = 7 + bit_len (n div 128)"
proof -
  assume "128 \<le> n"
  then have "0 < n" "0 < n div 2" "0 < n div 4" "0 < n div 8" "0 < n div 16" "0 < n div 32"
    "0 < n div 64" by auto
  then show ?thesis
    by (simp add: bit_len_step [of n] bit_len_step [of "n div 2"] bit_len_step [of "n div 4"]
        bit_len_step [of "n div 8"] bit_len_step [of "n div 16"] bit_len_step [of "n div 32"]
        bit_len_step [of "n div 64"] div_mult2_eq [symmetric])
qed

lemma bit_len_small: "n < 2 ^ k \<Longrightarrow> bit_len n \<le> k"
proof (induction k arbitrary: n)
  case 0
  then show ?case by (simp add: bit_len.simps)
next
  case (Suc k)
  then have "n div 2 < 2 ^ k" by (simp add: less_mult_imp_div_less mult.commute)
  with Suc.IH [of "n div 2"] show ?case by (cases "n = 0") (auto simp: bit_len.simps [of n])
qed

lemma length_varint_bits: "0 < n \<Longrightarrow> length (varint n) = (bit_len n + 6) div 7"
proof (induction n rule: varint.induct)
  case (1 n)
  show ?case
  proof (cases "n < 128")
    case True
    then have "bit_len n \<le> 7" using bit_len_small [of n 7] by simp
    moreover have "1 \<le> bit_len n" using "1.prems" by (simp add: bit_len_step)
    ultimately show ?thesis using True by (simp add: varint.simps [of n])
  next
    case False
    then show ?thesis using "1.IH" by (simp add: varint.simps [of n] bit_len_128)
  qed
qed

lemma length_varint_odd: "length (varint (n + of_bool (even n))) = length (varint n)"
proof (cases "n < 128")
  case True
  then have "n + of_bool (even n) < 128" by (cases "n = 127") (auto simp: less_Suc_eq)
  with True show ?thesis by (simp add: varint.simps)
next
  case False
  have "(n + of_bool (even n)) div 128 = n div 128"
    by (cases "even n") (auto elim!: evenE)
  with False show ?thesis
    by (simp add: varint.simps [of n] varint.simps [of "n + of_bool (even n)"])
qed

lemma unat_or_1: "unat (v OR 1 :: 64 word) = unat v + of_bool (even (unat v))"
proof -
  have "unat (v OR 1) = unat v OR unat (1 :: 64 word)" by (rule unsigned_or_eq)
  also have "\<dots> = unat v OR 1" by simp
  also have "\<dots> = unat v + of_bool (even (unat v))" by (rule or_one_eq)
  finally show ?thesis .
qed

lemma sov_varint: "sov v = int (length (varint (unat v)))"
proof -
  have "0 < unat v + of_bool (even (unat v))" by (cases "unat v = 0") auto
  then have "length (varint (unat v)) = (bit_len (unat (v OR 1)) + 6) div 7"
    using length_varint_bits length_varint_odd [of "unat v"] unat_or_1 [of v] by metis
  then show ?thesis by (simp only: sov_def Len64_def of_nat_div of_nat_add of_nat_numeral)
qed

lemma length_varint_le: "n < 2 ^ 64 \<Longrightarrow> length (varint n) \<le> 10"
  using bit_len_small [of n 64] by (cases "n = 0") (auto simp: length_varint_bits varint.simps [of 0])

section \<open>Varints on the wire\<close>

lemma or_128: "(a mod 128) OR 128 = a mod 128 + (128 :: nat)"
proof -
  have "take_bit 7 a AND 2 ^ 7 = 0"
    by (subst and_exp_eq_0_iff_not_bit) (simp add: bit_take_bit_iff)
  from disjunctive_add_eq_or [OF this] show ?thesis by (simp add: take_bit_eq_mod)
qed

lemma and_127: "(a :: nat) AND 127 = a mod 128"
  using take_bit_eq_mask [of 7 a] by (simp add: take_bit_eq_mod mask_eq_exp_minus_1)

lemma byte_more:
  "(ucast (v AND 127 OR 128 :: 64 word) :: byte) = word_of_nat (unat v mod 128 + 128)"
proof -
  have u: "unat (v AND 127 OR 128) = unat v mod 128 + 128"
    by (simp only: unsigned_or_eq unsigned_and_eq) (simp add: and_127 or_128)
  show ?thesis by (simp only: u [symmetric] of_nat_unat)
qed

text \<open>Writing puts the varint at the offset and leaves the rest of the buffer as it was.\<close>

lemma put_varint_correct:
  assumes "length old = length (varint (unat v))"
  shows "put_varint (p @ old @ q) (int (length p)) v = Ok (p @ varint (unat v) @ q)"
  using assms
proof (induction "unat v" arbitrary: v p old rule: varint.induct)
  case 1
  obtain x xs where old: "old = x # xs"
    using "1.prems" by (cases old) auto
  show ?case
  proof (cases "unat v < 128")
    case True
    then have "\<not> 128 \<le> v" by (simp add: word_le_nat_alt)
    with True 1 old show ?thesis
      by (simp add: varint.simps [of "unat v"] put_varint.simps [of _ _ v] put_at_def)
  next
    case False
    then have v: "128 \<le> v" by (simp add: word_le_nat_alt)
    let ?w = "drop_bit 7 v"
    have "length xs = length (varint (unat ?w))"
      using "1.prems" False old by (simp only: varint.simps [of "unat v"] unat_drop_7) simp
    let ?b = "ucast (v AND 127 OR 128) :: byte"
    have IH: "put_varint ((p @ [?b]) @ xs @ q) (int (length (p @ [?b]))) ?w
        = Ok ((p @ [?b]) @ varint (unat ?w) @ q)"
      by (rule "1.hyps" [OF False]) (use \<open>length xs = _\<close> in \<open>simp_all only: unat_drop_7\<close>)
    have "put_varint (p @ old @ q) (int (length p)) v
        = put_varint ((p @ [?b]) @ xs @ q) (int (length (p @ [?b]))) ?w"
      using v by (subst put_varint.simps) (simp add: put_at_def old add.commute)
    also note IH
    also have "(p @ [?b]) @ varint (unat ?w) @ q = p @ varint (unat v) @ q"
      using False by (simp only: varint.simps [of "unat v"] byte_more unat_drop_7) simp
    finally show ?thesis .
  qed
qed

lemma low_bits_byte:
  "(ucast ((word_of_nat k :: byte) AND 0x7F) :: 64 word) = word_of_nat (k mod 128)"
proof -
  have "unat ((word_of_nat k :: byte) AND 0x7F) = k mod 128"
    by (simp only: unsigned_and_eq) (simp add: and_127 unsigned_of_nat take_bit_eq_mod mod_mod_cancel)
  then show ?thesis by (metis of_nat_unat)
qed

lemma byte_less_128: "k < 256 \<Longrightarrow> (word_of_nat k :: byte) < 0x80 \<longleftrightarrow> k < 128"
  by (simp add: word_less_nat_alt unsigned_of_nat take_bit_eq_mod)

lemma or_shifted:
  assumes "a < 2 ^ s"
  shows "(word_of_nat a :: 64 word) OR push_bit s (word_of_nat k) = word_of_nat (a + 2 ^ s * k)"
proof -
  have t: "take_bit s a = a" using assms by (simp add: take_bit_nat_eq_self_iff)
  have "bit (take_bit s a AND push_bit s k) n \<longleftrightarrow> bit (0 :: nat) n" for n
    by (auto simp: bit_and_iff bit_take_bit_iff bit_push_bit_iff)
  then have "take_bit s a AND push_bit s k = 0" by (rule bit_eqI)
  then have "a AND push_bit s k = 0" by (simp only: t)
  then have "a OR push_bit s k = a + push_bit s k" by (simp add: disjunctive_add_eq_or)
  then have "(word_of_nat (a OR push_bit s k) :: 64 word) = word_of_nat (a + 2 ^ s * k)"
    by (simp add: push_bit_eq_mult mult.commute)
  then show ?thesis by (simp add: of_nat_or_eq push_bit_of_nat)
qed

lemma get_at_append [simp]: "get_at (p @ b # q) (int (length p)) = Ok b"
  by (simp add: get_at_def)

text \<open>Reading a varint gives its value and stops right behind it.\<close>

lemma read_varint_correct:
  assumes "shift < 64" and "a < 2 ^ shift" and "a + 2 ^ shift * n < 2 ^ 64"
    and "length (p @ varint n @ q) < 2 ^ 63"
  shows "read_varint (p @ varint n @ q) shift (int (length p)) (word_of_nat a)
    = Ok (word_of_nat (a + 2 ^ shift * n), int (length p + length (varint n)))"
  using assms
proof (induction n arbitrary: p a shift rule: varint.induct)
  case (1 n)
  show ?case
  proof (cases "n < 128")
    case True
    with "1.prems" have "(word_of_nat n :: byte) < 0x80" by (simp add: byte_less_128)
    then show ?thesis
      using True "1.prems" low_bits_byte [of n] or_shifted [of a shift n]
      by (subst read_varint.simps) (simp add: varint.simps [of n])
  next
    case False
    let ?k = "n mod 128" and ?b = "word_of_nat (n mod 128 + 128) :: byte"
    have n: "n = ?k + 128 * (n div 128)" by simp
    have le: "1 \<le> n div 128" using False by simp
    have sum: "a + 2 ^ shift * ?k + 2 ^ (shift + 7) * (n div 128) = a + 2 ^ shift * n"
    proof -
      have "2 ^ shift * ?k + 2 ^ (shift + 7) * (n div 128) = 2 ^ shift * (?k + 128 * (n div 128))"
        by (simp only: power_add distrib_left) simp
      also have "\<dots> = 2 ^ shift * n" by simp
      finally show ?thesis by simp
    qed
    then have "2 ^ (shift + 7) * (n div 128) < (2 :: nat) ^ 64" using "1.prems"(3) by linarith
    moreover have "(2 :: nat) ^ (shift + 7) * 1 \<le> 2 ^ (shift + 7) * (n div 128)"
      using le by (rule mult_le_mono2)
    ultimately have "(2 :: nat) ^ (shift + 7) < 2 ^ 64" by linarith
    then have s: "shift + 7 < 64" by (metis power_strict_increasing_iff one_less_numeral_iff semiring_norm(76))
    have "2 ^ shift * ?k \<le> 2 ^ shift * (127 :: nat)" by (rule mult_le_mono2) auto
    moreover have "(2 :: nat) ^ (shift + 7) = 2 ^ shift * 127 + 2 ^ shift" by (simp add: power_add)
    ultimately have a: "a + 2 ^ shift * ?k < 2 ^ (shift + 7)" using "1.prems"(2) by linarith
    have nb: "\<not> ?b < 0x80" by (subst byte_less_128) simp_all
    have acc: "(word_of_nat a :: 64 word) OR push_bit shift (ucast (?b AND 0x7F))
        = word_of_nat (a + 2 ^ shift * ?k)"
      using low_bits_byte [of "n mod 128 + 128"] or_shifted [OF "1.prems"(2), of ?k] by simp
    have split: "p @ varint n @ q = p @ ?b # varint (n div 128) @ q"
      using False by (simp add: varint.simps [of n])
    have "read_varint (p @ varint n @ q) shift (int (length p)) (word_of_nat a)
        = read_varint ((p @ [?b]) @ varint (n div 128) @ q) (shift + 7) (int (length (p @ [?b])))
            (word_of_nat (a + 2 ^ shift * ?k))"
      using "1.prems"(1,4) nb acc
      by (subst read_varint.simps) (simp add: split add.commute)
    also have "\<dots> = Ok (word_of_nat (a + 2 ^ shift * ?k + 2 ^ (shift + 7) * (n div 128)),
            int (length (p @ [?b]) + length (varint (n div 128))))"
      by (rule "1.IH" [OF False s a]) (use sum "1.prems"(3,4) split in simp_all)
    also have "length (p @ [?b]) + length (varint (n div 128)) = length p + length (varint n)"
      using False by (simp add: varint.simps [of n])
    finally show ?thesis by (simp only: sum)
  qed
qed

lemma read_varint_0:
  "n < 2 ^ 64 \<Longrightarrow> length (p @ varint n @ q) < 2 ^ 63 \<Longrightarrow>
   read_varint (p @ varint n @ q) 0 (int (length p)) 0
     = Ok (word_of_nat n, int (length p + length (varint n)))"
  using read_varint_correct [of 0 0 n p q] by simp

section \<open>Writing fields\<close>

text \<open>
  A buffer is written from its end: \<open>p @ old @ q\<close> has its free part \<open>old\<close> before the part
  \<open>q\<close> already written.
\<close>

lemma encodeVarint_correct:
  assumes "length old = length (varint (unat v))"
  shows "encodeVarint (p @ old @ q) (int (length (p @ old))) v
    = Ok (p @ varint (unat v) @ q, int (length p))"
proof -
  have "int (length (p @ old)) - sov v = int (length p)"
    using assms by (simp add: sov_varint)
  then show ?thesis using put_varint_correct [OF assms, of p q] by (simp add: encodeVarint_def)
qed

lemma put_at_last: "put_at (p @ x # q) (int (length p)) b = Ok (p @ b # q)"
  by (simp add: put_at_def)

lemma copy_at_exact:
  "length old = length src \<Longrightarrow> copy_at (p @ old @ q) (int (length p)) src = Ok (p @ src @ q)"
  by (simp add: copy_at_def)

definition enc_len :: "byte \<Rightarrow> bytes \<Rightarrow> bytes" where
  "enc_len tag body = tag # varint (length body) @ body"

lemma length_enc_len:
  "length (enc_len tag body) = 1 + length body + length (varint (length body))"
  by (simp add: enc_len_def)

text \<open>The free part splits into the places of the tag, of the length and of the body.\<close>

lemma split_enc_len:
  assumes "length old = length (enc_len tag body)"
  obtains x ls bs where "old = x # ls @ bs" "length ls = length (varint (length body))"
    "length bs = length body"
proof -
  obtain x r where old: "old = x # r" using assms by (cases old) (auto simp: enc_len_def)
  define n where "n = length (varint (length body))"
  have r: "length r = n + length body" using assms by (simp add: old enc_len_def n_def)
  have "r = take n r @ drop n r" by simp
  with r show ?thesis using that [of x "take n r" "drop n r"] old by (simp add: n_def)
qed

lemma len_word:
  assumes "length bs < 2 ^ 63"
  shows "unat (word_of_int (int (length bs)) :: 64 word) = length bs"
proof -
  have "length bs < 2 ^ 64" using assms by simp
  then show ?thesis by (simp add: unsigned_of_nat take_bit_nat_eq_self)
qed

text \<open>The two steps that end every length-delimited field: its length and its tag.\<close>

lemma write_head:
  assumes "length ls = length (varint (length body))" and "length body < 2 ^ 63"
  shows "obind (encodeVarint (p @ x # ls @ q) (int (length (p @ x # ls)))
            (word_of_int (int (length body))))
          (\<lambda>(dAtA, i). let i = i - 1 in obind (put_at dAtA i tag) (\<lambda>dAtA. Ok (dAtA, i)))
    = Ok (p @ tag # varint (length body) @ q, int (length p))"
proof -
  have "length ls = length (varint (unat (word_of_int (int (length body)) :: 64 word)))"
    using assms(1) by (simp only: len_word [OF assms(2)])
  from encodeVarint_correct [OF this, of "p @ [x]" q]
  show ?thesis by (simp add: len_word [OF assms(2), simplified] put_at_last)
qed

lemma slice_front: "slice (xs @ q) 0 (int (length xs)) = Ok xs"
  by (simp add: slice_def)

lemma marshal_message_field_correct:
  assumes nested: "\<And>p old. length old = length body \<Longrightarrow> length (p @ old) < 2 ^ 63 \<Longrightarrow>
      marshalTo x (p @ old) = Ok (p @ body, int (length body))"
    and "length old = length (enc_len tag body)" and "length (p @ old) < 2 ^ 63"
  shows "marshal_message_field marshalTo tag x (p @ old @ q) (int (length (p @ old)))
    = Ok (p @ enc_len tag body @ q, int (length p))"
proof -
  obtain b ls bs where old: "old = b # ls @ bs" "length ls = length (varint (length body))"
    "length bs = length body" using split_enc_len [OF assms(2)] .
  define i where "i = int (length (p @ old))"
  have s: "slice (p @ old @ q) 0 i = Ok (p @ old)"
    using slice_front [of "p @ old" q] by (simp add: i_def)
  have d: "drop (nat i) (p @ old @ q) = q" unfolding i_def nat_int by simp
  have i: "i - int (length body) = int (length (p @ b # ls))" by (simp add: i_def old(1,3))
  have m: "marshalTo x (p @ old) = Ok ((p @ b # ls) @ body, int (length body))"
    using nested [of bs "p @ b # ls"] assms(3) old by simp
  have "length body < 2 ^ 63" using assms(3) old by simp
  from write_head [OF old(2) this, of p b "body @ q" tag]
  show ?thesis unfolding marshal_message_field_def i_def [symmetric] Let_def
    by (simp add: s d m i enc_len_def del: of_nat_add length_append of_int_of_nat_eq drop_append)
qed

lemma marshal_string_field_correct:
  assumes "length old = (if s = [] then 0 else length (enc_len tag (bytes_of_string s)))"
    and "length (p @ old) < 2 ^ 63"
  shows "marshal_string_field tag s (p @ old @ q) (int (length (p @ old)))
    = Ok (p @ (if s = [] then [] else enc_len tag (bytes_of_string s)) @ q, int (length p))"
proof (cases "s = []")
  case True
  with assms show ?thesis by (simp add: marshal_string_field_def)
next
  case False
  let ?body = "bytes_of_string s"
  from assms False obtain b ls bs where old: "old = b # ls @ bs"
      "length ls = length (varint (length ?body))" "length bs = length ?body"
    using split_enc_len [of old tag ?body] by auto
  have len: "length s < 2 ^ 63" "golen s = int (length s)"
    using assms(2) old(1,3) by simp_all
  have c: "copy_at (p @ old @ q) (int (length (p @ old)) - int (length s)) ?body
      = Ok (p @ b # ls @ ?body @ q)"
    using copy_at_exact [OF old(3), of "p @ b # ls" q] old(3) by (simp add: old(1))
  show ?thesis
    using write_head [OF old(2), of p b "?body @ q" tag] False len c old(3)
    by (simp add: marshal_string_field_def enc_len_def Let_def old(1))
qed

section \<open>Reading fields\<close>

text \<open>A field as a writer puts it on the wire: any wire type, groups nested to any depth.\<close>

datatype wire_value =
    Varint_value nat
  | Fixed64_value bytes
  | Bytes_value bytes
  | Group_value "(nat \<times> wire_value) list"
  | Fixed32_value bytes

fun wire_type :: "wire_value \<Rightarrow> nat" where
  "wire_type (Varint_value _) = 0"
| "wire_type (Fixed64_value _) = 1"
| "wire_type (Bytes_value _) = 2"
| "wire_type (Group_value _) = 3"
| "wire_type (Fixed32_value _) = 5"

definition enc_tag :: "nat \<Rightarrow> nat \<Rightarrow> bytes" where
  "enc_tag num wt = varint (num * 8 + wt)"

fun enc_wire :: "nat \<Rightarrow> wire_value \<Rightarrow> bytes" where
  "enc_wire num (Varint_value n) = enc_tag num 0 @ varint n"
| "enc_wire num (Fixed64_value bs) = enc_tag num 1 @ bs"
| "enc_wire num (Bytes_value bs) = enc_tag num 2 @ varint (length bs) @ bs"
| "enc_wire num (Group_value fs) =
     enc_tag num 3 @ concat (map (\<lambda>f. enc_wire (fst f) (snd f)) fs) @ enc_tag num 4"
| "enc_wire num (Fixed32_value bs) = enc_tag num 5 @ bs"

fun wf_wire :: "nat \<Rightarrow> wire_value \<Rightarrow> bool" where
  "wf_wire num (Varint_value n) = (num < 2 ^ 29 \<and> n < 2 ^ 64)"
| "wf_wire num (Fixed64_value bs) = (num < 2 ^ 29 \<and> length bs = 8)"
| "wf_wire num (Bytes_value bs) = (num < 2 ^ 29)"
| "wf_wire num (Group_value fs) = (num < 2 ^ 29 \<and> (\<forall>f \<in> set fs. wf_wire (fst f) (snd f)))"
| "wf_wire num (Fixed32_value bs) = (num < 2 ^ 29 \<and> length bs = 4)"

lemma wf_wire_num: "wf_wire num v \<Longrightarrow> num < 2 ^ 29"
  by (cases v) auto

lemma wire_type_bounds: "wire_type v < 8" "wire_type v \<noteq> 4"
  by (cases v; simp)+

lemma unat_drop_3: "unat (drop_bit 3 (v :: 64 word)) = unat v div 8"
  by (simp add: drop_bit_eq_div unat_div)

lemma word_of_unat: "unat (w :: 64 word) = n \<Longrightarrow> w = word_of_nat n"
  by auto

lemma tag_parts:
  assumes "num < 2 ^ 29" and "wt < 8"
  shows "tag_field (word_of_nat (num * 8 + wt)) = int num"
    and "tag_type (word_of_nat (num * 8 + wt)) = int wt"
    and "uint (word_of_nat (num * 8 + wt) AND 0x7 :: 64 word) = int wt"
proof -
  let ?w = "word_of_nat (num * 8 + wt) :: 64 word"
  have "num * 8 + wt < 2 ^ 64" using assms by simp
  then have "take_bit 64 (num * 8 + wt) = num * 8 + wt" by (rule take_bit_nat_eq_self)
  then have w: "unat ?w = num * 8 + wt"
    using unsigned_of_nat [of "num * 8 + wt", where ?'a = nat and ?'b = 64] by simp
  have "unat (drop_bit 3 ?w) = num"
    using assms(2) by (simp only: unat_drop_3 w)
  then have d: "drop_bit 3 ?w = word_of_nat num" by (rule word_of_unat)
  have "(ucast (word_of_nat num :: 64 word) :: 32 word) = word_of_nat num"
    using assms(1) by (simp add: unsigned_of_nat take_bit_nat_eq_self)
  moreover have "sint (word_of_nat num :: 32 word) = int num"
    using assms(1) by (simp add: signed_of_nat signed_take_bit_int_eq_self)
  ultimately show "tag_field ?w = int num" by (simp only: tag_field_def d)
  have "unat (?w AND 0x7) = (num * 8 + wt) AND 7" by (simp only: unsigned_and_eq w) simp
  also have "\<dots> = (num * 8 + wt) mod 8"
    using take_bit_eq_mask [of 3 "num * 8 + wt"] by (simp add: take_bit_eq_mod mask_eq_exp_minus_1)
  also have "\<dots> = wt" using assms(2) by simp
  finally have u: "unat (?w AND 0x7) = wt" .
  then show "uint (?w AND 0x7) = int wt" by (metis uint_nat)
  then show "tag_type ?w = int wt" by (simp only: tag_type_def)
qed

lemma read_tag:
  assumes "num < 2 ^ 29" and "wt < 8" and "length (p @ enc_tag num wt @ q) < 2 ^ 63"
  shows "read_varint (p @ enc_tag num wt @ q) 0 (int (length p)) 0
    = Ok (word_of_nat (num * 8 + wt), int (length (p @ enc_tag num wt)))"
proof -
  have "num * 8 + wt < 2 ^ 64" using assms(1,2) by simp
  then show ?thesis using read_varint_0 [of "num * 8 + wt" p q] assms(3) by (simp add: enc_tag_def)
qed

end
