(* ===== verification/Wire_Codec.thy ===== *)
theory Wire_Codec
  imports Wire_Spec
begin

text \<open>
  What the decoding loops do with well-formed fields (a known field is stored, an unknown one
  of any wire type is stepped over) and with arbitrary bytes (no index or slice is ever out of
  range), and the contract of a message codec: the locale \<open>wire_message\<close>, which every message
  of the module interprets, and its extension \<open>open_message\<close> for fields the message does not
  know.
\<close>

section \<open>Skipping a well-formed field\<close>

lemma skip_field_payload:
  assumes "length (p @ enc_wire num v @ q) < 2 ^ 63" and "wf_wire num v"
    and "\<And>fs. v \<noteq> Group_value fs"
  shows "skip_field (p @ enc_wire num v @ q) (int (wire_type v))
      (int (length (p @ enc_tag num (wire_type v)))) d
    = Ok (int (length (p @ enc_wire num v)), d)"
proof (cases v)
  case (Varint_value n)
  with assms read_varint_0 [of n "p @ enc_tag num 0" q] show ?thesis by (simp add: skip_field_def)
next
  case (Fixed64_value bs)
  with assms show ?thesis by (simp add: skip_field_def)
next
  case (Bytes_value bs)
  let ?p = "p @ enc_tag num 2" and ?n = "length bs"
  have n: "?n < 2 ^ 63" using assms(1) Bytes_value by simp
  then have r: "read_varint (?p @ varint ?n @ bs @ q) 0 (int (length ?p)) 0
      = Ok (word_of_nat ?n, int (length ?p + length (varint ?n)))"
    using assms(1) Bytes_value by (intro read_varint_0) simp_all
  have "sint (word_of_nat ?n :: 64 word) = int ?n"
    using n by (simp add: signed_of_nat signed_take_bit_int_eq_self)
  with r n assms(1) Bytes_value show ?thesis by (simp add: skip_field_def Let_def)
next
  case (Group_value fs)
  with assms(3) show ?thesis by blast
next
  case (Fixed32_value bs)
  with assms show ?thesis by (simp add: skip_field_def)
qed

lemma length_enc_tag_pos: "0 < length (enc_tag num wt)"
  by (simp add: enc_tag_def)

lemma skip_loop_step:
  assumes "length (p @ enc_tag num wt @ q) < 2 ^ 63" and "num < 2 ^ 29" and "wt < 8"
    and "skip_field (p @ enc_tag num wt @ q) (int wt) (int (length (p @ enc_tag num wt))) d
      = Ok (int j, d')"
  shows "skip_loop (p @ enc_tag num wt @ q) (int (length p)) d
    = (if d' = 0 then Ok (int j) else skip_loop (p @ enc_tag num wt @ q) (int j) d')"
proof -
  have i: "int (length p) < golen (p @ enc_tag num wt @ q)"
    using assms(1) length_enc_tag_pos [of num wt] by (simp del: length_greater_0_conv)
  note r = read_tag [OF assms(2,3,1)] and t = tag_parts(3) [OF assms(2,3)]
  show ?thesis
    by (subst skip_loop.simps) (simp only: i r t assms(4) obind.simps if_True prod.case, simp)
qed

lemma enc_wire_tag:
  obtains payload where "enc_wire num v = enc_tag num (wire_type v) @ payload"
  by (cases v) auto

lemma skip_loop_simple:
  assumes "wf_wire num v" and "length (p @ enc_wire num v @ q) < 2 ^ 63"
    and "\<And>fs. v \<noteq> Group_value fs"
  shows "skip_loop (p @ enc_wire num v @ q) (int (length p)) d
    = (if d = 0 then Ok (int (length (p @ enc_wire num v)))
       else skip_loop (p @ enc_wire num v @ q) (int (length (p @ enc_wire num v))) d)"
proof -
  obtain payload where e: "enc_wire num v = enc_tag num (wire_type v) @ payload"
    using enc_wire_tag .
  show ?thesis
    using skip_loop_step [of p num "wire_type v" "payload @ q" d "length (p @ enc_wire num v)" d]
      skip_field_payload [OF assms(2,1,3), of d] assms(2) wf_wire_num [OF assms(1)]
      wire_type_bounds(1) [of v] by (simp add: e)
qed

text \<open>
  At depth 0 the loop ends behind the field; inside a group it goes on there. A group's
  members are read one depth further down.
\<close>

lemma skip_loop_members:
  assumes "\<And>f p q. f \<in> set fs \<Longrightarrow> length (p @ enc f @ q) < 2 ^ 63 \<Longrightarrow>
      skip_loop (p @ enc f @ q) (int (length p)) d
      = skip_loop (p @ enc f @ q) (int (length (p @ enc f))) d"
    and "length (p @ concat (map enc fs) @ q) < 2 ^ 63"
  shows "skip_loop (p @ concat (map enc fs) @ q) (int (length p)) d
    = skip_loop (p @ concat (map enc fs) @ q) (int (length (p @ concat (map enc fs)))) d"
  using assms
proof (induction fs arbitrary: p)
  case (Cons f fs)
  have "skip_loop (p @ enc f @ concat (map enc fs) @ q) (int (length p)) d
      = skip_loop (p @ enc f @ concat (map enc fs) @ q) (int (length (p @ enc f))) d"
    using Cons.prems(2) by (intro Cons.prems(1)) simp_all
  also have "\<dots> = skip_loop ((p @ enc f) @ concat (map enc fs) @ q) (int (length (p @ enc f))) d"
    by simp
  also have "\<dots> = skip_loop ((p @ enc f) @ concat (map enc fs) @ q)
      (int (length ((p @ enc f) @ concat (map enc fs)))) d"
    using Cons.prems by (intro Cons.IH) auto
  finally show ?case by simp
qed simp

lemma skip_loop_wire:
  assumes "wf_wire num v" and "0 \<le> d" and "length (p @ enc_wire num v @ q) < 2 ^ 63"
  shows "skip_loop (p @ enc_wire num v @ q) (int (length p)) d
    = (if d = 0 then Ok (int (length (p @ enc_wire num v)))
       else skip_loop (p @ enc_wire num v @ q) (int (length (p @ enc_wire num v))) d)"
  using assms
proof (induction num v arbitrary: p q d rule: enc_wire.induct)
  case (4 num fs)
  let ?enc = "\<lambda>f. enc_wire (fst f) (snd f)"
  let ?ms = "concat (map ?enc fs)" and ?s = "enc_tag num 3" and ?e = "enc_tag num 4"
  have num: "num < 2 ^ 29" using "4.prems"(1) by simp
  have len: "length (p @ ?s @ ?ms @ ?e @ q) < 2 ^ 63" using "4.prems"(3) by simp
  have "skip_loop (p @ ?s @ ?ms @ ?e @ q) (int (length p)) d
      = skip_loop (p @ ?s @ ?ms @ ?e @ q) (int (length (p @ ?s))) (d + 1)"
    using skip_loop_step [of p num 3 "?ms @ ?e @ q" d "length (p @ ?s)" "d + 1"] len num "4.prems"(2)
    by (simp add: skip_field_def)
  also have "\<dots> = skip_loop ((p @ ?s) @ ?ms @ ?e @ q) (int (length (p @ ?s))) (d + 1)" by simp
  also have "\<dots> = skip_loop ((p @ ?s) @ ?ms @ ?e @ q) (int (length ((p @ ?s) @ ?ms))) (d + 1)"
  proof (rule skip_loop_members)
    fix f p q assume f: "f \<in> set fs" "length (p @ ?enc f @ q) < 2 ^ 63"
    then show "skip_loop (p @ ?enc f @ q) (int (length p)) (d + 1)
        = skip_loop (p @ ?enc f @ q) (int (length (p @ ?enc f))) (d + 1)"
      using "4.IH" [of f "d + 1" p q] "4.prems"(1,2) by simp
  qed (use len in simp)
  also have "\<dots> = skip_loop ((p @ ?s @ ?ms) @ ?e @ q) (int (length (p @ ?s @ ?ms))) (d + 1)" by simp
  also have "\<dots> = (if d = 0 then Ok (int (length (p @ ?s @ ?ms @ ?e)))
      else skip_loop ((p @ ?s @ ?ms) @ ?e @ q) (int (length (p @ ?s @ ?ms @ ?e))) d)"
    using skip_loop_step [of "p @ ?s @ ?ms" num 4 q "d + 1" "length (p @ ?s @ ?ms @ ?e)" d]
      len num "4.prems"(2) by (simp add: skip_field_def)
  finally show ?case by simp
qed (use skip_loop_simple in blast)+

section \<open>The field loop on well-formed fields\<close>

lemma unmarshal_loop_end:
  "length dAtA < 2 ^ 63 \<Longrightarrow> unmarshal_loop name flds dAtA (int (length dAtA)) m = Ok m"
  by (subst unmarshal_loop.simps) simp

lemma unmarshal_loop_step:
  assumes "length (p @ enc_tag num wt @ q) < 2 ^ 63" and "0 < num" and "num < 2 ^ 29"
    and "wt < 8" and "wt \<noteq> 4"
    and "unmarshal_field flds (p @ enc_tag num wt @ q) (int (length p)) (int num) (int wt)
      (int (length (p @ enc_tag num wt))) m = Ok (m', j)"
  shows "unmarshal_loop name flds (p @ enc_tag num wt @ q) (int (length p)) m
    = unmarshal_loop name flds (p @ enc_tag num wt @ q) j m'"
proof -
  have i: "int (length p) < golen (p @ enc_tag num wt @ q)"
    using assms(1) length_enc_tag_pos [of num wt] by (simp del: length_greater_0_conv)
  note r = read_tag [OF assms(3,4,1)] and t = tag_parts(1,2) [OF assms(3,4)]
  have n: "\<not> int num \<le> 0" "\<not> int wt = 4" using assms(2,5) by auto
  show ?thesis
    by (subst unmarshal_loop.simps)
      (simp only: i r t n assms(6) obind.simps if_True if_False prod.case Let_def)
qed

lemma unmarshal_known_correct:
  assumes "length (p @ varint (length body) @ body @ q) < 2 ^ 63" and "field_store f body m = Ok m'"
  shows "unmarshal_known f (p @ varint (length body) @ body @ q) 2 (int (length p)) m
    = Ok (m', int (length (p @ varint (length body) @ body)))"
proof -
  let ?n = "length body" and ?d = "p @ varint (length body) @ body @ q"
  have n: "?n < 2 ^ 63" using assms(1) by simp
  then have r: "read_varint ?d 0 (int (length p)) 0
      = Ok (word_of_nat ?n, int (length p + length (varint ?n)))"
    using assms(1) by (intro read_varint_0) simp_all
  have s: "sint (word_of_nat ?n :: 64 word) = int ?n"
    using n by (simp add: signed_of_nat signed_take_bit_int_eq_self)
  have sl: "slice ?d (int (length p + length (varint ?n)))
      (int (length p + length (varint ?n)) + int ?n) = Ok body"
    by (simp add: slice_def)
  show ?thesis
    using r s sl assms by (simp add: unmarshal_known_def Let_def)
qed

definition enc_field :: "nat \<Rightarrow> bytes \<Rightarrow> bytes" where
  "enc_field num body = enc_wire num (Bytes_value body)"

lemma unmarshal_loop_field:
  assumes "length (p @ enc_field num body @ q) < 2 ^ 63" and "0 < num" and "num < 2 ^ 29"
    and "flds (int num) = Some f" and "field_store f body m = Ok m'"
  shows "unmarshal_loop name flds (p @ enc_field num body @ q) (int (length p)) m
    = unmarshal_loop name flds ((p @ enc_field num body) @ q)
        (int (length (p @ enc_field num body))) m'"
proof -
  let ?p = "p @ enc_tag num 2"
  have "unmarshal_field flds (?p @ varint (length body) @ body @ q) (int (length p)) (int num) 2
      (int (length ?p)) m = Ok (m', int (length (p @ enc_field num body)))"
    using unmarshal_known_correct [of ?p body q f m m'] assms(1,4,5)
    by (simp add: unmarshal_field_def enc_field_def)
  then show ?thesis
    using unmarshal_loop_step [of p num 2 "varint (length body) @ body @ q" flds m m'
        "int (length (p @ enc_field num body))" name] assms(1-3)
    by (simp add: enc_field_def)
qed

text \<open>A field whose number the message does not know leaves the message as it is.\<close>

lemma unmarshal_loop_unknown:
  assumes "length (p @ enc_wire num v @ q) < 2 ^ 63" and "wf_wire num v" and "0 < num"
    and "flds (int num) = None"
  shows "unmarshal_loop name flds (p @ enc_wire num v @ q) (int (length p)) m
    = unmarshal_loop name flds ((p @ enc_wire num v) @ q) (int (length (p @ enc_wire num v))) m"
proof -
  let ?d = "p @ enc_wire num v @ q"
  obtain payload where e: "enc_wire num v = enc_tag num (wire_type v) @ payload"
    using enc_wire_tag .
  have "slice ?d (int (length p)) (int (length ?d)) = Ok (enc_wire num v @ q)"
    by (simp add: slice_def)
  moreover have "skip (enc_wire num v @ q) = Ok (int (length (enc_wire num v)))"
    using skip_loop_wire [of num v 0 "[]" q] assms(1,2) by (simp add: skip_def)
  ultimately have "unmarshal_unknown ?d (int (length p)) m
      = Ok (m, int (length (p @ enc_wire num v)))"
    using assms(1) by (simp add: unmarshal_unknown_def)
  then have u: "unmarshal_field flds ?d (int (length p)) (int num) wt i m
      = Ok (m, int (length (p @ enc_wire num v)))" for wt i
    by (simp add: unmarshal_field_def assms(4))
  show ?thesis
    using unmarshal_loop_step [of p num "wire_type v" "payload @ q" flds m m
        "int (length (p @ enc_wire num v))" name] u assms(1,3) wf_wire_num [OF assms(2)]
      wire_type_bounds [of v] by (simp add: e)
qed

section \<open>No decoder indexes out of range\<close>

fun no_crash :: "'a outcome \<Rightarrow> bool" where
  "no_crash (Ok _) = True"
| "no_crash (Err _) = True"
| "no_crash _ = False"

lemma no_crash_obind:
  "no_crash r \<Longrightarrow> (\<And>x. r = Ok x \<Longrightarrow> no_crash (f x)) \<Longrightarrow> no_crash (obind r f)"
  by (cases r) auto

lemma no_crash_if:
  "(b \<Longrightarrow> no_crash x) \<Longrightarrow> (\<not> b \<Longrightarrow> no_crash y) \<Longrightarrow> no_crash (if b then x else y)"
  by simp

lemma get_at_in_range: "0 \<le> i \<Longrightarrow> i < int (length dAtA) \<Longrightarrow> \<exists>b. get_at dAtA i = Ok b"
  by (simp add: get_at_def)

lemma slice_in_range:
  "0 \<le> lo \<Longrightarrow> lo \<le> hi \<Longrightarrow> hi \<le> int (length dAtA) \<Longrightarrow>
   \<exists>bs. slice dAtA lo hi = Ok bs \<and> length bs \<le> length dAtA"
  by (simp add: slice_def)

lemma read_varint_safe:
  "length dAtA < 2 ^ 63 \<Longrightarrow> 0 \<le> i \<Longrightarrow> no_crash (read_varint dAtA s i a)"
proof (induction dAtA s i a rule: read_varint.induct)
  case (1 dAtA s i a)
  show ?case
  proof (cases "64 \<le> s \<or> golen dAtA \<le> i")
    case True
    then show ?thesis by (subst read_varint.simps) auto
  next
    case False
    with "1.prems" obtain b where b: "get_at dAtA i = Ok b" using get_at_in_range [of i dAtA] by auto
    show ?thesis
    proof (cases "b < 0x80")
      case True
      with False b show ?thesis by (subst read_varint.simps) simp
    next
      case F: False
      have "no_crash (read_varint dAtA (s + 7) (i + 1) (a OR push_bit s (ucast (b AND 0x7F))))"
        using False F b "1.prems" by (intro "1.IH") simp_all
      with False F b show ?thesis by (subst read_varint.simps) simp
    qed
  qed
qed

lemma skip_field_safe:
  "length dAtA < 2 ^ 63 \<Longrightarrow> 0 \<le> i \<Longrightarrow> no_crash (skip_field dAtA wt i d)"
  unfolding skip_field_def
  by (auto intro!: no_crash_obind read_varint_safe simp: Let_def split: prod.split)

lemma skip_loop_safe:
  "length dAtA < 2 ^ 63 \<Longrightarrow> 0 \<le> i \<Longrightarrow> no_crash (skip_loop dAtA i d)"
proof (induction dAtA i d rule: skip_loop.induct)
  case (1 dAtA i d)
  show ?case
  proof (subst skip_loop.simps, cases "i < golen dAtA", simp_all, rule no_crash_obind)
    show "no_crash (read_varint dAtA 0 i 0)" using "1.prems" by (rule read_varint_safe)
  next
    fix x assume a: "i < golen dAtA" "read_varint dAtA 0 i 0 = Ok x"
    obtain w j where x: "x = (w, j)" by (cases x)
    have "0 \<le> j" using read_varint_index [of dAtA 0 i 0 w j] a x by simp
    with a x show "no_crash (case x of (wire, i) \<Rightarrow>
        obind (skip_field dAtA (uint (wire AND 7)) i d)
          (\<lambda>(i, depth). if i < 0 then Err ErrInvalidLength
             else if depth = 0 then Ok i else skip_loop dAtA i depth))"
      using "1.prems" "1.IH" by (auto intro!: no_crash_obind skip_field_safe)
  qed
qed

lemma unmarshal_known_safe:
  assumes "length dAtA < 2 ^ 63" and "0 \<le> i"
    and "\<And>bs m. length bs < 2 ^ 63 \<Longrightarrow> no_crash (field_store f bs m)"
  shows "no_crash (unmarshal_known f dAtA wt i m)"
proof -
  have s: "\<exists>bs. slice dAtA j k = Ok bs \<and> length bs \<le> length dAtA"
    if "read_varint dAtA 0 i 0 = Ok (v, j)" "0 \<le> sint v" "k = wrap64 (j + sint v)" "0 \<le> k"
      "k \<le> golen dAtA" for v j k
    using read_varint_index [OF that(1)] that assms(1) golen_less [of dAtA] sint_range64(2) [of v]
      wrap64_sum [of j "sint v"] by (intro slice_in_range) (auto split: if_splits)
  show ?thesis unfolding unmarshal_known_def Let_def
  proof (cases "wt \<noteq> 2", simp, simp only: if_False, rule no_crash_obind)
    fix x assume r: "read_varint dAtA 0 i 0 = Ok x"
    obtain v j where x: "x = (v, j)" by (cases x)
    show "no_crash (case x of (v, iNdEx) \<Rightarrow>
        if sint v < 0 then Err ErrInvalidLength
        else if wrap64 (iNdEx + sint v) < 0 then Err ErrInvalidLength
        else if golen dAtA < wrap64 (iNdEx + sint v) then Err ErrUnexpectedEOF
        else obind (slice dAtA iNdEx (wrap64 (iNdEx + sint v)))
          (\<lambda>bs. obind (field_store f bs m) (\<lambda>m. Ok (m, wrap64 (iNdEx + sint v)))))"
      using s [of v j "wrap64 (j + sint v)"] r x assms(1,3)
      by (auto intro!: no_crash_obind)
  qed (use assms read_varint_safe in blast)
qed

lemma unmarshal_unknown_safe:
  assumes "length dAtA < 2 ^ 63" and "0 \<le> i" and "i \<le> int (length dAtA)"
  shows "no_crash (unmarshal_unknown dAtA i m)"
proof -
  obtain rest where "slice dAtA i (int (length dAtA)) = Ok rest" "length rest \<le> length dAtA"
    using slice_in_range [OF assms(2,3)] by blast
  then show ?thesis
    using assms(1) skip_loop_safe [of rest 0 0]
    by (auto simp: unmarshal_unknown_def skip_def intro!: no_crash_obind)
qed

lemma unmarshal_loop_safe:
  assumes "\<And>n f bs m. flds n = Some f \<Longrightarrow> length bs < 2 ^ 63 \<Longrightarrow> no_crash (field_store f bs m)"
  shows "length dAtA < 2 ^ 63 \<Longrightarrow> 0 \<le> i \<Longrightarrow> no_crash (unmarshal_loop name flds dAtA i m)"
  using assms
proof (induction name flds dAtA i m rule: unmarshal_loop.induct)
  case (1 name flds dAtA i m)
  show ?case
  proof (subst unmarshal_loop.simps, cases "i < golen dAtA", simp_all only: if_True if_False,
      rule no_crash_obind)
    show "no_crash (read_varint dAtA 0 i 0)" using "1.prems" by (intro read_varint_safe)
  next
    fix x assume a: "i < golen dAtA" "read_varint dAtA 0 i 0 = Ok x"
    obtain w j where x: "x = (w, j)" by (cases x)
    have j: "i < j" "0 \<le> j" using read_varint_index [of dAtA 0 i 0 w j] a x by auto
    have f: "no_crash (unmarshal_field flds dAtA i (tag_field w) (tag_type w) j m)"
      using j "1.prems" a(1) unmarshal_known_safe [of dAtA j _ "tag_type w" m]
        unmarshal_unknown_safe [of dAtA i m]
      by (auto simp: unmarshal_field_def split: option.split)
    have "no_crash (unmarshal_loop name flds dAtA k m')"
      if "unmarshal_field flds dAtA i (tag_field w) (tag_type w) j m = Ok (m', k)"
        "tag_type w \<noteq> 4" "\<not> tag_field w \<le> 0" for m' k
    proof -
      have "0 \<le> k" using unmarshal_field_index [OF that(1)] "1.prems"(2) j a(1) golen_less [of dAtA] by auto
      then show ?thesis
        using "1.IH" [OF a x [symmetric] refl refl that(2,3,1) refl] "1.prems" by blast
    qed
    with f show "no_crash (case x of (wire, i') \<Rightarrow>
        let fieldNum = tag_field wire; wireType = tag_type wire in
        if wireType = 4 then
          Err (Error_text (''proto: '' @ name @ '': wiretype end group for non-group''))
        else if fieldNum \<le> 0 then
          Err (Error_text (''proto: '' @ name @ '': illegal tag '' @ Itoa fieldNum @
               '' (wire type '' @ Itoa (uint wire) @ '')''))
        else obind (unmarshal_field flds dAtA i fieldNum wireType i' m) (\<lambda>(m, j).
          unmarshal_loop name flds dAtA j m))"
      unfolding x Let_def prod.case
      by (intro no_crash_if no_crash_obind) (simp_all split: prod.split)
  qed simp
qed

section \<open>The contract of a message codec\<close>

text \<open>
  \<open>enc\<close> is the reference encoding, \<open>wf\<close> the messages whose encoding fits in memory. The
  laws tie \<^verbatim>\<open>Size\<close>, \<^verbatim>\<open>MarshalToSizedBuffer\<close> and \<^verbatim>\<open>Unmarshal\<close> to it.
\<close>

locale wire_message =
  fixes sizeOf :: "'m \<Rightarrow> int"
    and marshalTo :: "'m \<Rightarrow> bytes \<Rightarrow> (bytes \<times> int) outcome"
    and unmarshal :: "bytes \<Rightarrow> 'm \<Rightarrow> 'm outcome"
    and zero :: 'm
    and wf :: "'m \<Rightarrow> bool"
    and enc :: "'m \<Rightarrow> bytes"
  assumes fits: "wf m \<Longrightarrow> length (enc m) < 2 ^ 63"
    and size_enc: "wf m \<Longrightarrow> sizeOf m = int (length (enc m))"
    and marshalTo_enc: "wf m \<Longrightarrow> length old = length (enc m) \<Longrightarrow> length (p @ old) < 2 ^ 63 \<Longrightarrow>
      marshalTo m (p @ old) = Ok (p @ enc m, int (length (enc m)))"
    and unmarshal_enc: "wf m \<Longrightarrow> unmarshal (enc m) zero = Ok m"
    and unmarshal_safe: "length bs < 2 ^ 63 \<Longrightarrow> no_crash (unmarshal bs m0)"
begin

lemma marshal_enc: "wf m \<Longrightarrow> marshal_with sizeOf marshalTo m = Ok (enc m)"
  using marshalTo_enc [of m "replicate (length (enc m)) 0" "[]"] fits [of m] size_enc [of m]
    slice_front [of "enc m" "[]"]
  by (simp add: marshal_with_def Let_def)

lemma roundtrip:
  "wf m \<Longrightarrow> obind (marshal_with sizeOf marshalTo m) (\<lambda>bs. unmarshal bs zero) = Ok m"
  by (simp add: marshal_enc unmarshal_enc)

lemma marshal_inj:
  "wf m \<Longrightarrow> wf m' \<Longrightarrow> marshal_with sizeOf marshalTo m = marshal_with sizeOf marshalTo m' \<Longrightarrow> m = m'"
  by (metis marshal_enc unmarshal_enc outcome.inject(1))

end

text \<open>Messages that step over the fields they do not know.\<close>

locale open_message = wire_message +
  fixes known :: "nat set"
  assumes unmarshal_extended:
    "wf m \<Longrightarrow> 0 < num \<Longrightarrow> num \<notin> known \<Longrightarrow> wf_wire num v \<Longrightarrow>
     length (enc_wire num v @ enc m) < 2 ^ 63 \<Longrightarrow> unmarshal (enc_wire num v @ enc m) zero = Ok m"
begin

lemma extended_roundtrip:
  "wf m \<Longrightarrow> 0 < num \<Longrightarrow> num \<notin> known \<Longrightarrow> wf_wire num v \<Longrightarrow>
   length (enc_wire num v @ enc m) < 2 ^ 63 \<Longrightarrow>
   obind (marshal_with sizeOf marshalTo m) (\<lambda>bs. unmarshal (enc_wire num v @ bs) zero) = Ok m"
  by (simp add: marshal_enc unmarshal_extended)

end

text \<open>
  The messages of this module: their \<^verbatim>\<open>Unmarshal\<close> is the field loop, and the loop reads the
  reference encoding wherever it stands at the end of the data.
\<close>

locale fielded_message =
  fixes sizeOf :: "'m \<Rightarrow> int"
    and marshalTo :: "'m \<Rightarrow> bytes \<Rightarrow> (bytes \<times> int) outcome"
    and unmarshal :: "bytes \<Rightarrow> 'm \<Rightarrow> 'm outcome"
    and zero :: 'm
    and wf :: "'m \<Rightarrow> bool"
    and enc :: "'m \<Rightarrow> bytes"
    and name :: string
    and flds :: "int \<Rightarrow> 'm field option"
    and known :: "nat set"
  assumes enc_fits: "wf m \<Longrightarrow> length (enc m) < 2 ^ 63"
    and enc_size: "wf m \<Longrightarrow> sizeOf m = int (length (enc m))"
    and writes: "wf m \<Longrightarrow> length old = length (enc m) \<Longrightarrow> length (p @ old) < 2 ^ 63 \<Longrightarrow>
      marshalTo m (p @ old) = Ok (p @ enc m, int (length (enc m)))"
    and is_loop: "unmarshal bs m = unmarshal_loop name flds bs 0 m"
    and reads: "wf m \<Longrightarrow> length (p @ enc m) < 2 ^ 63 \<Longrightarrow>
      unmarshal_loop name flds (p @ enc m) (int (length p)) zero = Ok m"
    and stores_safe: "flds n = Some f \<Longrightarrow> length bs < 2 ^ 63 \<Longrightarrow> no_crash (field_store f bs m)"
    and knows: "num \<notin> known \<Longrightarrow> flds (int num) = None"
begin

lemma reads_extended:
  assumes "wf m" and "0 < num" and "num \<notin> known" and "wf_wire num v"
    and "length (enc_wire num v @ enc m) < 2 ^ 63"
  shows "unmarshal (enc_wire num v @ enc m) zero = Ok m"
  using unmarshal_loop_unknown [of "[]" num v "enc m" flds name zero] assms
    reads [of m "enc_wire num v"] knows [of num] by (simp add: is_loop)

end

sublocale fielded_message \<subseteq> open_message sizeOf marshalTo unmarshal zero wf enc known
proof unfold_locales
  fix m m0 :: 'm and bs :: bytes
  show "unmarshal (enc m) zero = Ok m" if "wf m"
    using reads [of m "[]"] enc_fits that by (simp add: is_loop)
  show "no_crash (unmarshal bs m0)" if "length bs < 2 ^ 63"
    unfolding is_loop by (rule unmarshal_loop_safe [OF _ that]) (simp_all add: stores_safe)
qed (use enc_fits enc_size writes reads_extended in \<open>simp_all\<close>)

section \<open>Sizes and encodings of the fields\<close>

text \<open>A string field is written only when it is not empty.\<close>

definition enc_string :: "nat \<Rightarrow> string \<Rightarrow> bytes" where
  "enc_string num s = (if s = [] then [] else enc_field num (bytes_of_string s))"

lemma enc_len_field:
  "enc_len 0x0a body = enc_field 1 body" "enc_len 0x12 body = enc_field 2 body"
  by (simp_all add: enc_len_def enc_field_def enc_tag_def varint.simps)

lemma length_enc_field_1: "num \<in> {1, 2} \<Longrightarrow>
  length (enc_field num body) = 1 + length body + length (varint (length body))"
  using length_enc_len [of "0x0a" body] length_enc_len [of "0x12" body] by (auto simp: enc_len_field)

lemma length_enc_field_bound:
  assumes "num \<in> {1, 2}" and "length body < 2 ^ 62"
  shows "length (enc_field num body) \<le> length body + 11"
proof -
  have "length (varint (length body)) \<le> 10" using assms(2) by (intro length_varint_le) simp
  then show ?thesis by (simp add: length_enc_field_1 [OF assms(1)])
qed

lemma sov_int: "n < 2 ^ 63 \<Longrightarrow> sov (word_of_int (int n)) = int (length (varint n))"
proof -
  assume "n < 2 ^ 63"
  then have "unat (word_of_int (int n) :: 64 word) = n" using len_word [of "replicate n ()"] by simp
  then show ?thesis by (simp only: sov_varint)
qed

lemma unmarshal_loop_string:
  assumes "length (p @ enc_string num s @ q) < 2 ^ 63" and "0 < num" and "num < 2 ^ 29"
    and "flds (int num) = Some (String_field fn set_field)" and "s = [] \<Longrightarrow> set_field s m = m"
  shows "unmarshal_loop name flds (p @ enc_string num s @ q) (int (length p)) m
    = unmarshal_loop name flds ((p @ enc_string num s) @ q)
        (int (length (p @ enc_string num s))) (set_field s m)"
  using unmarshal_loop_field [of p num "bytes_of_string s" q flds _ m "set_field s m" name] assms
  by (cases "s = []") (simp_all add: enc_string_def)

end
