(* ===== verification/Messages.thy ===== *)
theory Messages
  imports Wire_Codec
begin

text \<open>
  The seven messages of the module on the wire: for each, \<^verbatim>\<open>Size\<close>, \<^verbatim>\<open>MarshalToSizedBuffer\<close>,
  \<^verbatim>\<open>Marshal\<close> and \<^verbatim>\<open>Unmarshal\<close> as in its \<^verbatim>\<open>*.pb.go\<close> file, its reference encoding, and the
  interpretation of the codec contracts of \<^verbatim>\<open>Wire_Codec\<close>. A message that is a Go value inside
  another (\<^verbatim>\<open>Params\<close>) is never nil, nor is the receiver of these methods (for the getters and
  \<^verbatim>\<open>Equal\<close> see \<open>Message_Methods\<close>).
\<close>

section \<open>Sizes\<close>

text \<open>\<open>l = len(s); if l > 0 { n += 1 + l + sov(uint64(l)) }\<close> and \<open>l = x.Size(); n += 1 + l + sov(uint64(l))\<close>\<close>

definition add_string_size :: "int \<Rightarrow> string \<Rightarrow> int" where
  "add_string_size n s =
     (let l = golen s in if l > 0 then wrap64 (n + (1 + l + sov (word_of_int l))) else n)"

definition add_message_size :: "int \<Rightarrow> int \<Rightarrow> int" where
  "add_message_size n l = wrap64 (n + (1 + l + sov (word_of_int l)))"

section \<open>The code of the messages\<close>

subsection \<open>Params\<close>

definition Params_Size :: "params \<Rightarrow> int" where
  "Params_Size m = 0"

definition Params_MarshalToSizedBuffer :: "params \<Rightarrow> bytes \<Rightarrow> (bytes \<times> int) outcome" where
  "Params_MarshalToSizedBuffer m dAtA = (let i = golen dAtA in Ok (dAtA, golen dAtA - i))"

definition Params_Marshal :: "params \<Rightarrow> bytes outcome" where
  "Params_Marshal = marshal_with Params_Size Params_MarshalToSizedBuffer"

definition Params_Unmarshal :: "bytes \<Rightarrow> params \<Rightarrow> params outcome" where
  "Params_Unmarshal dAtA m = unmarshal_message ''Params'' (\<lambda>fieldNum. None) dAtA m"

subsection \<open>GenesisState\<close>

definition GenesisState_Size :: "genesis_state \<Rightarrow> int" where
  "GenesisState_Size m = add_message_size 0 (Params_Size (GenesisState_Params m))"

definition GenesisState_MarshalToSizedBuffer ::
  "genesis_state \<Rightarrow> bytes \<Rightarrow> (bytes \<times> int) outcome" where
  "GenesisState_MarshalToSizedBuffer m dAtA =
     (let i = golen dAtA in
      obind (marshal_message_field Params_MarshalToSizedBuffer 0x0a (GenesisState_Params m) dAtA i)
        (\<lambda>(dAtA, i). Ok (dAtA, golen dAtA - i)))"

definition GenesisState_Marshal :: "genesis_state \<Rightarrow> bytes outcome" where
  "GenesisState_Marshal = marshal_with GenesisState_Size GenesisState_MarshalToSizedBuffer"

text \<open>The cases of \<open>switch fieldNum\<close>.\<close>

definition GenesisState_fields :: "int \<Rightarrow> genesis_state field option" where
  "GenesisState_fields fieldNum =
     (if fieldNum = 1 then Some (Message_field ''Params'' (\<lambda>bs m.
       obind (Params_Unmarshal bs (GenesisState_Params m)) (\<lambda>p. Ok (m\<lparr>GenesisState_Params := p\<rparr>))))
     else None)"

definition GenesisState_Unmarshal :: "bytes \<Rightarrow> genesis_state \<Rightarrow> genesis_state outcome" where
  "GenesisState_Unmarshal dAtA m = unmarshal_message ''GenesisState'' GenesisState_fields dAtA m"

subsection \<open>MsgUpdateParams and its response\<close>

definition MsgUpdateParams_Size :: "msg_update_params \<Rightarrow> int" where
  "MsgUpdateParams_Size m =
     add_message_size (add_string_size 0 (Authority m)) (Params_Size (MsgParams m))"

definition MsgUpdateParams_MarshalToSizedBuffer ::
  "msg_update_params \<Rightarrow> bytes \<Rightarrow> (bytes \<times> int) outcome" where
  "MsgUpdateParams_MarshalToSizedBuffer m dAtA =
     (let i = golen dAtA in
      obind (marshal_message_field Params_MarshalToSizedBuffer 0x12 (MsgParams m) dAtA i)
        (\<lambda>(dAtA, i).
      obind (marshal_string_field 0x0a (Authority m) dAtA i)
        (\<lambda>(dAtA, i). Ok (dAtA, golen dAtA - i))))"

definition MsgUpdateParams_Marshal :: "msg_update_params \<Rightarrow> bytes outcome" where
  "MsgUpdateParams_Marshal = marshal_with MsgUpdateParams_Size MsgUpdateParams_MarshalToSizedBuffer"

text \<open>The cases of \<open>switch fieldNum\<close>.\<close>

definition MsgUpdateParams_fields :: "int \<Rightarrow> msg_update_params field option" where
  "MsgUpdateParams_fields fieldNum =
     (if fieldNum = 1 then Some (String_field ''Authority'' (\<lambda>s m. m\<lparr>Authority := s\<rparr>))
     else if fieldNum = 2 then Some (Message_field ''Params'' (\<lambda>bs m.
       obind (Params_Unmarshal bs (MsgParams m)) (\<lambda>p. Ok (m\<lparr>MsgParams := p\<rparr>))))
     else None)"

definition MsgUpdateParams_Unmarshal :: "bytes \<Rightarrow> msg_update_params \<Rightarrow> msg_update_params outcome" where
  "MsgUpdateParams_Unmarshal dAtA m = unmarshal_message ''MsgUpdateParams'' MsgUpdateParams_fields dAtA m"

definition MsgUpdateParamsResponse_Size :: "msg_update_params_response \<Rightarrow> int" where
  "MsgUpdateParamsResponse_Size m = 0"

definition MsgUpdateParamsResponse_MarshalToSizedBuffer ::
  "msg_update_params_response \<Rightarrow> bytes \<Rightarrow> (bytes \<times> int) outcome" where
  "MsgUpdateParamsResponse_MarshalToSizedBuffer m dAtA =
     (let i = golen dAtA in Ok (dAtA, golen dAtA - i))"

definition MsgUpdateParamsResponse_Marshal :: "msg_update_params_response \<Rightarrow> bytes outcome" where
  "MsgUpdateParamsResponse_Marshal =
     marshal_with MsgUpdateParamsResponse_Size MsgUpdateParamsResponse_MarshalToSizedBuffer"

definition MsgUpdateParamsResponse_Unmarshal ::
  "bytes \<Rightarrow> msg_update_params_response \<Rightarrow> msg_update_params_response outcome" where
  "MsgUpdateParamsResponse_Unmarshal dAtA m =
     unmarshal_message ''MsgUpdateParamsResponse'' (\<lambda>fieldNum. None) dAtA m"

subsection \<open>Module\<close>

definition Module_Size :: "module_config \<Rightarrow> int" where
  "Module_Size m = add_string_size 0 (ConfigAuthority m)"

definition Module_MarshalToSizedBuffer ::
  "module_config \<Rightarrow> bytes \<Rightarrow> (bytes \<times> int) outcome" where
  "Module_MarshalToSizedBuffer m dAtA =
     (let i = golen dAtA in
      obind (marshal_string_field 0x0a (ConfigAuthority m) dAtA i)
        (\<lambda>(dAtA, i). Ok (dAtA, golen dAtA - i)))"

definition Module_Marshal :: "module_config \<Rightarrow> bytes outcome" where
  "Module_Marshal = marshal_with Module_Size Module_MarshalToSizedBuffer"

text \<open>The cases of \<open>switch fieldNum\<close>.\<close>

definition Module_fields :: "int \<Rightarrow> module_config field option" where
  "Module_fields fieldNum =
     (if fieldNum = 1 then Some (String_field ''Authority'' (\<lambda>s m. m\<lparr>ConfigAuthority := s\<rparr>))
     else None)"

definition Module_Unmarshal :: "bytes \<Rightarrow> module_config \<Rightarrow> module_config outcome" where
  "Module_Unmarshal dAtA m = unmarshal_message ''Module'' Module_fields dAtA m"

subsection \<open>QueryParamsRequest and its response\<close>

definition QueryParamsRequest_Size :: "query_params_request \<Rightarrow> int" where
  "QueryParamsRequest_Size m = 0"

definition QueryParamsRequest_MarshalToSizedBuffer ::
  "query_params_request \<Rightarrow> bytes \<Rightarrow> (bytes \<times> int) outcome" where
  "QueryParamsRequest_MarshalToSizedBuffer m dAtA =
     (let i = golen dAtA in Ok (dAtA, golen dAtA - i))"

definition QueryParamsRequest_Marshal :: "query_params_request \<Rightarrow> bytes outcome" where
  "QueryParamsRequest_Marshal =
     marshal_with QueryParamsRequest_Size QueryParamsRequest_MarshalToSizedBuffer"

definition QueryParamsRequest_Unmarshal ::
  "bytes \<Rightarrow> query_params_request \<Rightarrow> query_params_request outcome" where
  "QueryParamsRequest_Unmarshal dAtA m =
     unmarshal_message ''QueryParamsRequest'' (\<lambda>fieldNum. None) dAtA m"

definition QueryParamsResponse_Size :: "query_params_response \<Rightarrow> int" where
  "QueryParamsResponse_Size m = add_message_size 0 (Params_Size (ResponseParams m))"

definition QueryParamsResponse_MarshalToSizedBuffer ::
  "query_params_response \<Rightarrow> bytes \<Rightarrow> (bytes \<times> int) outcome" where
  "QueryParamsResponse_MarshalToSizedBuffer m dAtA =
     (let i = golen dAtA in
      obind (marshal_message_field Params_MarshalToSizedBuffer 0x0a (ResponseParams m) dAtA i)
        (\<lambda>(dAtA, i). Ok (dAtA, golen dAtA - i)))"

definition QueryParamsResponse_Marshal :: "query_params_response \<Rightarrow> bytes outcome" where
  "QueryParamsResponse_Marshal =
     marshal_with QueryParamsResponse_Size QueryParamsResponse_MarshalToSizedBuffer"

text \<open>The cases of \<open>switch fieldNum\<close>.\<close>

definition QueryParamsResponse_fields :: "int \<Rightarrow> query_params_response field option" where
  "QueryParamsResponse_fields fieldNum =
     (if fieldNum = 1 then Some (Message_field ''Params'' (\<lambda>bs m.
       obind (Params_Unmarshal bs (ResponseParams m)) (\<lambda>p. Ok (m\<lparr>ResponseParams := p\<rparr>))))
     else None)"

definition QueryParamsResponse_Unmarshal :: "bytes \<Rightarrow> query_params_response \<Rightarrow> query_params_response outcome" where
  "QueryParamsResponse_Unmarshal dAtA m = unmarshal_message ''QueryParamsResponse'' QueryParamsResponse_fields dAtA m"

section \<open>Empty messages\<close>

text \<open>Three of the messages have no field; their four methods are the same.\<close>

locale empty_message =
  fixes sizeOf :: "'m \<Rightarrow> int"
    and marshalTo :: "'m \<Rightarrow> bytes \<Rightarrow> (bytes \<times> int) outcome"
    and unmarshal :: "bytes \<Rightarrow> 'm \<Rightarrow> 'm outcome"
    and zero :: 'm
    and name :: string
  assumes size_0: "sizeOf m = 0"
    and marshalTo_0: "marshalTo m dAtA = Ok (dAtA, 0)"
    and unmarshal_loop_0: "unmarshal dAtA m = unmarshal_loop name (\<lambda>n. None) dAtA 0 m"
    and one_value: "m = zero"

sublocale empty_message \<subseteq>
  fielded_message sizeOf marshalTo unmarshal zero "\<lambda>m. True" "\<lambda>m. []" name "\<lambda>n. None" "{}"
proof unfold_locales
  fix m :: 'm and p :: bytes
  assume "length (p @ []) < 2 ^ 63"
  then show "unmarshal_loop name (\<lambda>n. None) (p @ []) (int (length p)) zero = Ok m"
    using unmarshal_loop_end [of p] one_value [of m] by simp
qed (simp_all add: size_0 marshalTo_0 unmarshal_loop_0)

interpretation params_codec: empty_message Params_Size Params_MarshalToSizedBuffer
    Params_Unmarshal Params "''Params''"
  by unfold_locales
    (simp_all add: Params_Size_def Params_MarshalToSizedBuffer_def Params_Unmarshal_def
      unmarshal_message_def params_unique)

interpretation response_codec: empty_message MsgUpdateParamsResponse_Size
    MsgUpdateParamsResponse_MarshalToSizedBuffer MsgUpdateParamsResponse_Unmarshal
    MsgUpdateParamsResponse "''MsgUpdateParamsResponse''"
  by unfold_locales
    (simp_all add: MsgUpdateParamsResponse_Size_def MsgUpdateParamsResponse_MarshalToSizedBuffer_def
      MsgUpdateParamsResponse_Unmarshal_def unmarshal_message_def
      msg_update_params_response.nchotomy [rule_format])

interpretation request_codec: empty_message QueryParamsRequest_Size
    QueryParamsRequest_MarshalToSizedBuffer QueryParamsRequest_Unmarshal
    QueryParamsRequest "''QueryParamsRequest''"
  by unfold_locales
    (simp_all add: QueryParamsRequest_Size_def QueryParamsRequest_MarshalToSizedBuffer_def
      QueryParamsRequest_Unmarshal_def unmarshal_message_def
      query_params_request.nchotomy [rule_format])

section \<open>Messages with fields\<close>

text \<open>\<open>Params\<close> embedded in another message is written as an empty field.\<close>

definition enc_genesis :: "genesis_state \<Rightarrow> bytes" where
  "enc_genesis m = enc_field 1 []"

definition enc_query_response :: "query_params_response \<Rightarrow> bytes" where
  "enc_query_response m = enc_field 1 []"

definition enc_update_params :: "msg_update_params \<Rightarrow> bytes" where
  "enc_update_params m = enc_string 1 (Authority m) @ enc_field 2 []"

definition enc_module :: "module_config \<Rightarrow> bytes" where
  "enc_module m = enc_string 1 (ConfigAuthority m)"

definition authority_fits :: "string \<Rightarrow> bool" where
  "authority_fits s \<longleftrightarrow> length s < 2 ^ 62"

lemma length_empty_field: "num \<in> {1, 2} \<Longrightarrow> length (enc_field num []) = 2"
  by (simp add: length_enc_field_1 varint.simps)

lemma length_enc_string_bound: "authority_fits s \<Longrightarrow> length (enc_string 1 s) < 2 ^ 62 + 11"
  using length_enc_field_bound [of 1 "bytes_of_string s"]
  by (simp add: enc_string_def authority_fits_def)

lemma add_string_size_0: "authority_fits s \<Longrightarrow> add_string_size 0 s = int (length (enc_string 1 s))"
proof (cases "s = []")
  case True
  then show ?thesis by (simp add: add_string_size_def enc_string_def)
next
  case False
  assume s: "authority_fits s"
  then have "length (varint (length s)) \<le> 10"
    by (intro length_varint_le) (simp add: authority_fits_def)
  then have "1 + int (length s) + int (length (varint (length s))) < 2 ^ 63"
    using s by (simp add: authority_fits_def)
  then show ?thesis
    using False s length_enc_field_1 [of 1 "bytes_of_string s"] sov_int [of "length s"]
    by (simp add: add_string_size_def enc_string_def authority_fits_def)
qed

lemma add_empty_message_size: "0 \<le> n \<Longrightarrow> n < 2 ^ 62 + 11 \<Longrightarrow> add_message_size n 0 = n + 2"
  using sov_int [of 0] by (simp add: add_message_size_def varint.simps)

lemma marshal_params_field:
  assumes "num \<in> {1, 2}" and "length old = 2" and "length (p @ old) < 2 ^ 63"
  shows "marshal_message_field Params_MarshalToSizedBuffer (if num = 1 then 0x0a else 0x12) x
      (p @ old @ q) (int (length (p @ old)))
    = Ok (p @ enc_field num [] @ q, int (length p))"
proof -
  let ?tag = "(if num = 1 then 0x0a else 0x12) :: byte"
  have e: "enc_len ?tag [] = enc_field num []" using assms(1) by (auto simp: enc_len_field)
  then have "length old = length (enc_len ?tag [])" using assms(1,2) length_empty_field by simp
  from marshal_message_field_correct [OF _ this assms(3), of Params_MarshalToSizedBuffer x q]
  show ?thesis by (simp only: e) (simp add: Params_MarshalToSizedBuffer_def)
qed

lemma Params_Unmarshal_empty: "Params_Unmarshal [] m = Ok Params"
  using params_codec.unmarshal_enc [of Params] params_unique [of m] by simp

lemma Params_Unmarshal_safe: "length bs < 2 ^ 63 \<Longrightarrow> no_crash (Params_Unmarshal bs m)"
  by (rule params_codec.unmarshal_safe)

lemma one_valued:
  "(a :: params) = b" "(g :: genesis_state) = h" "(r :: query_params_response) = r'"
proof -
  show p: "(a :: params) = b" for a b by (cases a; cases b) simp
  show "(g :: genesis_state) = h" by (cases g; cases h) (simp add: p)
  show "(r :: query_params_response) = r'" by (cases r; cases r') (simp add: p)
qed

lemma reads_last_field:
  assumes "length (p @ enc_field num []) < 2 ^ 63" and "0 < num" and "num < 2 ^ 29"
    and "flds (int num) = Some f" and "field_store f [] m = Ok m'"
  shows "unmarshal_loop name flds (p @ enc_field num []) (int (length p)) m = Ok m'"
  using unmarshal_loop_field [of p num "[]" "[]" flds f m m' name] assms
    unmarshal_loop_end [OF assms(1), of name flds m'] by simp

lemma stores_safe_tables:
  assumes "length bs < 2 ^ 63"
  shows "GenesisState_fields n = Some f1 \<Longrightarrow> no_crash (field_store f1 bs m1)"
    and "MsgUpdateParams_fields n = Some f2 \<Longrightarrow> no_crash (field_store f2 bs m2)"
    and "Module_fields n = Some f3 \<Longrightarrow> no_crash (field_store f3 bs m3)"
    and "QueryParamsResponse_fields n = Some f4 \<Longrightarrow> no_crash (field_store f4 bs m4)"
  using assms
  by (auto simp: GenesisState_fields_def MsgUpdateParams_fields_def Module_fields_def
      QueryParamsResponse_fields_def intro!: no_crash_obind Params_Unmarshal_safe split: if_splits)

interpretation genesis_codec: fielded_message GenesisState_Size GenesisState_MarshalToSizedBuffer
    GenesisState_Unmarshal DefaultGenesis "\<lambda>m. True" enc_genesis "''GenesisState''"
    GenesisState_fields "{1}"
proof unfold_locales
  fix m :: genesis_state and p old :: bytes
  show "length (enc_genesis m) < 2 ^ 63" "GenesisState_Size m = int (length (enc_genesis m))"
    using add_empty_message_size [of 0]
    by (simp_all add: enc_genesis_def length_empty_field GenesisState_Size_def Params_Size_def)
  assume "length old = length (enc_genesis m)" "length (p @ old) < 2 ^ 63"
  then show "GenesisState_MarshalToSizedBuffer m (p @ old)
      = Ok (p @ enc_genesis m, int (length (enc_genesis m)))"
    using marshal_params_field [of 1 old p "GenesisState_Params m" "[]"]
    by (simp add: GenesisState_MarshalToSizedBuffer_def enc_genesis_def length_empty_field)
next
  fix m :: genesis_state and p :: bytes
  assume "length (p @ enc_genesis m) < 2 ^ 63"
  then show "unmarshal_loop ''GenesisState'' GenesisState_fields (p @ enc_genesis m)
      (int (length p)) DefaultGenesis = Ok m"
    unfolding enc_genesis_def
    by (rule reads_last_field)
      (simp add: GenesisState_fields_def Params_Unmarshal_empty one_valued)+
qed (simp_all add: GenesisState_Unmarshal_def unmarshal_message_def stores_safe_tables
    GenesisState_fields_def [of "int _"])

interpretation query_response_codec: fielded_message QueryParamsResponse_Size
    QueryParamsResponse_MarshalToSizedBuffer QueryParamsResponse_Unmarshal
    "\<lparr>ResponseParams = Params\<rparr>" "\<lambda>m. True" enc_query_response "''QueryParamsResponse''"
    QueryParamsResponse_fields "{1}"
proof unfold_locales
  fix m :: query_params_response and p old :: bytes
  show "length (enc_query_response m) < 2 ^ 63"
    "QueryParamsResponse_Size m = int (length (enc_query_response m))"
    using add_empty_message_size [of 0]
    by (simp_all add: enc_query_response_def length_empty_field QueryParamsResponse_Size_def
        Params_Size_def)
  assume "length old = length (enc_query_response m)" "length (p @ old) < 2 ^ 63"
  then show "QueryParamsResponse_MarshalToSizedBuffer m (p @ old)
      = Ok (p @ enc_query_response m, int (length (enc_query_response m)))"
    using marshal_params_field [of 1 old p "ResponseParams m" "[]"]
    by (simp add: QueryParamsResponse_MarshalToSizedBuffer_def enc_query_response_def
        length_empty_field)
next
  fix m :: query_params_response and p :: bytes
  assume "length (p @ enc_query_response m) < 2 ^ 63"
  then show "unmarshal_loop ''QueryParamsResponse'' QueryParamsResponse_fields
      (p @ enc_query_response m) (int (length p)) \<lparr>ResponseParams = Params\<rparr> = Ok m"
    unfolding enc_query_response_def
    by (rule reads_last_field)
      (simp add: QueryParamsResponse_fields_def Params_Unmarshal_empty one_valued)+
qed (simp_all add: QueryParamsResponse_Unmarshal_def unmarshal_message_def stores_safe_tables
    QueryParamsResponse_fields_def [of "int _"])

lemma marshal_authority_field:
  assumes "length old = length (enc_string 1 s)" and "length (p @ old) < 2 ^ 63"
  shows "marshal_string_field 0x0a s (p @ old @ q) (int (length (p @ old)))
    = Ok (p @ enc_string 1 s @ q, int (length p))"
  using marshal_string_field_correct [of old s "0x0a" p q] assms
  by (simp add: enc_string_def enc_len_field split: if_splits)

interpretation module_codec: fielded_message Module_Size Module_MarshalToSizedBuffer
    Module_Unmarshal "\<lparr>ConfigAuthority = ''''\<rparr>" "\<lambda>m. authority_fits (ConfigAuthority m)"
    enc_module "''Module''" Module_fields "{1}"
proof unfold_locales
  fix m :: module_config and p old :: bytes
  assume fits: "authority_fits (ConfigAuthority m)"
  then show "length (enc_module m) < 2 ^ 63" "Module_Size m = int (length (enc_module m))"
    using length_enc_string_bound [OF fits] add_string_size_0 [OF fits]
    by (simp_all add: enc_module_def Module_Size_def)
  assume "length old = length (enc_module m)" "length (p @ old) < 2 ^ 63"
  then show "Module_MarshalToSizedBuffer m (p @ old)
      = Ok (p @ enc_module m, int (length (enc_module m)))"
    using marshal_authority_field [of old "ConfigAuthority m" p "[]"]
    by (simp add: Module_MarshalToSizedBuffer_def enc_module_def)
next
  fix m :: module_config and p :: bytes
  assume "length (p @ enc_module m) < 2 ^ 63"
  then show "unmarshal_loop ''Module'' Module_fields (p @ enc_module m) (int (length p))
      \<lparr>ConfigAuthority = ''''\<rparr> = Ok m"
    using unmarshal_loop_string [of p 1 "ConfigAuthority m" "[]" Module_fields _
        "\<lambda>s m. m\<lparr>ConfigAuthority := s\<rparr>"] unmarshal_loop_end [of "p @ enc_module m"]
    by (cases m) (simp add: enc_module_def Module_fields_def)
qed (simp_all add: Module_Unmarshal_def unmarshal_message_def stores_safe_tables
    Module_fields_def [of "int _"])

interpretation update_codec: fielded_message MsgUpdateParams_Size
    MsgUpdateParams_MarshalToSizedBuffer MsgUpdateParams_Unmarshal
    "\<lparr>Authority = '''', MsgParams = Params\<rparr>" "\<lambda>m. authority_fits (Authority m)"
    enc_update_params "''MsgUpdateParams''" MsgUpdateParams_fields "{1, 2}"
proof unfold_locales
  fix m :: msg_update_params and p old :: bytes
  assume fits: "authority_fits (Authority m)"
  note len = length_enc_string_bound [OF fits] length_empty_field [of 2]
  show "length (enc_update_params m) < 2 ^ 63"
    using len by (simp add: enc_update_params_def)
  have "int (length (enc_string 1 (Authority m))) < int (2 ^ 62 + 11)"
    using len by (simp only: of_nat_less_iff)
  then show "MsgUpdateParams_Size m = int (length (enc_update_params m))"
    using len add_string_size_0 [OF fits] add_empty_message_size
    by (simp add: enc_update_params_def MsgUpdateParams_Size_def Params_Size_def)
  assume old: "length old = length (enc_update_params m)" "length (p @ old) < 2 ^ 63"
  define a where "a = take (length (enc_string 1 (Authority m))) old"
  define b where "b = drop (length (enc_string 1 (Authority m))) old"
  have ab: "old = a @ b" "length a = length (enc_string 1 (Authority m))" "length b = 2"
    using old(1) len by (simp_all add: a_def b_def enc_update_params_def)
  have "marshal_message_field Params_MarshalToSizedBuffer 0x12 (MsgParams m) (p @ old)
      (int (length (p @ old))) = Ok (p @ a @ enc_field 2 [], int (length (p @ a)))"
    using marshal_params_field [of 2 b "p @ a" "MsgParams m" "[]"] ab old(2) by simp
  then show "MsgUpdateParams_MarshalToSizedBuffer m (p @ old)
      = Ok (p @ enc_update_params m, int (length (enc_update_params m)))"
    using marshal_authority_field [of a "Authority m" p "enc_field 2 []"] ab old(2) len
    by (simp add: MsgUpdateParams_MarshalToSizedBuffer_def enc_update_params_def)
next
  fix m :: msg_update_params and p :: bytes
  let ?z = "\<lparr>Authority = '''', MsgParams = Params\<rparr>" and ?a = "enc_string 1 (Authority m)"
  assume len: "length (p @ enc_update_params m) < 2 ^ 63"
  have "unmarshal_loop ''MsgUpdateParams'' MsgUpdateParams_fields (p @ ?a @ enc_field 2 [])
      (int (length p)) ?z
    = unmarshal_loop ''MsgUpdateParams'' MsgUpdateParams_fields ((p @ ?a) @ enc_field 2 [])
      (int (length (p @ ?a))) \<lparr>Authority = Authority m, MsgParams = Params\<rparr>"
    using unmarshal_loop_string [of p 1 "Authority m" "enc_field 2 []" MsgUpdateParams_fields
        _ "\<lambda>s m. m\<lparr>Authority := s\<rparr>" ?z] len
    by (simp add: enc_update_params_def MsgUpdateParams_fields_def)
  also have "\<dots> = Ok \<lparr>Authority = Authority m, MsgParams = Params\<rparr>"
    by (rule reads_last_field)
      (use len in \<open>simp add: enc_update_params_def MsgUpdateParams_fields_def Params_Unmarshal_empty\<close>)+
  also have "\<lparr>Authority = Authority m, MsgParams = Params\<rparr> = m"
    by (cases m) (simp add: one_valued)
  finally show "unmarshal_loop ''MsgUpdateParams'' MsgUpdateParams_fields (p @ enc_update_params m)
      (int (length p)) ?z = Ok m" by (simp add: enc_update_params_def)
qed (simp_all add: MsgUpdateParams_Unmarshal_def unmarshal_message_def stores_safe_tables
    MsgUpdateParams_fields_def [of "int _"])

section \<open>Properties\<close>

text \<open>
  C7: Marshalling a \<^verbatim>\<open>MsgUpdateParams\<close> and unmarshalling the bytes into a fresh message gives
  the message back, for every authority string that fits in memory: no error, no panic.
\<close>

theorem update_params_wire_roundtrip:
  assumes "length (Authority m) < 2 ^ 62"
  shows "obind (MsgUpdateParams_Marshal m)
      (\<lambda>bs. MsgUpdateParams_Unmarshal bs \<lparr>Authority = '''', MsgParams = Params\<rparr>) = Ok m"
  using update_codec.roundtrip [of m] assms
  by (simp add: MsgUpdateParams_Marshal_def authority_fits_def)

theorem update_params_wire_roundtrip_witness:
  "obind (MsgUpdateParams_Marshal \<lparr>Authority = ''cosmos1gov'', MsgParams = Params\<rparr>)
      (\<lambda>bs. MsgUpdateParams_Unmarshal bs \<lparr>Authority = '''', MsgParams = Params\<rparr>)
    = Ok \<lparr>Authority = ''cosmos1gov'', MsgParams = Params\<rparr>"
  using update_params_wire_roundtrip [of "\<lparr>Authority = ''cosmos1gov'', MsgParams = Params\<rparr>"] by simp

text \<open>
  C25: A field the message does not know, of any wire type and with groups nested to any depth,
  put before the bytes of a marshalled \<^verbatim>\<open>MsgUpdateParams\<close> is stepped over: the same message is
  read (this is \<^verbatim>\<open>skipTx\<close> inside the decoder).
\<close>

theorem update_params_skips_unknown_fields:
  assumes "length (Authority m) < 2 ^ 62" and "0 < num" and "num \<noteq> 1" and "num \<noteq> 2"
    and "wf_wire num v" and "length (enc_wire num v) < 2 ^ 61"
  shows "obind (MsgUpdateParams_Marshal m) (\<lambda>bs. MsgUpdateParams_Unmarshal (enc_wire num v @ bs)
      \<lparr>Authority = '''', MsgParams = Params\<rparr>) = Ok m"

proof -
  have f: "authority_fits (Authority m)" using assms(1) by (simp add: authority_fits_def)
  have "length (enc_wire num v @ enc_update_params m) < 2 ^ 63"
    using length_enc_string_bound [OF f] length_empty_field [of 2] assms(6)
    by (simp add: enc_update_params_def)
  then show ?thesis
    using update_codec.extended_roundtrip [OF f assms(2) _ assms(5)] assms(3,4)
    by (simp add: MsgUpdateParams_Marshal_def)
qed

theorem update_params_skips_unknown_fields_witness:
  "obind (MsgUpdateParams_Marshal \<lparr>Authority = ''gov'', MsgParams = Params\<rparr>)
      (\<lambda>bs. MsgUpdateParams_Unmarshal
        (enc_wire 7 (Group_value [(3, Varint_value 300), (1, Group_value [])]) @ bs)
        \<lparr>Authority = '''', MsgParams = Params\<rparr>)
    = Ok \<lparr>Authority = ''gov'', MsgParams = Params\<rparr>"
  using update_params_skips_unknown_fields [of "\<lparr>Authority = ''gov'', MsgParams = Params\<rparr>" 7
      "Group_value [(3, Varint_value 300), (1, Group_value [])]"]
  by (simp add: enc_tag_def varint.simps)

text \<open>
  C14: On arbitrary bytes the decoders of the seven messages return a message or an error: no
  index and no slice is out of range, whatever lengths the bytes claim.
\<close>

theorem decoders_never_panic:
  assumes "length bs < 2 ^ 63"
  shows "no_crash (Params_Unmarshal bs a) \<and> no_crash (GenesisState_Unmarshal bs b)
    \<and> no_crash (MsgUpdateParams_Unmarshal bs c) \<and> no_crash (MsgUpdateParamsResponse_Unmarshal bs d)
    \<and> no_crash (Module_Unmarshal bs e) \<and> no_crash (QueryParamsRequest_Unmarshal bs f)
    \<and> no_crash (QueryParamsResponse_Unmarshal bs g)"
  using assms params_codec.unmarshal_safe genesis_codec.unmarshal_safe update_codec.unmarshal_safe
    response_codec.unmarshal_safe module_codec.unmarshal_safe request_codec.unmarshal_safe
    query_response_codec.unmarshal_safe by blast

theorem decoders_never_panic_witness:
  "no_crash (MsgUpdateParams_Unmarshal [0x0a, 0xff, 0xff, 0xff, 0xff, 0xff, 0xff, 0xff, 0xff, 0x7f]
     \<lparr>Authority = '''', MsgParams = Params\<rparr>)"
  using decoders_never_panic [of "[0x0a, 0xff, 0xff, 0xff, 0xff, 0xff, 0xff, 0xff, 0xff, 0x7f]"
      _ _ "\<lparr>Authority = '''', MsgParams = Params\<rparr>"] by simp

text \<open>
  \<^verbatim>\<open>Size\<close> is exact: \<^verbatim>\<open>Marshal\<close> of a \<^verbatim>\<open>MsgUpdateParams\<close> returns exactly that many bytes, so the
  buffer made for it is filled and never overrun.
\<close>

theorem update_params_size_exact:
  assumes "length (Authority m) < 2 ^ 62"
  shows "\<exists>bs. MsgUpdateParams_Marshal m = Ok bs \<and> MsgUpdateParams_Size m = int (length bs)"
  using update_codec.marshal_enc [of m] update_codec.enc_size [of m] assms
  by (simp add: MsgUpdateParams_Marshal_def authority_fits_def)

theorem update_params_size_exact_witness:
  "\<exists>bs. MsgUpdateParams_Marshal \<lparr>Authority = ''gov'', MsgParams = Params\<rparr> = Ok bs
    \<and> MsgUpdateParams_Size \<lparr>Authority = ''gov'', MsgParams = Params\<rparr> = int (length bs)"
  using update_params_size_exact [of "\<lparr>Authority = ''gov'', MsgParams = Params\<rparr>"] by simp

text \<open>
  The module's configuration message (its \<^verbatim>\<open>authority\<close>) survives marshalling and
  unmarshalling, and two configurations with the same bytes are equal.
\<close>

theorem module_config_wire_roundtrip:
  assumes "length (ConfigAuthority m) < 2 ^ 62" and "length (ConfigAuthority m') < 2 ^ 62"
  shows "obind (Module_Marshal m) (\<lambda>bs. Module_Unmarshal bs \<lparr>ConfigAuthority = ''''\<rparr>) = Ok m
    \<and> (Module_Marshal m = Module_Marshal m' \<longrightarrow> m = m')"
  using module_codec.roundtrip [of m] module_codec.marshal_inj [of m m'] assms
  by (simp add: Module_Marshal_def authority_fits_def)

theorem module_config_wire_roundtrip_witness:
  "obind (Module_Marshal \<lparr>ConfigAuthority = ''gov''\<rparr>)
      (\<lambda>bs. Module_Unmarshal bs \<lparr>ConfigAuthority = ''''\<rparr>) = Ok \<lparr>ConfigAuthority = ''gov''\<rparr>
    \<and> Module_Marshal \<lparr>ConfigAuthority = ''gov''\<rparr> \<noteq> Module_Marshal \<lparr>ConfigAuthority = ''mint''\<rparr>"
  using module_config_wire_roundtrip [of "\<lparr>ConfigAuthority = ''gov''\<rparr>" "\<lparr>ConfigAuthority = ''mint''\<rparr>"]
  by auto

text \<open>
  What \<^verbatim>\<open>encodeVarint\<close> writes is read back by the varint loop: for every 64-bit value,
  wherever in the buffer it ends, the value returns, the index stops right behind it, and the
  bytes around it are untouched.
\<close>

theorem varint_roundtrip:
  assumes "length old = length (varint (unat v))" and "length (p @ old @ q) < 2 ^ 63"
  shows "\<exists>dAtA. encodeVarint (p @ old @ q) (int (length (p @ old))) v = Ok (dAtA, int (length p))
    \<and> length dAtA = length (p @ old @ q)
    \<and> take (length p) dAtA = p \<and> drop (length (p @ old)) dAtA = q
    \<and> read_varint dAtA 0 (int (length p)) 0 = Ok (v, int (length (p @ old)))"
proof -
  have "unat v < 2 ^ 64" using unsigned_less [of v, where ?'a = nat] by simp
  then have "read_varint (p @ varint (unat v) @ q) 0 (int (length p)) 0
      = Ok (v, int (length p + length (varint (unat v))))"
    using read_varint_0 [of "unat v" p q] assms by simp
  then show ?thesis using encodeVarint_correct [OF assms(1), of p q] assms(1) by simp
qed

theorem varint_roundtrip_witness:
  "\<exists>dAtA. encodeVarint [9, 0, 0, 8] 3 300 = Ok (dAtA, 1) \<and> read_varint dAtA 0 1 0 = Ok (300, 3)"
  using varint_roundtrip [of "[0, 0]" 300 "[9]" "[8]"] by (auto simp: varint.simps)

text \<open>
  The genesis state and the query response survive the wire, and so do the three messages
  without fields.
\<close>

theorem fixed_messages_wire_roundtrip:
  "obind (GenesisState_Marshal g) (\<lambda>bs. GenesisState_Unmarshal bs DefaultGenesis) = Ok g
   \<and> obind (QueryParamsResponse_Marshal r)
       (\<lambda>bs. QueryParamsResponse_Unmarshal bs \<lparr>ResponseParams = Params\<rparr>) = Ok r
   \<and> obind (Params_Marshal a) (\<lambda>bs. Params_Unmarshal bs Params) = Ok a
   \<and> obind (QueryParamsRequest_Marshal q)
       (\<lambda>bs. QueryParamsRequest_Unmarshal bs QueryParamsRequest) = Ok q
   \<and> obind (MsgUpdateParamsResponse_Marshal u)
       (\<lambda>bs. MsgUpdateParamsResponse_Unmarshal bs MsgUpdateParamsResponse) = Ok u"
  using genesis_codec.roundtrip [of g] query_response_codec.roundtrip [of r]
    params_codec.roundtrip [of a] request_codec.roundtrip [of q] response_codec.roundtrip [of u]
  by (simp add: GenesisState_Marshal_def QueryParamsResponse_Marshal_def Params_Marshal_def
      QueryParamsRequest_Marshal_def MsgUpdateParamsResponse_Marshal_def)

end
