(* ===== verification/Wire_Loops.thy ===== *)
theory Wire_Loops
  imports Messages "HOL-Library.While_Combinator"
begin

text \<open>
  The three loops of the generated decoders as Go runs them: a state of local variables, a body
  that goes on with a new state or leaves the function, and \<open>while_option\<close>, which gives
  \<open>None\<close> when a loop does not end. Each of them ends after at most as many rounds as there are
  bytes left, with the value of the recursive definition of \<open>Wire\<close>; so the decoders return on
  every input, and what they return is well formed.
\<close>

section \<open>Loops with early return\<close>

datatype ('s, 'r) control = Running (state: 's) | Returned (result: 'r)

definition round :: "('s \<Rightarrow> ('s, 'r) control) \<Rightarrow> ('s, 'r) control \<Rightarrow> ('s, 'r) control" where
  "round body c = (case c of Running s \<Rightarrow> body s | Returned r \<Rightarrow> Returned r)"

definition is_running :: "('s, 'r) control \<Rightarrow> bool" where
  "is_running c = (case c of Running _ \<Rightarrow> True | Returned _ \<Rightarrow> False)"

definition go_for :: "('s \<Rightarrow> ('s, 'r) control) \<Rightarrow> 's \<Rightarrow> 'r option" where
  "go_for body s = map_option result (while_option is_running (round body) (Running s))"

lemma round_simps [simp]:
  "round body (Running s) = body s" "round body (Returned r) = Returned r"
  "is_running (Running s)" "\<not> is_running (Returned r)"
  by (simp_all add: round_def is_running_def)

lemma go_for_unfold:
  "go_for body s = (case body s of Running s' \<Rightarrow> go_for body s' | Returned r \<Rightarrow> Some r)"
  by (auto simp: go_for_def while_option_unfold [of _ _ "Running s"]
      while_option_unfold [of _ _ "Returned _"] split: control.split)

lemma returned_stays: "(round body ^^ k) (Returned r) = Returned r"
  by (induction k) simp_all

text \<open>
  What a loop needs for its recursive reading \<open>f\<close>: one round unfolds \<open>f\<close>, and every round that
  goes on uses up some of the budget.
\<close>

locale go_loop =
  fixes body :: "'s \<Rightarrow> ('s, 'r) control"
    and f :: "'s \<Rightarrow> 'r"
    and budget :: "'s \<Rightarrow> nat"
  assumes returns: "body s = Returned r \<Longrightarrow> f s = r"
    and continues: "body s = Running s' \<Longrightarrow> f s = f s'"
    and decreases: "body s = Running s' \<Longrightarrow> budget s' < budget s"
begin

lemma ends_with: "go_for body s = Some (f s)"
proof (induction "budget s" arbitrary: s rule: less_induct)
  case less
  then show ?case
    using returns continues decreases
    by (cases "body s") (simp_all add: go_for_unfold [of body s])
qed

lemma ends_within: "(round body ^^ Suc (budget s)) (Running s) = Returned (f s)"
proof (induction "budget s" arbitrary: s rule: less_induct)
  case less
  show ?case
  proof (cases "body s")
    case (Running s')
    then have b: "budget s' < budget s" by (rule decreases)
    then obtain k where k: "budget s = k + Suc (budget s')" by (metis add.commute add_Suc_right less_imp_Suc_add)
    have "(round body ^^ Suc (budget s)) (Running s) = (round body ^^ budget s) (Running s')"
      using Running by (simp only: funpow_Suc_right comp_def round_simps)
    also have "\<dots> = (round body ^^ k) (Returned (f s'))"
      using less [OF b] by (simp only: k funpow_add comp_def)
    finally show ?thesis by (simp add: returned_stays continues [OF Running])
  next
    case (Returned r)
    then show ?thesis by (simp only: funpow_Suc_right comp_def round_simps returned_stays returns)
  qed
qed

lemma ends_by: "budget s \<le> n \<Longrightarrow> (round body ^^ Suc n) (Running s) = Returned (f s)"
  using ends_within [of s] funpow_add [of "n - budget s" "Suc (budget s)" "round body"]
  by (simp del: funpow.simps add: returned_stays)

end

text \<open>A call inside a round: what is not \<open>Ok\<close> leaves the function.\<close>

fun call :: "'a outcome \<Rightarrow> ('a \<Rightarrow> ('s, 'b outcome) control) \<Rightarrow> ('s, 'b outcome) control" where
  "call (Ok x) k = k x"
| "call (Err e) k = Returned (Err e)"
| "call (Panic e) k = Returned (Panic e)"
| "call (Exit c) k = Returned (Exit c)"

lemma call_Running: "call r k = Running s \<longleftrightarrow> (\<exists>x. r = Ok x \<and> k x = Running s)"
  by (cases r) auto

section \<open>The loops\<close>

text \<open>\<open>for shift := uint(0); ; shift += 7\<close>, over \<open>shift\<close>, \<open>iNdEx\<close> and the value read so far\<close>

definition varint_body ::
  "bytes \<Rightarrow> nat \<times> int \<times> 64 word \<Rightarrow> (nat \<times> int \<times> 64 word, (64 word \<times> int) outcome) control" where
  "varint_body dAtA = (\<lambda>(shift, iNdEx, wire).
     if 64 \<le> shift then Returned (Err ErrIntOverflow)
     else if golen dAtA \<le> iNdEx then Returned (Err ErrUnexpectedEOF)
     else call (get_at dAtA iNdEx) (\<lambda>b.
       let iNdEx = iNdEx + 1; wire = wire OR push_bit shift (ucast (b AND 0x7F)) in
       if b < 0x80 then Returned (Ok (wire, iNdEx)) else Running (shift + 7, iNdEx, wire)))"

text \<open>\<open>for iNdEx < l\<close> of the skipping function, over \<open>iNdEx\<close> and \<open>depth\<close>\<close>

definition skip_body :: "bytes \<Rightarrow> int \<times> int \<Rightarrow> (int \<times> int, int outcome) control" where
  "skip_body dAtA = (\<lambda>(iNdEx, depth).
     if \<not> iNdEx < golen dAtA then Returned (Err ErrUnexpectedEOF)
     else call (read_varint dAtA 0 iNdEx 0) (\<lambda>(wire, iNdEx).
       call (skip_field dAtA (uint (wire AND 0x7)) iNdEx depth) (\<lambda>(iNdEx, depth).
       if iNdEx < 0 then Returned (Err ErrInvalidLength)
       else if depth = 0 then Returned (Ok iNdEx)
       else Running (iNdEx, depth))))"

text \<open>\<open>for iNdEx < l\<close> of \<^verbatim>\<open>Unmarshal\<close>, over \<open>iNdEx\<close> and the message, with the check behind it\<close>

definition unmarshal_body ::
  "string \<Rightarrow> (int \<Rightarrow> 'm field option) \<Rightarrow> bytes \<Rightarrow> int \<times> 'm \<Rightarrow> (int \<times> 'm, 'm outcome) control" where
  "unmarshal_body name flds dAtA = (\<lambda>(iNdEx, m).
     if \<not> iNdEx < golen dAtA then
       Returned (if golen dAtA < iNdEx then Err ErrUnexpectedEOF else Ok m)
     else let preIndex = iNdEx in call (read_varint dAtA 0 iNdEx 0) (\<lambda>(wire, iNdEx).
       let fieldNum = tag_field wire; wireType = tag_type wire in
       if wireType = 4 then
         Returned (Err (Error_text (''proto: '' @ name @ '': wiretype end group for non-group'')))
       else if fieldNum \<le> 0 then
         Returned (Err (Error_text (''proto: '' @ name @ '': illegal tag '' @ Itoa fieldNum @
           '' (wire type '' @ Itoa (uint wire) @ '')'')))
       else call (unmarshal_field flds dAtA preIndex fieldNum wireType iNdEx m)
         (\<lambda>(m, iNdEx). Running (iNdEx, m))))"

interpretation varint_for: go_loop "varint_body dAtA" "\<lambda>(shift, i, acc). read_varint dAtA shift i acc"
    "\<lambda>(shift, i, acc). (70 - shift) div 7"
proof unfold_locales
  fix s s' :: "nat \<times> int \<times> 64 word" and r
  obtain shift i acc where s: "s = (shift, i, acc)" by (cases s)
  show "(case s of (shift, i, acc) \<Rightarrow> read_varint dAtA shift i acc) = r"
    if "varint_body dAtA s = Returned r"
    using that unfolding s prod.case
    by (subst read_varint.simps, cases "get_at dAtA i") (auto simp: varint_body_def Let_def split: if_splits)
  assume c: "varint_body dAtA s = Running s'"
  then show "(case s of (shift, i, acc) \<Rightarrow> read_varint dAtA shift i acc)
      = (case s' of (shift, i, acc) \<Rightarrow> read_varint dAtA shift i acc)"
    unfolding s prod.case
    by (subst read_varint.simps) (auto simp: varint_body_def call_Running Let_def split: if_splits)
  show "(case s' of (shift, i, acc) \<Rightarrow> (70 - shift) div 7) < (case s of (shift, i, acc) \<Rightarrow> (70 - shift) div 7)"
    using c unfolding s by (auto simp: varint_body_def call_Running Let_def split: if_splits)
qed

interpretation skip_for: go_loop "skip_body dAtA" "\<lambda>(i, depth). skip_loop dAtA i depth"
    "\<lambda>(i, depth). nat (golen dAtA - i)"
proof unfold_locales
  fix s s' :: "int \<times> int" and r
  obtain i depth where s: "s = (i, depth)" by (cases s)
  show "(case s of (i, depth) \<Rightarrow> skip_loop dAtA i depth) = r" if "skip_body dAtA s = Returned r"
  proof (cases "read_varint dAtA 0 i 0")
    case (Ok x)
    then show ?thesis
      using that unfolding s prod.case
      by (subst skip_loop.simps, cases "skip_field dAtA (uint (fst x AND 7)) (snd x) depth")
        (auto simp: skip_body_def split: if_splits prod.splits)
  qed (use that in \<open>auto simp: s skip_body_def skip_loop.simps [of dAtA i depth] split: if_splits\<close>)
  assume c: "skip_body dAtA s = Running s'"
  then obtain wire j k depth' where b: "i < golen dAtA" "read_varint dAtA 0 i 0 = Ok (wire, j)"
      "skip_field dAtA (uint (wire AND 0x7)) j depth = Ok (k, depth')" "\<not> k < 0" "depth' \<noteq> 0"
      "s' = (k, depth')"
    by (auto simp: s skip_body_def call_Running split: if_splits)
  then show "(case s of (i, depth) \<Rightarrow> skip_loop dAtA i depth) = (case s' of (i, depth) \<Rightarrow> skip_loop dAtA i depth)"
    unfolding s prod.case by (subst skip_loop.simps) simp
  have "0 \<le> i" "i < j" "j < 2 ^ 63"
    using read_varint_index [OF b(2)] golen_less [of dAtA] by auto
  with skip_field_index [OF b(3)] b(4) have "i < k" by auto
  with b(1) show "(case s' of (i, depth) \<Rightarrow> nat (golen dAtA - i)) < (case s of (i, depth) \<Rightarrow> nat (golen dAtA - i))"
    by (simp add: s b(6))
qed

interpretation unmarshal_for: go_loop "unmarshal_body name flds dAtA"
    "\<lambda>(i, m). unmarshal_loop name flds dAtA i m" "\<lambda>(i, m). nat (golen dAtA - i)"
  for name :: string and flds :: "int \<Rightarrow> 'm field option" and dAtA
proof unfold_locales
  fix s s' :: "int \<times> 'm" and r
  obtain i m where s: "s = (i, m)" by (cases s)
  show "(case s of (i, m) \<Rightarrow> unmarshal_loop name flds dAtA i m) = r"
    if "unmarshal_body name flds dAtA s = Returned r"
  proof (cases "read_varint dAtA 0 i 0")
    case (Ok x)
    then show ?thesis
      using that unfolding s prod.case
      by (subst unmarshal_loop.simps,
          cases "unmarshal_field flds dAtA i (tag_field (fst x)) (tag_type (fst x)) (snd x) m")
        (auto simp: unmarshal_body_def Let_def split: if_splits prod.splits)
  qed (use that in \<open>auto simp: s unmarshal_body_def unmarshal_loop.simps [of name flds dAtA i m]
      split: if_splits\<close>)
  assume c: "unmarshal_body name flds dAtA s = Running s'"
  then obtain wire j m' k where b: "i < golen dAtA" "read_varint dAtA 0 i 0 = Ok (wire, j)"
      "tag_type wire \<noteq> 4" "\<not> tag_field wire \<le> 0"
      "unmarshal_field flds dAtA i (tag_field wire) (tag_type wire) j m = Ok (m', k)" "s' = (k, m')"
    by (auto simp: s unmarshal_body_def call_Running Let_def split: if_splits)
  then show "(case s of (i, m) \<Rightarrow> unmarshal_loop name flds dAtA i m)
      = (case s' of (i, m) \<Rightarrow> unmarshal_loop name flds dAtA i m)"
    unfolding s prod.case by (subst unmarshal_loop.simps) (simp add: Let_def)
  have "i < k"
    using unmarshal_field_index [OF b(5)] read_varint_index [OF b(2)] golen_less [of dAtA] b(1) by auto
  with b(1) show "(case s' of (i, m) \<Rightarrow> nat (golen dAtA - i)) < (case s of (i, m) \<Rightarrow> nat (golen dAtA - i))"
    by (simp add: s b(6))
qed

lemma golen_le_length: "nat (golen xs) \<le> length xs"
  using zmod_le_nonneg_dividend [of "int (length xs) + 2 ^ 63" "2 ^ 64"]
  by (simp add: golen_def wrap64_def del: of_nat_add)

text \<open>
  C17: The tagged fields of a message are read in at most one round a byte, and so are the members of
  a skipped group; a varint in at most eleven: the loops of the decoders end on every input, with
  the value of their recursive definitions.
\<close>

theorem decoding_loops_return:
  "go_for (unmarshal_body name flds dAtA) (0, m) = Some (unmarshal_message name flds dAtA m)
   \<and> go_for (skip_body dAtA) (0, 0) = Some (skip dAtA)
   \<and> go_for (varint_body dAtA) (0, i, 0) = Some (read_varint dAtA 0 i 0)
   \<and> (round (unmarshal_body name flds dAtA) ^^ Suc (length dAtA)) (Running (0, m))
       = Returned (unmarshal_message name flds dAtA m)
   \<and> (round (skip_body dAtA) ^^ Suc (length dAtA)) (Running (0, 0)) = Returned (skip dAtA)
   \<and> (round (varint_body dAtA) ^^ 11) (Running (0, i, 0)) = Returned (read_varint dAtA 0 i 0)"
  using unmarshal_for.ends_with [of name flds dAtA "(0, m)"] skip_for.ends_with [of dAtA "(0, 0)"]
    varint_for.ends_with [of dAtA "(0, i, 0)"]
    unmarshal_for.ends_by [where s = "(0, m)" and n = "length dAtA" and dAtA = dAtA and name = name and flds = flds]
    skip_for.ends_by [where s = "(0, 0)" and n = "length dAtA" and dAtA = dAtA]
    varint_for.ends_by [where s = "(0, i, 0)" and n = 10 and dAtA = dAtA] golen_le_length [of dAtA]
  by (simp add: unmarshal_message_def skip_def del: funpow.simps)

end
