(* ===== verification/Wire_Canonical.thy ===== *)
theory Wire_Canonical
  imports Wire_Loops
begin

text \<open>
  What the decoders return is well typed: the strings of a decoded message fit in memory, so it
  can be encoded again; the encoding is the canonical one, it decodes to the same message, and it
  is not longer than the bytes the message came from, up to the two bytes of the parameters,
  which the encoder always writes.
\<close>

section \<open>The canonical varint is the shortest\<close>

lemma or_bound:
  fixes a b :: "64 word"
  assumes "unat a < 2 ^ k" and "unat b < 2 ^ k"
  shows "unat (a OR b) < 2 ^ k"
proof -
  have "take_bit k (unat a OR unat b) = unat a OR unat b"
    using assms by (simp add: take_bit_nat_eq_self)
  then have "unat a OR unat b < 2 ^ k" by (simp only: take_bit_nat_eq_self_iff)
  then show ?thesis by (simp only: unsigned_or_eq)
qed

lemma shifted_byte_bound: "unat (push_bit s (ucast (b AND 0x7F)) :: 64 word) < 2 ^ (s + 7)"
  for b :: byte
proof -
  have "unat (b AND 0x7F) = unat b mod 128" by (simp add: unsigned_and_eq and_127)
  then have "unat (ucast (b AND 0x7F) :: 64 word) < 128"
    using unsigned_less [of b, where ?'a = nat] by (simp add: unsigned_ucast_eq take_bit_nat_eq_self)
  then have "push_bit s (unat (ucast (b AND 0x7F) :: 64 word)) < 2 ^ (s + 7)"
    by (simp add: push_bit_eq_mult power_add)
  then show ?thesis
    by (simp add: unsigned_push_bit_eq) (meson le_less_trans take_bit_nat_less_eq_self)
qed

lemma read_varint_bound:
  assumes "read_varint dAtA s i a = Ok (v, j)" and "unat a < 2 ^ s"
  shows "unat v < 2 ^ (s + 7 * nat (j - i))"
  using assms
proof (induction dAtA s i a rule: read_varint.induct)
  case (1 dAtA s i a)
  from "1.prems"(1) obtain b where b: "\<not> 64 \<le> s" "\<not> golen dAtA \<le> i" "get_at dAtA i = Ok b"
    and r: "(if b < 0x80 then Ok (a OR push_bit s (ucast (b AND 0x7F)), i + 1)
             else read_varint dAtA (s + 7) (i + 1) (a OR push_bit s (ucast (b AND 0x7F)))) = Ok (v, j)"
    by (subst (asm) read_varint.simps) (auto simp: obind_eq_Ok Let_def split: if_splits)
  have "unat a < 2 ^ (s + 7)" using "1.prems"(2) by (rule less_le_trans) simp
  then have w: "unat (a OR push_bit s (ucast (b AND 0x7F))) < 2 ^ (s + 7)"
    using shifted_byte_bound by (rule or_bound)
  show ?case
  proof (cases "b < 0x80")
    case True
    with r w show ?thesis by auto
  next
    case False
    with r have r': "read_varint dAtA (s + 7) (i + 1) (a OR push_bit s (ucast (b AND 0x7F))) = Ok (v, j)"
      by simp
    have "i + 1 < j" using read_varint_index [OF r'] by simp
    then have "nat (j - i) = Suc (nat (j - (i + 1)))" by simp
    with "1.IH" [OF b refl False r' w] show ?thesis by (simp add: add.assoc)
  qed
qed

lemma length_varint_small: "0 < k \<Longrightarrow> n < 2 ^ (7 * k) \<Longrightarrow> length (varint n) \<le> k"
  using bit_len_small [of n "7 * k"] by (cases "n = 0") (auto simp: length_varint_bits varint.simps [of 0])

lemma varint_shortest:
  assumes "read_varint dAtA 0 i 0 = Ok (v, j)"
  shows "int (length (varint (unat v))) \<le> j - i"
proof -
  have "i < j" using read_varint_index [OF assms] by simp
  with length_varint_small [of "nat (j - i)" "unat v"] read_varint_bound [OF assms] show ?thesis by simp
qed

section \<open>What a field may bring into a message\<close>

lemma unat_nonneg: "0 \<le> sint (v :: 64 word) \<Longrightarrow> int (unat v) = sint v"
  using sint_range64(2) [of v] by (simp add: uint_sint take_bit_int_eq_self)

lemma unmarshal_known_stores:
  assumes "unmarshal_known f dAtA wt i m = Ok (m', k)"
  obtains bs where "field_store f bs m = Ok m'"
    and "i + int (length (varint (length bs)) + length bs) \<le> k"
proof -
  from assms obtain v j bs where r: "read_varint dAtA 0 i 0 = Ok (v, j)" "0 \<le> sint v"
    and k: "k = wrap64 (j + sint v)" "0 \<le> k" and bs: "slice dAtA j k = Ok bs" "field_store f bs m = Ok m'"
    by (auto simp: unmarshal_known_def obind_eq_Ok Let_def split: if_splits)
  have "k = j + sint v"
    using k read_varint_index [OF r(1)] r(2) golen_less [of dAtA] sint_range64(2) [of v]
      wrap64_sum [of j "sint v"] by (auto split: if_splits)
  moreover have "int (length bs) = k - j" using bs(1) by (auto simp: slice_def split: if_splits)
  ultimately have l: "int (length bs) = sint v" by simp
  then have "length bs = unat v" using unat_nonneg [OF r(2)] by (simp only: flip: of_nat_eq_iff [where ?'a = int])
  with varint_shortest [OF r(1)] l \<open>k = j + sint v\<close> that [OF bs(2)] show ?thesis by simp
qed

text \<open>
  An invariant of the field loop over the bytes consumed and the message: it need only be kept by
  consuming more and by the fields the message knows.
\<close>

lemma unmarshal_loop_invariant:
  assumes more: "\<And>i j m. I i m \<Longrightarrow> i \<le> j \<Longrightarrow> I j m"
    and known: "\<And>i k n f bs m m'. I i m \<Longrightarrow> flds n = Some f \<Longrightarrow> field_store f bs m = Ok m' \<Longrightarrow>
      i + 1 + int (length (varint (length bs)) + length bs) \<le> k \<Longrightarrow> I k m'"
  shows "unmarshal_loop name flds dAtA i m = Ok m' \<Longrightarrow> I i m \<Longrightarrow> I (golen dAtA) m'"
  using assms
proof (induction name flds dAtA i m rule: unmarshal_loop.induct)
  case (1 name flds dAtA i m)
  show ?case
  proof (cases "i < golen dAtA")
    case False
    with "1.prems"(1) have "i = golen dAtA" "m' = m"
      by (auto simp: unmarshal_loop.simps [of name flds dAtA i m] split: if_splits)
    with "1.prems"(2) show ?thesis by simp
  next
    case True
    with "1.prems"(1) obtain w j m2 k where r: "read_varint dAtA 0 i 0 = Ok (w, j)"
      and ok: "tag_type w \<noteq> 4" "\<not> tag_field w \<le> 0"
      and f: "unmarshal_field flds dAtA i (tag_field w) (tag_type w) j m = Ok (m2, k)"
      and rest: "unmarshal_loop name flds dAtA k m2 = Ok m'"
      by (auto simp: unmarshal_loop.simps [of name flds dAtA i m] obind_eq_Ok Let_def split: if_splits)
    have i: "0 \<le> i" "i < j" "i < k"
      using read_varint_index [OF r] unmarshal_field_index [OF f] True golen_less [of dAtA] by auto
    have "I k m2"
    proof (cases "flds (tag_field w)")
      case None
      then have "m2 = m"
        using f by (auto simp: unmarshal_field_def unmarshal_unknown_def obind_eq_Ok split: if_splits)
      with "1.prems"(2) i "1.prems"(3) [of i m k] show ?thesis by simp
    next
      case (Some g)
      then have u: "unmarshal_known g dAtA (tag_type w) j m = Ok (m2, k)"
        using f by (simp add: unmarshal_field_def)
      obtain bs where "field_store g bs m = Ok m2" "j + int (length (varint (length bs)) + length bs) \<le> k"
        using unmarshal_known_stores [OF u] .
      with "1.prems"(2,4) Some i(2) show ?thesis by fastforce
    qed
    then show ?thesis
      using "1.IH" [OF True r refl refl refl ok f refl rest] "1.prems"(3,4) by blast
  qed
qed

section \<open>Decoded messages\<close>

text \<open>The canonical encoding of a string a decoder has stored is within the bytes consumed.\<close>

definition string_within :: "('m \<Rightarrow> string) \<Rightarrow> int \<Rightarrow> 'm \<Rightarrow> bool" where
  "string_within get i m \<longleftrightarrow> int (length (enc_string 1 (get m))) \<le> i"

lemma string_within_field:
  "get m = string_of_bytes bs \<Longrightarrow> 0 \<le> i \<Longrightarrow> i + 1 + int (length (varint (length bs)) + length bs) \<le> k \<Longrightarrow>
   string_within get k m"
  using length_enc_field_1 [of 1 bs] by (simp add: string_within_def enc_string_def)

lemma decoded_update_within:
  assumes "MsgUpdateParams_Unmarshal dAtA m = Ok m'" and "Authority m = ''''"
  shows "string_within Authority (golen dAtA) m'"
proof -
  let ?I = "\<lambda>i m. 0 \<le> i \<and> string_within Authority i m"
  have "?I (golen dAtA) m'"
  proof (rule unmarshal_loop_invariant [where I = ?I])
    show "unmarshal_loop ''MsgUpdateParams'' MsgUpdateParams_fields dAtA 0 m = Ok m'"
      using assms(1) by (simp add: MsgUpdateParams_Unmarshal_def unmarshal_message_def)
    show "?I 0 m" using assms(2) by (simp add: string_within_def enc_string_def)
    show "?I j m" if "?I i m" "i \<le> j" for i j m using that by (simp add: string_within_def)
    show "?I k m2" if "?I i m1" "MsgUpdateParams_fields n = Some f" "field_store f bs m1 = Ok m2"
      "i + 1 + int (length (varint (length bs)) + length bs) \<le> k" for i k n f bs m1 m2
      using that string_within_field [of Authority m2 bs i k]
      by (auto simp: MsgUpdateParams_fields_def obind_eq_Ok string_within_def split: if_splits)
  qed
  then show ?thesis by simp
qed

lemma decoded_module_within:
  assumes "Module_Unmarshal dAtA m = Ok m'" and "ConfigAuthority m = ''''"
  shows "string_within ConfigAuthority (golen dAtA) m'"
proof -
  let ?I = "\<lambda>i m. 0 \<le> i \<and> string_within ConfigAuthority i m"
  have "?I (golen dAtA) m'"
  proof (rule unmarshal_loop_invariant [where I = ?I])
    show "unmarshal_loop ''Module'' Module_fields dAtA 0 m = Ok m'"
      using assms(1) by (simp add: Module_Unmarshal_def unmarshal_message_def)
    show "?I 0 m" using assms(2) by (simp add: string_within_def enc_string_def)
    show "?I j m" if "?I i m" "i \<le> j" for i j m using that by (simp add: string_within_def)
    show "?I k m2" if "?I i m1" "Module_fields n = Some f" "field_store f bs m1 = Ok m2"
      "i + 1 + int (length (varint (length bs)) + length bs) \<le> k" for i k n f bs m1 m2
      using that string_within_field [of ConfigAuthority m2 bs i k]
      by (auto simp: Module_fields_def split: if_splits)
  qed
  then show ?thesis by simp
qed

lemma within_fits: "string_within get (int n) m \<Longrightarrow> n < 2 ^ 62 \<Longrightarrow> authority_fits (get m)"
  by (auto simp: string_within_def authority_fits_def enc_string_def length_enc_field_1 split: if_splits)

section \<open>Properties\<close>



text \<open>The same for the configuration of the module, whose encoding is not longer at all.\<close>

theorem decoded_module_is_canonical:
  assumes "length bs < 2 ^ 62" and "Module_Unmarshal bs \<lparr>ConfigAuthority = ''''\<rparr> = Ok m"
  shows "\<exists>bs'. Module_Marshal m = Ok bs' \<and> length bs' \<le> length bs
      \<and> Module_Unmarshal bs' \<lparr>ConfigAuthority = ''''\<rparr> = Ok m"
proof -
  have m: "string_within ConfigAuthority (int (length bs)) m"
    using decoded_module_within [OF assms(2)] assms(1) by simp
  note fits = within_fits [OF m assms(1)]
  show ?thesis
    using module_codec.marshal_enc [OF fits] module_codec.unmarshal_enc [OF fits] m
    by (simp add: Module_Marshal_def enc_module_def string_within_def)
qed

end
