(* ===== verification/App_Config.thy ===== *)
theory App_Config
  imports Bps_Types
begin

text \<open>
  \<^verbatim>\<open>app/app_config.go\<close>, with \<^verbatim>\<open>GetMaccPerms\<close> and \<^verbatim>\<open>BlockedAddresses\<close> of \<^verbatim>\<open>app/app.go\<close> and the modules
  of \<^verbatim>\<open>RegisterIBC\<close> in \<^verbatim>\<open>app/ibc.go\<close>: the modules of the application, the orders in which their
  hooks run, the store keys, the permissions of the module accounts and which of them may not
  receive funds. The name constants of the SDK and of ibc-go are the constructors of \<open>module_id\<close>,
  \<open>acct\<close> and \<open>perm\<close>; the repository's own names are strings.
\<close>

section \<open>Names\<close>

definition Name :: string where "Name = ''bps''"
definition AccountAddressPrefix :: string where "AccountAddressPrefix = ''bps''"
definition ChainCoinType :: nat where "ChainCoinType = 118"

datatype module_id =
    M_runtime | M_auth | M_vesting | M_bank | M_staking | M_slashing | M_tx | M_genutil | M_authz
  | M_upgrade | M_distr | M_evidence | M_mint | M_group | M_nft | M_feegrant | M_gov | M_consensus
  | M_circuit | M_params | M_epochs | M_bps
  | M_ibc | M_transfer | M_ica | M_ica_controller | M_ica_host | M_tendermint | M_solomachine

datatype perm = Minter | Burner | Staking

text \<open>A module account is named after its module, apart from three names of their own.\<close>

datatype acct = Fee_collector | Bonded_pool | Not_bonded_pool | Of_module module_id

record account_permission =
  Account :: acct
  Permissions :: "perm list"

section \<open>Module accounts\<close>

definition moduleAccPerms :: "account_permission list" where
  "moduleAccPerms = [
     \<lparr>Account = Fee_collector, Permissions = []\<rparr>,
     \<lparr>Account = Of_module M_distr, Permissions = []\<rparr>,
     \<lparr>Account = Of_module M_mint, Permissions = [Minter]\<rparr>,
     \<lparr>Account = Bonded_pool, Permissions = [Burner, Staking]\<rparr>,
     \<lparr>Account = Not_bonded_pool, Permissions = [Burner, Staking]\<rparr>,
     \<lparr>Account = Of_module M_gov, Permissions = [Burner]\<rparr>,
     \<lparr>Account = Of_module M_nft, Permissions = []\<rparr>,
     \<lparr>Account = Of_module M_transfer, Permissions = [Minter, Burner]\<rparr>,
     \<lparr>Account = Of_module M_ica, Permissions = []\<rparr>]"

definition blockAccAddrs :: "acct list" where
  "blockAccAddrs = [Fee_collector, Of_module M_distr, Of_module M_mint, Bonded_pool,
     Not_bonded_pool, Of_module M_nft]"

definition maccPerms_of :: "account_permission list \<Rightarrow> acct \<rightharpoonup> perm list" where
  "maccPerms_of perms = foldl (\<lambda>dup p. dup(Account p \<mapsto> Permissions p)) Map.empty perms"

definition GetMaccPerms :: "acct \<rightharpoonup> perm list" where
  "GetMaccPerms = maccPerms_of moduleAccPerms"

text \<open>
  The result is the map from the blocked accounts to \<open>true\<close>; ranging over the keys of
  \<open>GetMaccPerms()\<close> is ranging over the accounts of the list.
\<close>

definition blocked_of :: "acct list \<Rightarrow> account_permission list \<Rightarrow> acct \<rightharpoonup> bool" where
  "blocked_of blocks perms =
     (if length blocks > 0 then foldl (\<lambda>result addr. result(addr \<mapsto> True)) Map.empty blocks
      else (\<lambda>addr. if maccPerms_of perms addr = None then None else Some True))"

definition BlockedAddresses :: "acct \<rightharpoonup> bool" where
  "BlockedAddresses = blocked_of blockAccAddrs moduleAccPerms"

section \<open>Orders and store keys\<close>

definition legacyBPSStoreKey :: bytes where
  "legacyBPSStoreKey = [0x73, 0x65, 0x6d, 0x61, 0x72]"

definition PreBlockers :: "module_id list" where
  "PreBlockers = [M_upgrade, M_auth]"

definition BeginBlockers :: "module_id list" where
  "BeginBlockers = [M_mint, M_distr, M_slashing, M_evidence, M_staking, M_authz, M_epochs, M_ibc, M_bps]"

definition EndBlockers :: "module_id list" where
  "EndBlockers = [M_gov, M_staking, M_feegrant, M_group, M_bps]"

definition OverrideStoreKeys :: "(module_id \<times> bytes) list" where
  "OverrideStoreKeys = [(M_auth, bytes_of_string ''acc''), (M_bps, legacyBPSStoreKey)]"

definition InitGenesisOrder :: "module_id list" where
  "InitGenesisOrder = [M_consensus, M_auth, M_bank, M_distr, M_staking, M_slashing, M_gov, M_mint,
     M_genutil, M_evidence, M_authz, M_feegrant, M_vesting, M_nft, M_group, M_upgrade, M_circuit,
     M_epochs, M_ibc, M_transfer, M_ica, M_bps]"

definition BlockedModuleAccountsOverride :: "acct list" where
  "BlockedModuleAccountsOverride = blockAccAddrs"

section \<open>The application's configuration\<close>

text \<open>
  The configuration messages of the modules, each with the fields that are set; one without any is
  \<open>Default_options\<close>. A duration is in nanoseconds.
\<close>

datatype module_options =
    Runtime_options string "module_id list" "module_id list" "module_id list" "(module_id \<times> bytes) list"
      "module_id list"
  | Auth_options string "account_permission list" bool
  | Bank_options "acct list"
  | Group_options int nat
  | Bps_options module_config
  | Default_options

definition runtime_options :: module_options where
  "runtime_options =
     Runtime_options Name PreBlockers BeginBlockers EndBlockers OverrideStoreKeys InitGenesisOrder"

text \<open>The prefix of addresses, the accounts, and that unordered transactions are enabled.\<close>

definition auth_options :: module_options where
  "auth_options = Auth_options AccountAddressPrefix moduleAccPerms True"

definition second :: int where "second = 10 ^ 9"

text \<open>The longest period in which a group proposal can be executed, and the longest metadata.\<close>

definition group_options :: module_options where
  "group_options = Group_options (second * 1209600) 255"

text \<open>The chain's own module is configured without an authority.\<close>

definition bps_options :: module_options where
  "bps_options = Bps_options \<lparr>ConfigAuthority = ''''\<rparr>"

definition appConfig :: "(module_id \<times> module_options) list" where
  "appConfig =
     [(M_runtime, runtime_options), (M_auth, auth_options), (M_vesting, Default_options),
      (M_bank, Bank_options BlockedModuleAccountsOverride), (M_staking, Default_options),
      (M_slashing, Default_options), (M_tx, Default_options), (M_genutil, Default_options),
      (M_authz, Default_options), (M_upgrade, Default_options), (M_distr, Default_options),
      (M_evidence, Default_options), (M_mint, Default_options), (M_group, group_options),
      (M_nft, Default_options), (M_feegrant, Default_options), (M_gov, Default_options),
      (M_consensus, Default_options), (M_circuit, Default_options), (M_params, Default_options),
      (M_epochs, Default_options), (M_bps, bps_options)]"

text \<open>
  What the injection is given: the configured modules, the values supplied, and the functions
  provided, which are named. A getter of type \<open>'g\<close> reads the application when it is called.
\<close>

datatype ('o, 'v, 'g) di_config =
    App_config "(module_id \<times> module_options) list"
  | Supply_basics "(module_id \<times> 'v) list"
  | Supply_options 'o
  | Supply_logger 'v
  | Supply_IBC_getter 'g
  | Provide_function string

text \<open>The argument is the basic module of genutil, made with its default message validator.\<close>

definition AppConfig :: "'v \<Rightarrow> ('o, 'v, 'g) di_config list" where
  "AppConfig genutil_basic = [App_config appConfig, Supply_basics [(M_genutil, genutil_basic)],
     Provide_function ''ProvideHardCapMintFn'']"

definition ConfiguredModules :: "module_id list" where
  "ConfiguredModules = map fst appConfig"

text \<open>The modules that \<^verbatim>\<open>RegisterIBC\<close> registers on the client's side.\<close>

definition ClientModules :: "module_id list" where
  "ClientModules = [M_ibc, M_transfer, M_ica, M_tendermint, M_solomachine]"

section \<open>Lemmas\<close>

lemma foldl_upd_True: "foldl (\<lambda>r a. r(a \<mapsto> True)) m as x = (if x \<in> set as then Some True else m x)"
  by (induction as arbitrary: m) auto

lemma foldl_perms_None:
  "foldl (\<lambda>dup p. dup(Account p \<mapsto> Permissions p)) m ps x = None \<longleftrightarrow> m x = None \<and> x \<notin> Account ` set ps"
  by (induction ps arbitrary: m) auto

lemma maccPerms_None: "maccPerms_of perms a = None \<longleftrightarrow> a \<notin> Account ` set perms"
  by (simp add: maccPerms_of_def foldl_perms_None)

lemma blocked_of_iff:
  "blocked_of blocks perms a = Some True
    \<longleftrightarrow> (if blocks = [] then a \<in> Account ` set perms else a \<in> set blocks)"
  by (simp add: blocked_of_def foldl_upd_True maccPerms_None)

text \<open>\<open>a\<close> stands before \<open>b\<close> in the list.\<close>

fun before :: "'a list \<Rightarrow> 'a \<Rightarrow> 'a \<Rightarrow> bool" where
  "before [] a b = False"
| "before (x # xs) a b = (if x = a then b \<in> set xs else before xs a b)"

section \<open>Properties\<close>

text \<open>
  C40: For any block list and any module accounts, \<^verbatim>\<open>BlockedAddresses\<close> blocks the listed accounts,
  or every module account when the list is empty, and no other; with the lists of the
  application the module accounts that may receive funds are those of gov, of the IBC transfer
  module and of interchain accounts.
\<close>

theorem blocked_accounts:
  "(blocked_of blocks perms a = Some True
      \<longleftrightarrow> (if blocks = [] then a \<in> Account ` set perms else a \<in> set blocks))
   \<and> filter (\<lambda>a. BlockedAddresses a \<noteq> Some True) (map Account moduleAccPerms)
      = [Of_module M_gov, Of_module M_transfer, Of_module M_ica]"
  by (simp add: blocked_of_iff BlockedAddresses_def moduleAccPerms_def blockAccAddrs_def)

text \<open>
  Only the mint and the IBC transfer module can mint: the permissions kept by
  \<^verbatim>\<open>GetMaccPerms\<close> give \<open>minter\<close> to no other account, and every account that is blocked
  is a module account.
\<close>

theorem minting_accounts:
  "((\<exists>ps. GetMaccPerms a = Some ps \<and> Minter \<in> set ps) \<longleftrightarrow> a \<in> {Of_module M_mint, Of_module M_transfer})
   \<and> set blockAccAddrs \<subseteq> dom GetMaccPerms"
  by (auto simp: GetMaccPerms_def maccPerms_of_def moduleAccPerms_def blockAccAddrs_def)

text \<open>
  The orders of the application are what the comments beside them ask for: the upgrade
  module comes first in the pre-blockers, slashing begins a block after distribution and
  distribution after minting, genutil's genesis runs after those of staking and auth, and the
  chain's own module comes last in every order.
\<close>

theorem module_orders:
  "hd PreBlockers = M_upgrade \<and> before BeginBlockers M_mint M_distr
   \<and> before BeginBlockers M_distr M_slashing \<and> before InitGenesisOrder M_staking M_genutil
   \<and> before InitGenesisOrder M_auth M_genutil
   \<and> (\<forall>order \<in> {BeginBlockers, EndBlockers, InitGenesisOrder}. last order = M_bps \<and> distinct order)"
  by (simp add: PreBlockers_def BeginBlockers_def EndBlockers_def InitGenesisOrder_def)

text \<open>
  Every module named in an order is configured or registered by hand for IBC, every
  configured module but the runtime, the transaction and the params one has its genesis run, and a module
  is configured once.
\<close>

theorem orders_are_covered:
  "set PreBlockers \<union> set BeginBlockers \<union> set EndBlockers \<union> set InitGenesisOrder
     \<subseteq> set ConfiguredModules \<union> set ClientModules
   \<and> set ConfiguredModules - set InitGenesisOrder = {M_runtime, M_tx, M_params}
   \<and> distinct ConfiguredModules \<and> set ConfiguredModules \<inter> set ClientModules = {}"
  by (auto simp: PreBlockers_def BeginBlockers_def EndBlockers_def InitGenesisOrder_def
      ConfiguredModules_def appConfig_def ClientModules_def)

text \<open>
  The chain keeps its legacy store layout: the module's store key is \<open>semar\<close> and not its
  name, and the key of its parameters is \<open>p_\<close> followed by that store key.
\<close>

theorem legacy_store_layout:
  "map_of OverrideStoreKeys M_bps = Some legacyBPSStoreKey
   \<and> string_of_bytes legacyBPSStoreKey = ''semar''
   \<and> legacyBPSStoreKey \<noteq> bytes_of_string StoreKey
   \<and> ParamsKey = bytes_of_string ''p_'' @ legacyBPSStoreKey"
  by (simp add: OverrideStoreKeys_def legacyBPSStoreKey_def ParamsKey_def legacyParamsPrefix_def
      StoreKey_def ModuleName_def string_of_bytes_def bytes_of_string_def char_of_byte_def
      byte_of_char_def char_of_def bit_0)

end
