(* ===== verification/App_Wiring.thy ===== *)
theory App_Wiring
  imports App_Config
begin

text \<open>
  \<^verbatim>\<open>app/app.go\<close> and \<^verbatim>\<open>app/ibc.go\<close>: the construction of the application. \<^verbatim>\<open>New\<close> injects the keepers,
  builds the base application, registers the IBC modules that do not support injection, installs
  the init chainer and loads the store; \<^verbatim>\<open>registerIBCModules\<close> registers the IBC stores and
  parameter subspaces, builds the IBC keepers on them, and sets the routes.

  The fields of \<^verbatim>\<open>App\<close> are the record \<open>app\<close>; what the SDK runtime and
  ibc-go keep behind it (stores, subspaces, routers, the database) is the field \<open>rt\<close> of type
  \<open>'s\<close>. Their values (keepers, modules, routers) have one opaque type \<open>'v\<close>, their calls are the
  record \<open>wiring_env\<close>, and the constants of ibc-go are fields of \<open>ibc_names\<close>.
\<close>

section \<open>State and environment\<close>

datatype store_key = KVStoreKey string | OtherStoreKey string

record 'v app =
  legacyAmino :: "'v option"
  appCodec :: "'v option"
  txConfig :: "'v option"
  interfaceRegistry :: "'v option"
  AuthKeeper :: "'v option"
  BankKeeper :: "'v option"
  StakingKeeper :: "'v option"
  SlashingKeeper :: "'v option"
  MintKeeper :: "'v option"
  DistrKeeper :: "'v option"
  GovKeeper :: "'v option"
  UpgradeKeeper :: "'v option"
  AuthzKeeper :: "'v option"
  ConsensusParamsKeeper :: "'v option"
  CircuitBreakerKeeper :: "'v option"
  ParamsKeeper :: "'v option"
  IBCKeeper :: "'v option"
  ICAControllerKeeper :: "'v option"
  ICAHostKeeper :: "'v option"
  TransferKeeper :: "'v option"
  sim_manager :: "'v option"
  BPSKeeper :: "'v option"
  custom_init_chainer :: bool

record ('s, 'v) sys =
  the_app :: "'v app"
  rt :: 's

record ibc_names =
  ibc_StoreKey :: string
  transfer_StoreKey :: string
  icahost_StoreKey :: string
  icacontroller_StoreKey :: string
  ibc_ModuleName :: string
  transfer_ModuleName :: string
  icahost_SubModuleName :: string
  icacontroller_SubModuleName :: string
  transfer_PortID :: string
  ibctm_ModuleName :: string
  solomachine_ModuleName :: string
  auth_ModuleName :: string

text \<open>What the injection fills in, in the order of the call.\<close>

record 'v injected =
  in_appBuilder :: 'v
  in_appCodec :: 'v
  in_legacyAmino :: 'v
  in_txConfig :: 'v
  in_interfaceRegistry :: 'v
  in_AuthKeeper :: 'v
  in_BankKeeper :: 'v
  in_StakingKeeper :: 'v
  in_SlashingKeeper :: 'v
  in_MintKeeper :: 'v
  in_DistrKeeper :: 'v
  in_GovKeeper :: 'v
  in_UpgradeKeeper :: 'v
  in_AuthzKeeper :: 'v
  in_ConsensusParamsKeeper :: 'v
  in_CircuitBreakerKeeper :: 'v
  in_ParamsKeeper :: 'v
  in_BPSKeeper :: 'v

text \<open>
  A keeper constructor takes the codec, the store key it is given (\<open>None\<close> for a nil key), its subspace and
  the other values in the order of the call.
\<close>

record ('s, 'v) wiring_env =
  names :: ibc_names
  RegisterStores :: "store_key list \<Rightarrow> ('s, unit) eff"
  UnsafeFindStoreKey :: "string \<Rightarrow> 's \<Rightarrow> store_key option"
  ParamKeyTable :: "string \<Rightarrow> 'v"
  RegisterParamSet :: "'v \<Rightarrow> 'v outcome"
  NewSubspace :: "string \<Rightarrow> ('s, 'v) eff"
  WithKeyTable :: "'v \<Rightarrow> 'v \<Rightarrow> ('s, 'v) eff"
  FindSubspace :: "string \<Rightarrow> 's \<Rightarrow> 'v option"
  zero_subspace :: 'v
  GovModuleAddress :: "string outcome"
  MsgServiceRouter :: "'s \<Rightarrow> 'v"
  GRPCQueryRouter :: "'s \<Rightarrow> 'v"
  NewIBCKeeper :: "'v option \<Rightarrow> store_key option \<Rightarrow> 'v \<Rightarrow> 'v option \<Rightarrow> string \<Rightarrow> ('s, 'v) eff"
  ChannelKeeper :: "'v \<Rightarrow> 'v"
  ClientKeeper :: "'v \<Rightarrow> 'v"
  NewTransferKeeper ::
    "'v option \<Rightarrow> store_key option \<Rightarrow> 'v \<Rightarrow> 'v \<Rightarrow> 'v \<Rightarrow> 'v \<Rightarrow> 'v option \<Rightarrow> 'v option \<Rightarrow> string \<Rightarrow> ('s, 'v) eff"
  NewICAHostKeeper ::
    "'v option \<Rightarrow> store_key option \<Rightarrow> 'v \<Rightarrow> 'v \<Rightarrow> 'v \<Rightarrow> 'v option \<Rightarrow> 'v \<Rightarrow> 'v \<Rightarrow> string \<Rightarrow> ('s, 'v) eff"
  NewICAControllerKeeper ::
    "'v option \<Rightarrow> store_key option \<Rightarrow> 'v \<Rightarrow> 'v \<Rightarrow> 'v \<Rightarrow> 'v \<Rightarrow> string \<Rightarrow> ('s, 'v) eff"
  transfer_NewIBCModule :: "'v \<Rightarrow> 'v"
  transferv2_NewIBCModule :: "'v \<Rightarrow> 'v"
  icacontroller_NewIBCMiddleware :: "'v \<Rightarrow> 'v"
  icahost_NewIBCModule :: "'v \<Rightarrow> 'v"
  NewRouter :: 'v
  NewRouterV2 :: 'v
  AddRoute :: "'v \<Rightarrow> string \<Rightarrow> 'v \<Rightarrow> 'v outcome"
  AddRouteV2 :: "'v \<Rightarrow> string \<Rightarrow> 'v \<Rightarrow> 'v outcome"
  SetRouter :: "'v \<Rightarrow> 'v \<Rightarrow> ('s, unit) eff"
  SetRouterV2 :: "'v \<Rightarrow> 'v \<Rightarrow> ('s, unit) eff"
  GetStoreProvider :: "'v \<Rightarrow> 'v"
  tm_NewLightClientModule :: "'v option \<Rightarrow> 'v \<Rightarrow> 'v"
  solo_NewLightClientModule :: "'v option \<Rightarrow> 'v \<Rightarrow> 'v"
  AddClientRoute :: "'v \<Rightarrow> string \<Rightarrow> 'v \<Rightarrow> ('s, unit) eff"
  ibc_NewAppModule :: "'v \<Rightarrow> 'v"
  transfer_NewAppModule :: "'v \<Rightarrow> 'v"
  ica_NewAppModule :: "'v \<Rightarrow> 'v \<Rightarrow> 'v"
  tm_NewAppModule :: "'v \<Rightarrow> 'v"
  solo_NewAppModule :: "'v \<Rightarrow> 'v"
  RegisterModules :: "'v list \<Rightarrow> ('s, unit) eff"

text \<open>A call of the runtime leaves the fields of the application alone.\<close>

definition on_rt :: "('s, 'a) eff \<Rightarrow> (('s, 'v) sys, 'a) eff" where
  "on_rt m = (\<lambda>w. let (r, t) = m (rt w) in (r, w\<lparr>rt := t\<rparr>))"

definition read_rt :: "('s \<Rightarrow> 'a) \<Rightarrow> (('s, 'v) sys, 'a) eff" where
  "read_rt f = (\<lambda>w. (Ok (f (rt w)), w))"

definition read_app :: "('v app \<Rightarrow> 'a) \<Rightarrow> (('s, 'v) sys, 'a) eff" where
  "read_app f = (\<lambda>w. (Ok (f (the_app w)), w))"

definition assign :: "('v app \<Rightarrow> 'v app) \<Rightarrow> (('s, 'v) sys, unit) eff" where
  "assign f = (\<lambda>w. (Ok (), w\<lparr>the_app := f (the_app w)\<rparr>))"

text \<open>\<open>x, _ := m()\<close> for a text: an error leaves the empty string.\<close>

definition text_of :: "string outcome \<Rightarrow> string outcome" where
  "text_of r = (case r of Err e \<Rightarrow> Ok '''' | _ \<Rightarrow> r)"

section \<open>Lookups\<close>

definition GetKey :: "('s, 'v) wiring_env \<Rightarrow> string \<Rightarrow> 's \<Rightarrow> store_key option" where
  "GetKey E storeKey s = (case UnsafeFindStoreKey E storeKey s of
     Some (KVStoreKey n) \<Rightarrow> Some (KVStoreKey n) | _ \<Rightarrow> None)"

definition GetSubspace :: "('s, 'v) wiring_env \<Rightarrow> string \<Rightarrow> 's \<Rightarrow> 'v" where
  "GetSubspace E moduleName s = (case FindSubspace E moduleName s of
     Some subspace \<Rightarrow> subspace | None \<Rightarrow> zero_subspace E)"

definition GetIBCKeeper :: "'v app \<Rightarrow> 'v option" where
  "GetIBCKeeper a = IBCKeeper a"

section \<open>registerIBCModules\<close>

text \<open>\<open>app.ParamsKeeper.Subspace(m).WithKeyTable(table)\<close>\<close>

definition add_subspace :: "('s, 'v) wiring_env \<Rightarrow> string \<Rightarrow> 'v \<Rightarrow> ('s, unit) eff" where
  "add_subspace E m table =
     bind (NewSubspace E m) (\<lambda>sub. bind (WithKeyTable E sub table) (\<lambda>_. ret ()))"

definition register_subspaces :: "('s, 'v) wiring_env \<Rightarrow> ('s, unit) eff" where
  "register_subspaces E =
     (let N = names E in
      bind (lift_outcome (RegisterParamSet E (ParamKeyTable E (ibc_ModuleName N)))) (\<lambda>keyTable.
      for_each (\<lambda>(m, table). add_subspace E m table)
        [(ibc_ModuleName N, keyTable),
         (transfer_ModuleName N, ParamKeyTable E (transfer_ModuleName N)),
         (icacontroller_SubModuleName N, ParamKeyTable E (icacontroller_SubModuleName N)),
         (icahost_SubModuleName N, ParamKeyTable E (icahost_SubModuleName N))]))"

definition build_keepers ::
  "('s, 'v) wiring_env \<Rightarrow> string \<Rightarrow> (('s, 'v) sys, 'v \<times> 'v \<times> 'v \<times> 'v) eff" where
  "build_keepers E govModuleAddr =
     (let N = names E in
      bind (read_app (\<lambda>a. a)) (\<lambda>a.
      bind (read_rt (\<lambda>s. (GetKey E (ibc_StoreKey N) s, GetSubspace E (ibc_ModuleName N) s))) (\<lambda>(key, sub).
      bind (on_rt (NewIBCKeeper E (appCodec a) key sub (UpgradeKeeper a) govModuleAddr)) (\<lambda>ibc.
      bind (assign (\<lambda>a. a\<lparr>IBCKeeper := Some ibc\<rparr>)) (\<lambda>_.
      let channel = ChannelKeeper E ibc in
      bind (read_rt (\<lambda>s. (GetKey E (transfer_StoreKey N) s, GetSubspace E (transfer_ModuleName N) s,
                          MsgServiceRouter E s))) (\<lambda>(key, sub, msgs).
      bind (on_rt (NewTransferKeeper E (appCodec a) key sub channel channel msgs (AuthKeeper a) (BankKeeper a)
                     govModuleAddr)) (\<lambda>transfer.
      bind (assign (\<lambda>a. a\<lparr>TransferKeeper := Some transfer\<rparr>)) (\<lambda>_.
      bind (read_rt (\<lambda>s. (GetKey E (icahost_StoreKey N) s, GetSubspace E (icahost_SubModuleName N) s,
                          MsgServiceRouter E s, GRPCQueryRouter E s))) (\<lambda>(key, sub, msgs, queries).
      bind (on_rt (NewICAHostKeeper E (appCodec a) key sub channel channel (AuthKeeper a) msgs queries
                     govModuleAddr)) (\<lambda>host.
      bind (assign (\<lambda>a. a\<lparr>ICAHostKeeper := Some host\<rparr>)) (\<lambda>_.
      bind (read_rt (\<lambda>s. (GetKey E (icacontroller_StoreKey N) s,
                          GetSubspace E (icacontroller_SubModuleName N) s,
                          MsgServiceRouter E s))) (\<lambda>(key, sub, msgs).
      bind (on_rt (NewICAControllerKeeper E (appCodec a) key sub channel channel msgs govModuleAddr)) (\<lambda>controller.
      bind (assign (\<lambda>a. a\<lparr>ICAControllerKeeper := Some controller\<rparr>)) (\<lambda>_.
      ret (ibc, transfer, host, controller)))))))))))))))"

definition set_routes ::
  "('s, 'v) wiring_env \<Rightarrow> 'v \<Rightarrow> 'v \<Rightarrow> 'v \<Rightarrow> 'v \<Rightarrow> ('s, unit) eff" where
  "set_routes E ibc transfer host controller =
     (let N = names E in
      bind (lift_outcome (
        obind (AddRoute E (NewRouter E) (transfer_ModuleName N) (transfer_NewIBCModule E transfer)) (\<lambda>r.
        obind (AddRoute E r (icacontroller_SubModuleName N) (icacontroller_NewIBCMiddleware E controller)) (\<lambda>r.
        AddRoute E r (icahost_SubModuleName N) (icahost_NewIBCModule E host))))) (\<lambda>ibcRouter.
      bind (lift_outcome (
        AddRouteV2 E (NewRouterV2 E) (transfer_PortID N) (transferv2_NewIBCModule E transfer))) (\<lambda>ibcv2Router.
      bind (SetRouter E ibc ibcRouter) (\<lambda>_.
      SetRouterV2 E ibc ibcv2Router))))"

definition add_light_clients ::
  "('s, 'v) wiring_env \<Rightarrow> 'v option \<Rightarrow> 'v \<Rightarrow> ('s, 'v \<times> 'v) eff" where
  "add_light_clients E codec ibc =
     (let clientKeeper = ClientKeeper E ibc; storeProvider = GetStoreProvider E clientKeeper;
          tm = tm_NewLightClientModule E codec storeProvider;
          solo = solo_NewLightClientModule E codec storeProvider in
      bind (AddClientRoute E clientKeeper (ibctm_ModuleName (names E)) tm) (\<lambda>_.
      bind (AddClientRoute E clientKeeper (solomachine_ModuleName (names E)) solo) (\<lambda>_.
      ret (tm, solo))))"

definition registerIBCModules :: "('s, 'v) wiring_env \<Rightarrow> (('s, 'v) sys, unit) eff" where
  "registerIBCModules E =
     (let N = names E in
      bind (on_rt (RegisterStores E [KVStoreKey (ibc_StoreKey N), KVStoreKey (transfer_StoreKey N),
        KVStoreKey (icahost_StoreKey N), KVStoreKey (icacontroller_StoreKey N)])) (\<lambda>_.
      bind (on_rt (register_subspaces E)) (\<lambda>_.
      bind (lift_outcome (text_of (GovModuleAddress E))) (\<lambda>govModuleAddr.
      bind (build_keepers E govModuleAddr) (\<lambda>(ibc, transfer, host, controller).
      bind (on_rt (set_routes E ibc transfer host controller)) (\<lambda>_.
      bind (read_app appCodec) (\<lambda>codec.
      bind (on_rt (add_light_clients E codec ibc)) (\<lambda>(tm, solo).
      on_rt (RegisterModules E [ibc_NewAppModule E ibc, transfer_NewAppModule E transfer,
        ica_NewAppModule E controller host, tm_NewAppModule E tm,
        solo_NewAppModule E solo])))))))))"

section \<open>New and the init chainer\<close>

type_synonym ('o, 'v) container = "('o, 'v, 'v app \<Rightarrow> 'v option) di_config list"

record ('s, 'v, 'o, 'm) app_env =
  genutil_NewAppModuleBasic :: 'v
  Inject :: "('o, 'v) container \<Rightarrow> ('s, 'v injected) eff"
  SetOptimisticExecution :: 'o
  Build_app :: "'v \<Rightarrow> 'v \<Rightarrow> 'v \<Rightarrow> 'o list \<Rightarrow> ('s, unit) eff"
  auth_NewAppModule :: "'v \<Rightarrow> 'v \<Rightarrow> 'v"
  Modules :: "'s \<Rightarrow> 'm"
  NewSimulationManager :: "'m \<Rightarrow> (string \<rightharpoonup> 'v) \<Rightarrow> 'v"
  RegisterStoreDecoders :: "'v \<Rightarrow> ('s, unit) eff"
  Load :: "bool \<Rightarrow> ('s, unit) eff"
  GetVersionMap :: "'m \<Rightarrow> string \<rightharpoonup> nat"
  SetModuleVersionMap :: "'v \<Rightarrow> (string \<rightharpoonup> nat) \<Rightarrow> ('s, unit) eff"

text \<open>What the process hands to the constructor.\<close>

record 'v process_args =
  logger :: 'v
  db :: 'v
  traceStore :: 'v

definition container_config ::
  "('s, 'v, 'o, 'm) app_env \<Rightarrow> 'v process_args \<Rightarrow> 'o \<Rightarrow> ('o, 'v) container" where
  "container_config A P appOpts =
     AppConfig (genutil_NewAppModuleBasic A) @
       [Supply_options appOpts, Supply_logger (logger P), Supply_IBC_getter GetIBCKeeper]"

definition new_app :: "'v app" where
  "new_app =
     \<lparr>legacyAmino = None, appCodec = None, txConfig = None, interfaceRegistry = None,
      AuthKeeper = None, BankKeeper = None, StakingKeeper = None, SlashingKeeper = None,
      MintKeeper = None, DistrKeeper = None, GovKeeper = None, UpgradeKeeper = None,
      AuthzKeeper = None, ConsensusParamsKeeper = None, CircuitBreakerKeeper = None,
      ParamsKeeper = None, IBCKeeper = None, ICAControllerKeeper = None, ICAHostKeeper = None,
      TransferKeeper = None, sim_manager = None, BPSKeeper = None,
      custom_init_chainer = False\<rparr>"

definition inject_into :: "'v injected \<Rightarrow> 'v app \<Rightarrow> 'v app" where
  "inject_into i a = a\<lparr>
     legacyAmino := Some (in_legacyAmino i), appCodec := Some (in_appCodec i),
     txConfig := Some (in_txConfig i), interfaceRegistry := Some (in_interfaceRegistry i),
     AuthKeeper := Some (in_AuthKeeper i), BankKeeper := Some (in_BankKeeper i),
     StakingKeeper := Some (in_StakingKeeper i), SlashingKeeper := Some (in_SlashingKeeper i),
     MintKeeper := Some (in_MintKeeper i), DistrKeeper := Some (in_DistrKeeper i),
     GovKeeper := Some (in_GovKeeper i), UpgradeKeeper := Some (in_UpgradeKeeper i),
     AuthzKeeper := Some (in_AuthzKeeper i),
     ConsensusParamsKeeper := Some (in_ConsensusParamsKeeper i),
     CircuitBreakerKeeper := Some (in_CircuitBreakerKeeper i),
     ParamsKeeper := Some (in_ParamsKeeper i), BPSKeeper := Some (in_BPSKeeper i)\<rparr>"

text \<open>\<open>New\<close> works on a new application; its result is the application in the state it leaves.\<close>

definition New ::
  "('s, 'v) wiring_env \<Rightarrow> ('s, 'v, 'o, 'm) app_env \<Rightarrow> 'v process_args \<Rightarrow> bool \<Rightarrow> 'o \<Rightarrow> 'o list \<Rightarrow>
   (('s, 'v) sys, unit) eff" where
  "New E A P loadLatest appOpts baseAppOptions =
     bind (assign (\<lambda>_. new_app)) (\<lambda>_.
     bind (or_panic (on_rt (Inject A (container_config A P appOpts)))) (\<lambda>i.
     bind (assign (inject_into i)) (\<lambda>_.
     bind (on_rt (Build_app A (in_appBuilder i) (db P) (traceStore P)
                    (baseAppOptions @ [SetOptimisticExecution A]))) (\<lambda>_.
     bind (or_panic (registerIBCModules E)) (\<lambda>_.
     bind (read_rt (Modules A)) (\<lambda>modules.
     let sm = NewSimulationManager A modules
           [auth_ModuleName (names E) \<mapsto> auth_NewAppModule A (in_appCodec i) (in_AuthKeeper i)] in
     bind (assign (\<lambda>a. a\<lparr>sim_manager := Some sm\<rparr>)) (\<lambda>_.
     bind (on_rt (RegisterStoreDecoders A sm)) (\<lambda>_.
     bind (assign (\<lambda>a. a\<lparr>custom_init_chainer := True\<rparr>)) (\<lambda>_.
     or_panic (on_rt (Load A loadLatest)))))))))))"

text \<open>The accessors of the application.\<close>

definition LegacyAmino :: "'v app \<Rightarrow> 'v option" where "LegacyAmino a = legacyAmino a"
definition AppCodec :: "'v app \<Rightarrow> 'v option" where "AppCodec a = appCodec a"
definition InterfaceRegistry :: "'v app \<Rightarrow> 'v option" where "InterfaceRegistry a = interfaceRegistry a"
definition TxConfig :: "'v app \<Rightarrow> 'v option" where "TxConfig a = txConfig a"
definition SimulationManager :: "'v app \<Rightarrow> 'v option" where "SimulationManager a = sim_manager a"

text \<open>
  The chainer the runtime calls at genesis: its own one, or the one that \<open>New\<close> installs. A nil
  upgrade keeper is a nil dereference.
\<close>

definition nil_dereference :: go_error where
  "nil_dereference = Error_text ''invalid memory address or nil pointer dereference''"

definition run_InitChainer ::
  "('s, 'v, 'o, 'm) app_env \<Rightarrow> ('q \<Rightarrow> ('s, 'r) eff) \<Rightarrow> 'q \<Rightarrow> (('s, 'v) sys, 'r) eff" where
  "run_InitChainer A runtime_InitChainer req =
     bind (read_app (\<lambda>a. a)) (\<lambda>a.
     if custom_init_chainer a then
       (case UpgradeKeeper a of
          None \<Rightarrow> panic nil_dereference
        | Some k \<Rightarrow>
            bind (read_rt (Modules A)) (\<lambda>modules.
            bind (on_rt (SetModuleVersionMap A k (GetVersionMap A modules))) (\<lambda>_.
            on_rt (runtime_InitChainer req))))
     else on_rt (runtime_InitChainer req))"

definition RegisterAPIRoutes ::
  "('s, unit) eff \<Rightarrow> ('s, unit) eff \<Rightarrow> ('s, unit) eff \<Rightarrow> ('s, unit) eff" where
  "RegisterAPIRoutes runtime_RegisterAPIRoutes RegisterSwaggerAPI RegisterOpenAPIService =
     bind runtime_RegisterAPIRoutes (\<lambda>_.
     bind (or_panic RegisterSwaggerAPI) (\<lambda>_.
     RegisterOpenAPIService))"

section \<open>newApp\<close>

definition newApp ::
  "('s, 'v) wiring_env \<Rightarrow> ('s, 'v, 'o, 'm) app_env \<Rightarrow> ('o \<Rightarrow> 'o list) \<Rightarrow> 'v process_args \<Rightarrow> 'o \<Rightarrow>
   (('s, 'v) sys, unit) eff" where
  "newApp E A DefaultBaseappOptions P appOpts =
     (let baseappOptions = DefaultBaseappOptions appOpts in New E A P True appOpts baseappOptions)"

end
