(* ===== verification/App_Wiring_Spec.thy ===== *)
theory App_Wiring_Spec
  imports App_Wiring
begin

text \<open>
  The properties of the construction of the application: the IBC keepers are built on registered
  stores and subspaces, their routes lead to the keepers the application exposes, \<^verbatim>\<open>New\<close> gives a
  complete application or none, and the init chainer stores the module versions before genesis.
\<close>

section \<open>Rules\<close>

lemma bind_cong_at:
  assumes "\<And>x s'. m s = (Ok x, s') \<Longrightarrow> f x s' = g x s'"
  shows "bind m f s = bind m g s"
  using assms by (auto simp: bind_def split: prod.splits outcome.splits)

lemma bind_cong2:
  assumes "m s = m' s" and "\<And>x t. m' s = (Ok x, t) \<Longrightarrow> f x t = g x t"
  shows "bind m f s = bind m' g s"
  using assms by (auto simp: bind_def split: prod.splits outcome.splits)

lemma on_rt_run:
  "on_rt m w = (r, w') \<longleftrightarrow> (\<exists>t. m (rt w) = (r, t) \<and> w' = w\<lparr>rt := t\<rparr>)"
  by (auto simp: on_rt_def split: prod.splits)

lemma read_assign_run [simp]:
  "read_rt f w = (Ok (f (rt w)), w)" "read_app g w = (Ok (g (the_app w)), w)"
  "assign h w = (Ok (), w\<lparr>the_app := h (the_app w)\<rparr>)"
  by (simp_all add: read_rt_def read_app_def assign_def)

lemma bind_on_rt:
  "bind (on_rt m) f w = (case m (rt w) of (Ok x, t) \<Rightarrow> f x (w\<lparr>rt := t\<rparr>)
     | (Err e, t) \<Rightarrow> (Err e, w\<lparr>rt := t\<rparr>) | (Panic e, t) \<Rightarrow> (Panic e, w\<lparr>rt := t\<rparr>)
     | (Exit c, t) \<Rightarrow> (Exit c, w\<lparr>rt := t\<rparr>))"
  by (simp add: on_rt_def bind_def split: prod.splits outcome.splits)

text \<open>\<open>keeps_found E m\<close>: a store or a subspace that is found before \<open>m\<close> is found after it.\<close>

definition keeps_found :: "('s, 'v) wiring_env \<Rightarrow> ('s, 'a) eff \<Rightarrow> bool" where
  "keeps_found E m \<longleftrightarrow> (\<forall>s r s' n. m s = (r, s') \<longrightarrow>
     (\<forall>k. UnsafeFindStoreKey E n s = Some k \<longrightarrow> UnsafeFindStoreKey E n s' = Some k) \<and>
     (\<forall>v. FindSubspace E n s = Some v \<longrightarrow> FindSubspace E n s' = Some v))"

fun key_name :: "store_key \<Rightarrow> string" where
  "key_name (KVStoreKey n) = n"
| "key_name (OtherStoreKey n) = n"

text \<open>
  What the runtime promises: registered stores and new subspaces are found under their names,
  and neither the registrations nor the keeper constructors make one disappear.
\<close>

definition registry_laws :: "('s, 'v) wiring_env \<Rightarrow> bool" where
  "registry_laws E \<longleftrightarrow>
     (\<forall>ks s s'. RegisterStores E ks s = (Ok (), s') \<longrightarrow>
        (\<forall>k \<in> set ks. UnsafeFindStoreKey E (key_name k) s' = Some k)) \<and>
     (\<forall>n s v s'. NewSubspace E n s = (Ok v, s') \<longrightarrow> FindSubspace E n s' = Some v) \<and>
     (\<forall>n. keeps_found E (NewSubspace E n)) \<and> (\<forall>v t. keeps_found E (WithKeyTable E v t)) \<and>
     (\<forall>c k p u g. keeps_found E (NewIBCKeeper E c k p u g)) \<and>
     (\<forall>c k p h i m a b g. keeps_found E (NewTransferKeeper E c k p h i m a b g)) \<and>
     (\<forall>c k p h i a m q g. keeps_found E (NewICAHostKeeper E c k p h i a m q g)) \<and>
     (\<forall>c k p h i m g. keeps_found E (NewICAControllerKeeper E c k p h i m g))"

lemma keeps_foundD:
  assumes "keeps_found E m" and "m s = (r, s')"
  shows "UnsafeFindStoreKey E n s = Some k \<Longrightarrow> UnsafeFindStoreKey E n s' = Some k"
    and "FindSubspace E n s = Some v \<Longrightarrow> FindSubspace E n s' = Some v"
  using assms unfolding keeps_found_def by blast+

lemma keeps_found_bind:
  "keeps_found E m \<Longrightarrow> (\<And>x. keeps_found E (f x)) \<Longrightarrow> keeps_found E (bind m f)"
  unfolding keeps_found_def
  by (intro allI impI) (auto simp: bind_def split: prod.splits outcome.splits)

lemma keeps_found_pure: "keeps_found E (ret x)" "keeps_found E (lift_outcome r)"
  by (simp_all add: keeps_found_def)

text \<open>The state of the registry once the stores and the subspaces are there.\<close>

definition all_found :: "('s, 'v) wiring_env \<Rightarrow> 's \<Rightarrow> bool" where
  "all_found E s \<longleftrightarrow> (let N = names E in
     (\<forall>n \<in> {ibc_StoreKey N, transfer_StoreKey N, icahost_StoreKey N, icacontroller_StoreKey N}.
        UnsafeFindStoreKey E n s = Some (KVStoreKey n)) \<and>
     (\<forall>n \<in> {ibc_ModuleName N, transfer_ModuleName N, icahost_SubModuleName N, icacontroller_SubModuleName N}.
        FindSubspace E n s \<noteq> None))"

lemma all_found_keeps: "all_found E s \<Longrightarrow> keeps_found E m \<Longrightarrow> m s = (r, s') \<Longrightarrow> all_found E s'"
  unfolding all_found_def keeps_found_def Let_def by fastforce

lemma keeps_found_for_each: "(\<And>x. keeps_found E (f x)) \<Longrightarrow> keeps_found E (for_each f xs)"
  by (induction xs) (simp_all add: keeps_found_pure keeps_found_bind)

lemma keeps_found_add_subspace: "registry_laws E \<Longrightarrow> keeps_found E (add_subspace E n t)"
  unfolding add_subspace_def registry_laws_def by (simp add: keeps_found_bind keeps_found_pure)

lemma keeps_found_subspaces: "registry_laws E \<Longrightarrow> keeps_found E (register_subspaces E)"
  unfolding register_subspaces_def Let_def
  by (intro keeps_found_bind keeps_found_for_each)
     (simp_all add: keeps_found_pure keeps_found_add_subspace split: prod.split)

lemma add_subspace_found:
  assumes "registry_laws E" and "add_subspace E n t s = (Ok u, s')"
  shows "\<exists>v. FindSubspace E n s' = Some v"
proof -
  obtain v s1 where v: "NewSubspace E n s = (Ok v, s1)" "\<exists>x. WithKeyTable E v t s1 = (Ok x, s')"
    using assms(2) by (auto simp: add_subspace_def bind_Ok_iff)
  have "FindSubspace E n s1 = Some v" using assms(1) v(1) by (simp add: registry_laws_def)
  moreover have "keeps_found E (WithKeyTable E v t)" using assms(1) by (simp add: registry_laws_def)
  ultimately show ?thesis using v(2) keeps_foundD(2) [of E "WithKeyTable E v t" s1] by blast
qed

lemma for_each_subspaces_found:
  assumes "registry_laws E" and "for_each (\<lambda>(m, table). add_subspace E m table) xs s = (Ok u, s')"
    and "n \<in> fst ` set xs"
  shows "\<exists>v. FindSubspace E n s' = Some v"
  using assms(2,3)
proof (induction xs arbitrary: s)
  case (Cons x xs)
  obtain m t where x: "x = (m, t)" by (cases x)
  obtain s1 where s1: "add_subspace E m t s = (Ok (), s1)"
    "for_each (\<lambda>(m, table). add_subspace E m table) xs s1 = (Ok u, s')"
    using Cons.prems(1) by (auto simp: x bind_Ok_iff)
  have k: "keeps_found E (for_each (\<lambda>(m, table). add_subspace E m table) xs)"
    by (intro keeps_found_for_each) (simp add: keeps_found_add_subspace [OF assms(1)] split: prod.split)
  from Cons.prems(2) show ?case
    using add_subspace_found [OF assms(1) s1(1)] keeps_foundD(2) [OF k s1(2)] Cons.IH [OF s1(2)]
    by (auto simp: x)
qed simp

lemma stores_and_subspaces_found:
  assumes "registry_laws E" and "names E = N"
    and "RegisterStores E [KVStoreKey (ibc_StoreKey N), KVStoreKey (transfer_StoreKey N),
        KVStoreKey (icahost_StoreKey N), KVStoreKey (icacontroller_StoreKey N)] s = (Ok u, s1)"
    and "register_subspaces E s1 = (Ok u', s2)"
  shows "all_found E s2"
proof -
  have "\<forall>n \<in> {ibc_StoreKey N, transfer_StoreKey N, icahost_StoreKey N, icacontroller_StoreKey N}.
      UnsafeFindStoreKey E n s1 = Some (KVStoreKey n)"
    using assms(1,3) unfolding registry_laws_def by fastforce
  then have "\<forall>n \<in> {ibc_StoreKey N, transfer_StoreKey N, icahost_StoreKey N, icacontroller_StoreKey N}.
      UnsafeFindStoreKey E n s2 = Some (KVStoreKey n)"
    using keeps_foundD(1) [OF keeps_found_subspaces [OF assms(1)] assms(4)] by blast
  moreover have "FindSubspace E n s2 \<noteq> None"
    if "n \<in> {ibc_ModuleName N, transfer_ModuleName N, icahost_SubModuleName N, icacontroller_SubModuleName N}" for n
  proof -
    obtain t where "for_each (\<lambda>(m, table). add_subspace E m table)
        [(ibc_ModuleName N, t), (transfer_ModuleName N, ParamKeyTable E (transfer_ModuleName N)),
         (icacontroller_SubModuleName N, ParamKeyTable E (icacontroller_SubModuleName N)),
         (icahost_SubModuleName N, ParamKeyTable E (icahost_SubModuleName N))] s1 = (Ok u', s2)"
      using assms(2,4) by (auto simp only: register_subspaces_def Let_def bind_Ok_iff lift_outcome_def
          prod.inject)
    from for_each_subspaces_found [OF assms(1) this, of n] that show ?thesis by auto
  qed
  ultimately show ?thesis by (simp add: all_found_def assms(2))
qed

section \<open>An environment\<close>

text \<open>
  A small runtime that satisfies the laws: it keeps the registered stores, the names of the
  subspaces and the routers that were set. A value is a named thing or a list of routes.
\<close>

datatype part = Part string | Routes "(string \<times> part) list"

record registry =
  reg_stores :: "store_key list"
  reg_subspaces :: "string list"
  reg_router :: "part option"
  reg_routerV2 :: "part option"
  reg_height :: int
  reg_versions :: "string \<rightharpoonup> nat"

fun add_part :: "part \<Rightarrow> string \<Rightarrow> part \<Rightarrow> part outcome" where
  "add_part (Routes rs) n m = Ok (Routes ((n, m) # rs))"
| "add_part (Part x) n m = Panic (Error_text ''not a router'')"

fun part_routes :: "part \<Rightarrow> string \<rightharpoonup> part" where
  "part_routes (Routes rs) = map_of rs"
| "part_routes (Part x) = Map.empty"

definition sample_names :: ibc_names where
  "sample_names = \<lparr>ibc_StoreKey = ''ibc'', transfer_StoreKey = ''transfer'', icahost_StoreKey = ''icahost'',
     icacontroller_StoreKey = ''icacontroller'', ibc_ModuleName = ''ibc'', transfer_ModuleName = ''transfer'',
     icahost_SubModuleName = ''icahost'', icacontroller_SubModuleName = ''icacontroller'',
     transfer_PortID = ''transfer'', ibctm_ModuleName = ''07-tendermint'',
     solomachine_ModuleName = ''06-solomachine'', auth_ModuleName = ''auth''\<rparr>"

definition register_all :: "store_key list \<Rightarrow> (registry, unit) eff" where
  "register_all ks s =
     (if distinct (map key_name (ks @ reg_stores s)) then (Ok (), s\<lparr>reg_stores := ks @ reg_stores s\<rparr>)
      else (Err (Error_text ''duplicate store''), s))"

definition find_store :: "string \<Rightarrow> registry \<Rightarrow> store_key option" where
  "find_store n s = List.find (\<lambda>k. key_name k = n) (reg_stores s)"

definition new_subspace :: "string \<Rightarrow> (registry, part) eff" where
  "new_subspace n s =
     (if n \<in> set (reg_subspaces s) then (Panic (Error_text ''subspace already occupied''), s)
      else (Ok (Part n), s\<lparr>reg_subspaces := n # reg_subspaces s\<rparr>))"

definition find_subspace :: "string \<Rightarrow> registry \<Rightarrow> part option" where
  "find_subspace n s = (if n \<in> set (reg_subspaces s) then Some (Part n) else None)"

definition sample_wiring :: "(registry, part) wiring_env" where
  "sample_wiring = \<lparr>names = sample_names, RegisterStores = register_all, UnsafeFindStoreKey = find_store,
     ParamKeyTable = Part, RegisterParamSet = Ok, NewSubspace = new_subspace,
     WithKeyTable = (\<lambda>v t. ret v), FindSubspace = find_subspace, zero_subspace = Part '''',
     GovModuleAddress = Ok ''gov'', MsgServiceRouter = (\<lambda>s. Part ''msgs''), GRPCQueryRouter = (\<lambda>s. Part ''queries''),
     NewIBCKeeper = (\<lambda>c k p u g. ret (Part ''ibc keeper'')), ChannelKeeper = (\<lambda>k. Part ''channel''),
     ClientKeeper = (\<lambda>k. Part ''client''),
     NewTransferKeeper = (\<lambda>c k p h i m a b g. ret (Part ''transfer keeper'')),
     NewICAHostKeeper = (\<lambda>c k p h i a m q g. ret (Part ''host keeper'')),
     NewICAControllerKeeper = (\<lambda>c k p h i m g. ret (Part ''controller keeper'')),
     transfer_NewIBCModule = (\<lambda>k. Part ''transfer stack''), transferv2_NewIBCModule = (\<lambda>k. Part ''transfer v2''),
     icacontroller_NewIBCMiddleware = (\<lambda>k. Part ''controller stack''),
     icahost_NewIBCModule = (\<lambda>k. Part ''host stack''), NewRouter = Routes [], NewRouterV2 = Routes [],
     AddRoute = add_part, AddRouteV2 = add_part,
     SetRouter = (\<lambda>k r s. (Ok (), s\<lparr>reg_router := Some r\<rparr>)),
     SetRouterV2 = (\<lambda>k r s. (Ok (), s\<lparr>reg_routerV2 := Some r\<rparr>)),
     GetStoreProvider = (\<lambda>k. Part ''stores''), tm_NewLightClientModule = (\<lambda>c s. Part ''tm''),
     solo_NewLightClientModule = (\<lambda>c s. Part ''solo''), AddClientRoute = (\<lambda>k n m. ret ()),
     ibc_NewAppModule = (\<lambda>k. Part ''m''), transfer_NewAppModule = (\<lambda>k. Part ''m''),
     ica_NewAppModule = (\<lambda>c h. Part ''m''), tm_NewAppModule = (\<lambda>m. m), solo_NewAppModule = (\<lambda>m. m),
     RegisterModules = (\<lambda>ms. ret ())\<rparr>"

definition empty_registry :: registry where
  "empty_registry = \<lparr>reg_stores = [], reg_subspaces = [], reg_router = None, reg_routerV2 = None,
     reg_height = 0, reg_versions = Map.empty\<rparr>"

definition empty_sys :: "(registry, part) sys" where
  "empty_sys = \<lparr>the_app = new_app, rt = empty_registry\<rparr>"

lemma find_distinct:
  "distinct (map key_name xs) \<Longrightarrow> k \<in> set xs \<Longrightarrow> List.find (\<lambda>j. key_name j = key_name k) xs = Some k"
  by (induction xs) (auto simp: image_iff)

lemma sample_registry_laws: "registry_laws sample_wiring"
proof -
  have "\<forall>k \<in> set ks. find_store (key_name k) s' = Some k" if "register_all ks s = (Ok (), s')" for ks s s'
    using that find_distinct [of "ks @ reg_stores s"]
    by (auto simp: register_all_def find_store_def split: if_splits)
  then show ?thesis
    by (auto simp: registry_laws_def sample_wiring_def keeps_found_def new_subspace_def find_subspace_def
        find_store_def split: if_splits)
qed

lemma sample_registration:
  "\<exists>w'. registerIBCModules sample_wiring (empty_sys\<lparr>the_app := a\<rparr>) = (Ok (), w')
    \<and> reg_router (rt w') = Some (Routes [(''icahost'', Part ''host stack''),
        (''icacontroller'', Part ''controller stack''), (''transfer'', Part ''transfer stack'')])
    \<and> map (\<lambda>n. GetKey sample_wiring n (rt w')) [''ibc'', ''transfer''] = [Some (KVStoreKey ''ibc''), Some (KVStoreKey ''transfer'')]"
  by (simp add: registerIBCModules_def sample_wiring_def sample_names_def empty_sys_def empty_registry_def
      bind_on_rt register_all_def register_subspaces_def add_subspace_def new_subspace_def text_of_def
      build_keepers_def set_routes_def add_light_clients_def GetKey_def find_store_def on_rt_def Let_def)

section \<open>The keepers\<close>

text \<open>
  An environment whose keeper constructors first check the store key and the subspace they are
  given: the key of a registered store with the keeper's name, and a subspace that exists.
\<close>

definition checked_call :: "bool \<Rightarrow> ('s, 'a) eff \<Rightarrow> ('s, 'a) eff" where
  "checked_call ok m = (if ok then m else panic (Error_text ''not registered''))"

definition checked :: "('s, 'v) wiring_env \<Rightarrow> ('s, 'v) wiring_env" where
  "checked E = (let N = names E;
       good = (\<lambda>store sub key p s. key = Some (KVStoreKey store)
         \<and> UnsafeFindStoreKey E store s = key \<and> FindSubspace E sub s = Some p) in
     E\<lparr>NewIBCKeeper := (\<lambda>c k p u g s.
          checked_call (good (ibc_StoreKey N) (ibc_ModuleName N) k p s) (NewIBCKeeper E c k p u g) s),
       NewTransferKeeper := (\<lambda>c k p h i m a b g s.
          checked_call (good (transfer_StoreKey N) (transfer_ModuleName N) k p s)
            (NewTransferKeeper E c k p h i m a b g) s),
       NewICAHostKeeper := (\<lambda>c k p h i a m q g s.
          checked_call (good (icahost_StoreKey N) (icahost_SubModuleName N) k p s)
            (NewICAHostKeeper E c k p h i a m q g) s),
       NewICAControllerKeeper := (\<lambda>c k p h i m g s.
          checked_call (good (icacontroller_StoreKey N) (icacontroller_SubModuleName N) k p s)
            (NewICAControllerKeeper E c k p h i m g) s)\<rparr>)"

lemma keeper_step:
  assumes "all_found E (rt w)" and "keeps_found E m'" and "m (rt w) = m' (rt w)"
    and "\<And>x t. all_found E (rt t) \<Longrightarrow> f x t = g x t"
  shows "bind (on_rt m) f w = bind (on_rt m') g w"
proof (rule bind_cong2)
  show "on_rt m w = on_rt m' w" using assms(3) by (simp add: on_rt_def)
next
  fix x t assume "on_rt m' w = (Ok x, t)"
  then show "f x t = g x t"
    using all_found_keeps [OF assms(1,2)] by (intro assms(4)) (auto simp: on_rt_run)
qed

lemma checked_build_keepers:
  assumes "registry_laws E" and "all_found E (rt w)"
  shows "build_keepers (checked E) g w = build_keepers E g w"
proof -
  have k: "\<And>c k p u g. keeps_found E (NewIBCKeeper E c k p u g)"
    "\<And>c k p h i m a b g. keeps_found E (NewTransferKeeper E c k p h i m a b g)"
    "\<And>c k p h i a m q g. keeps_found E (NewICAHostKeeper E c k p h i a m q g)"
    "\<And>c k p h i m g. keeps_found E (NewICAControllerKeeper E c k p h i m g)"
    using assms(1) by (simp_all add: registry_laws_def)
  have f: "GetKey E n s = Some (KVStoreKey n)" "UnsafeFindStoreKey E n s = Some (KVStoreKey n)"
    if "all_found E s" "n \<in> {ibc_StoreKey (names E), transfer_StoreKey (names E), icahost_StoreKey (names E),
        icacontroller_StoreKey (names E)}" for n s
    using that by (auto simp: all_found_def Let_def GetKey_def)
  have p: "FindSubspace E n s = Some (GetSubspace E n s)"
    if "all_found E s" "n \<in> {ibc_ModuleName (names E), transfer_ModuleName (names E),
        icahost_SubModuleName (names E), icacontroller_SubModuleName (names E)}" for n s
    using that by (auto simp: all_found_def Let_def GetSubspace_def split: option.splits)
  have g: "GetKey (checked E) = GetKey E" "GetSubspace (checked E) = GetSubspace E"
    "names (checked E) = names E" "MsgServiceRouter (checked E) = MsgServiceRouter E"
    "GRPCQueryRouter (checked E) = GRPCQueryRouter E" "ChannelKeeper (checked E) = ChannelKeeper E"
    by (simp_all add: fun_eq_iff GetKey_def GetSubspace_def checked_def Let_def split: option.split)
  note step = bind_step(1) [OF read_assign_run(1)] bind_step(1) [OF read_assign_run(2)]
    bind_step(1) [OF read_assign_run(3)]
  note check = checked_def checked_call_def Let_def f p
  show ?thesis
    unfolding build_keepers_def Let_def g step prod.case
    by (rule keeper_step, rule assms(2), rule k, simp add: check assms(2),
        (rule keeper_step, simp, rule k, simp add: check)+, simp)
qed

lemma checked_fields:
  "RegisterStores (checked E) = RegisterStores E" "register_subspaces (checked E) = register_subspaces E"
  "GovModuleAddress (checked E) = GovModuleAddress E" "set_routes (checked E) = set_routes E"
  "add_light_clients (checked E) = add_light_clients E" "RegisterModules (checked E) = RegisterModules E"
  "names (checked E) = names E" "ibc_NewAppModule (checked E) = ibc_NewAppModule E"
  "transfer_NewAppModule (checked E) = transfer_NewAppModule E"
  "ica_NewAppModule (checked E) = ica_NewAppModule E" "tm_NewAppModule (checked E) = tm_NewAppModule E"
  "solo_NewAppModule (checked E) = solo_NewAppModule E"
  by (simp_all add: checked_def Let_def register_subspaces_def add_subspace_def set_routes_def
      add_light_clients_def fun_eq_iff)

text \<open>
  C16: The IBC keepers are built on what was registered for them: checks in the keeper
  constructors, that each is given the key of a registered key-value store of its own name and
  the parameter subspace of its own module (never a nil key, never the zero subspace), change
  nothing in what the registration does.
\<close>

theorem keepers_get_registered_stores:
  assumes "registry_laws E"
  shows "registerIBCModules (checked E) w = registerIBCModules E w"
  unfolding registerIBCModules_def Let_def checked_fields
proof (intro bind_cong2 refl)
  fix x t assume t: "on_rt (RegisterStores E [KVStoreKey (ibc_StoreKey (names E)),
      KVStoreKey (transfer_StoreKey (names E)), KVStoreKey (icahost_StoreKey (names E)),
      KVStoreKey (icacontroller_StoreKey (names E))]) w = (Ok x, t)"
  fix y v assume v: "on_rt (register_subspaces E) t = (Ok y, v)"
  fix g u assume u: "lift_outcome (text_of (GovModuleAddress E)) v = (Ok g, u)"
  have "all_found E (rt v)"
    using t v by (auto simp: on_rt_run intro: stores_and_subspaces_found [OF assms refl])
  with u show "build_keepers (checked E) g u = build_keepers E g u"
    by (intro checked_build_keepers [OF assms]) simp
qed

theorem keepers_get_registered_stores_witness:
  "fst (registerIBCModules (checked sample_wiring) empty_sys) = Ok ()"
proof -
  have "empty_sys\<lparr>the_app := new_app\<rparr> = empty_sys" by (simp add: empty_sys_def)
  with keepers_get_registered_stores [OF sample_registry_laws, of empty_sys] sample_registration [of new_app]
  show ?thesis by auto
qed

section \<open>The routes\<close>

text \<open>
  What ibc-go promises of its routers: a route is added to the routes there are, setting a
  router on a keeper keeps it there, and the later registrations do not touch it.
\<close>

definition route_laws ::
  "('s, 'v) wiring_env \<Rightarrow> ('v \<Rightarrow> 's \<Rightarrow> 'v option) \<Rightarrow> ('v \<Rightarrow> 's \<Rightarrow> 'v option) \<Rightarrow> ('v \<Rightarrow> string \<rightharpoonup> 'v) \<Rightarrow> bool" where
  "route_laws E router_of routerV2_of routes \<longleftrightarrow>
     routes (NewRouter E) = Map.empty \<and> routes (NewRouterV2 E) = Map.empty \<and>
     (\<forall>r n m r'. AddRoute E r n m = Ok r' \<longrightarrow> routes r' = (routes r)(n \<mapsto> m)) \<and>
     (\<forall>r n m r'. AddRouteV2 E r n m = Ok r' \<longrightarrow> routes r' = (routes r)(n \<mapsto> m)) \<and>
     (\<forall>k r s s'. SetRouter E k r s = (Ok (), s') \<longrightarrow> router_of k s' = Some r) \<and>
     (\<forall>k r s s'. SetRouterV2 E k r s = (Ok (), s') \<longrightarrow> routerV2_of k s' = Some r) \<and>
     (\<forall>k k' r. leaves (router_of k) (SetRouterV2 E k' r)) \<and>
     (\<forall>k k' n m. leaves (router_of k) (AddClientRoute E k' n m)) \<and>
     (\<forall>k k' n m. leaves (routerV2_of k) (AddClientRoute E k' n m)) \<and>
     (\<forall>k ms. leaves (router_of k) (RegisterModules E ms)) \<and>
     (\<forall>k ms. leaves (routerV2_of k) (RegisterModules E ms))"

lemma build_keepers_app:
  assumes "build_keepers E g w = (Ok (ibc, transfer, host, controller), w')"
  shows "the_app w' = (the_app w)\<lparr>IBCKeeper := Some ibc, ICAControllerKeeper := Some controller,
    ICAHostKeeper := Some host, TransferKeeper := Some transfer\<rparr>"
  using assms unfolding build_keepers_def Let_def
  by (auto simp: bind_on_rt ret_def split: prod.splits outcome.splits)

lemma set_routes_sets:
  assumes "route_laws E router_of routerV2_of routes" and "set_routes E ibc transfer host controller s = (Ok u, s')"
  shows "\<exists>r. router_of ibc s' = Some r \<and> routes r = [transfer_ModuleName (names E) \<mapsto> transfer_NewIBCModule E transfer,
        icacontroller_SubModuleName (names E) \<mapsto> icacontroller_NewIBCMiddleware E controller,
        icahost_SubModuleName (names E) \<mapsto> icahost_NewIBCModule E host]"
    and "\<exists>r. routerV2_of ibc s' = Some r \<and> routes r = [transfer_PortID (names E) \<mapsto> transferv2_NewIBCModule E transfer]"
proof -
  let ?N = "names E"
  obtain r1 r2 r3 q s1 where r:
    "AddRoute E (NewRouter E) (transfer_ModuleName ?N) (transfer_NewIBCModule E transfer) = Ok r1"
    "AddRoute E r1 (icacontroller_SubModuleName ?N) (icacontroller_NewIBCMiddleware E controller) = Ok r2"
    "AddRoute E r2 (icahost_SubModuleName ?N) (icahost_NewIBCModule E host) = Ok r3"
    "AddRouteV2 E (NewRouterV2 E) (transfer_PortID ?N) (transferv2_NewIBCModule E transfer) = Ok q"
    and s: "SetRouter E ibc r3 s = (Ok (), s1)" "SetRouterV2 E ibc q s1 = (Ok (), s')"
    using assms(2) by (auto simp: set_routes_def Let_def bind_Ok_iff lift_outcome_def obind_eq_Ok)
  have l: "\<And>r n m r'. AddRoute E r n m = Ok r' \<Longrightarrow> routes r' = (routes r)(n \<mapsto> m)"
    "\<And>r n m r'. AddRouteV2 E r n m = Ok r' \<Longrightarrow> routes r' = (routes r)(n \<mapsto> m)"
    "routes (NewRouter E) = Map.empty" "routes (NewRouterV2 E) = Map.empty"
    "router_of ibc s1 = Some r3" "routerV2_of ibc s' = Some q" "leaves (router_of ibc) (SetRouterV2 E ibc q)"
    using assms(1) s by (simp_all add: route_laws_def)
  show "\<exists>r. router_of ibc s' = Some r \<and> routes r = [transfer_ModuleName ?N \<mapsto> transfer_NewIBCModule E transfer,
        icacontroller_SubModuleName ?N \<mapsto> icacontroller_NewIBCMiddleware E controller,
        icahost_SubModuleName ?N \<mapsto> icahost_NewIBCModule E host]"
    using l(1) [OF r(1)] l(1) [OF r(2)] l(1) [OF r(3)] l(3,5) leavesD [OF l(7) s(2)] by simp
  show "\<exists>r. routerV2_of ibc s' = Some r \<and> routes r = [transfer_PortID ?N \<mapsto> transferv2_NewIBCModule E transfer]"
    using l(2) [OF r(4)] l(4,6) by simp
qed

text \<open>
  C12: When the registration returns, the application's four IBC keepers are set and no other of
  its fields has changed, and the routers of its IBC keeper lead exactly to the modules built on
  these keepers: transfer, the ICA controller and the ICA host, and transfer again for IBC v2.
\<close>

theorem routes_lead_to_the_keepers:
  assumes "route_laws E router_of routerV2_of routes" and "registerIBCModules E w = (Ok (), w')"
  shows "\<exists>ibc transfer host controller r q.
    the_app w' = (the_app w)\<lparr>IBCKeeper := Some ibc, ICAControllerKeeper := Some controller,
      ICAHostKeeper := Some host, TransferKeeper := Some transfer\<rparr> \<and>
    router_of ibc (rt w') = Some r \<and> routerV2_of ibc (rt w') = Some q \<and>
    routes r = [transfer_ModuleName (names E) \<mapsto> transfer_NewIBCModule E transfer,
        icacontroller_SubModuleName (names E) \<mapsto> icacontroller_NewIBCMiddleware E controller,
        icahost_SubModuleName (names E) \<mapsto> icahost_NewIBCModule E host] \<and>
    routes q = [transfer_PortID (names E) \<mapsto> transferv2_NewIBCModule E transfer]"
proof -
  obtain u ta g x ibc transfer host controller y tm solo ms where
    b: "build_keepers E g (w\<lparr>rt := ta\<rparr>) = (Ok (ibc, transfer, host, controller), x)" and
    c: "set_routes E ibc transfer host controller (rt x) = (Ok (), u)" and
    d: "add_light_clients E (appCodec (the_app x)) ibc u = (Ok (tm, solo), y)" and
    e: "RegisterModules E ms y = (Ok (), rt w')" and f: "the_app w' = the_app x"
    using assms(2) unfolding registerIBCModules_def Let_def
    by (clarsimp simp: bind_Ok_iff on_rt_run lift_outcome_def read_app_def)
  have leaves: "leaves (router_of ibc) (RegisterModules E ms)" "leaves (routerV2_of ibc) (RegisterModules E ms)"
    "leaves (router_of ibc) (add_light_clients E (appCodec (the_app x)) ibc)"
    "leaves (routerV2_of ibc) (add_light_clients E (appCodec (the_app x)) ibc)"
    using assms(1) by (simp_all add: route_laws_def add_light_clients_def Let_def leaves_rules)
  have "router_of ibc (rt w') = router_of ibc u" "routerV2_of ibc (rt w') = routerV2_of ibc u"
    using leavesD [OF leaves(1) e] leavesD [OF leaves(2) e] leavesD [OF leaves(3) d] leavesD [OF leaves(4) d]
    by simp_all
  moreover obtain r where "router_of ibc u = Some r" "routes r =
      [transfer_ModuleName (names E) \<mapsto> transfer_NewIBCModule E transfer,
        icacontroller_SubModuleName (names E) \<mapsto> icacontroller_NewIBCMiddleware E controller,
        icahost_SubModuleName (names E) \<mapsto> icahost_NewIBCModule E host]"
    using set_routes_sets(1) [OF assms(1) c] by blast
  moreover obtain q where "routerV2_of ibc u = Some q"
    "routes q = [transfer_PortID (names E) \<mapsto> transferv2_NewIBCModule E transfer]"
    using set_routes_sets(2) [OF assms(1) c] by blast
  ultimately show ?thesis
    using build_keepers_app [OF b] f
    by - (rule exI [of _ ibc], rule exI [of _ transfer], rule exI [of _ host],
        rule exI [of _ controller], rule exI [of _ r], rule exI [of _ q], simp)
qed

theorem routes_lead_to_the_keepers_witness:
  "\<exists>w'. registerIBCModules sample_wiring empty_sys = (Ok (), w')
    \<and> (\<exists>ibc r. IBCKeeper (the_app w') = Some ibc \<and> reg_router (rt w') = Some r
      \<and> part_routes r ''transfer'' = Some (Part ''transfer stack'') \<and> part_routes r ''bank'' = None)"
proof -
  have l: "route_laws sample_wiring (\<lambda>k s. reg_router s) (\<lambda>k s. reg_routerV2 s) part_routes"
    by (auto simp: route_laws_def sample_wiring_def leaves_rules leaves_def elim: add_part.elims)
  have e: "empty_sys\<lparr>the_app := new_app\<rparr> = empty_sys" by (simp add: empty_sys_def)
  obtain w' where w': "registerIBCModules sample_wiring empty_sys = (Ok (), w')"
    using sample_registration [of new_app] e by auto
  have n: "names sample_wiring = sample_names"
    "transfer_NewIBCModule sample_wiring k = Part ''transfer stack''" for k
    by (simp_all add: sample_wiring_def)
  obtain ibc r where "IBCKeeper (the_app w') = Some ibc" "reg_router (rt w') = Some r"
    "part_routes r ''transfer'' = Some (Part ''transfer stack'')" "part_routes r ''bank'' = None"
    using routes_lead_to_the_keepers [OF l w'] by (auto simp: n sample_names_def)
  with w' show ?thesis by blast
qed

section \<open>New\<close>

text \<open>\<open>never_errs m\<close>: \<open>m\<close> has no error result, as the Go functions without one.\<close>

definition never_errs :: "('s, 'a) eff \<Rightarrow> bool" where
  "never_errs m \<longleftrightarrow> (\<forall>s e s'. m s \<noteq> (Err e, s'))"

lemma never_errs_rules:
  "never_errs m \<Longrightarrow> (\<And>x. never_errs (f x)) \<Longrightarrow> never_errs (bind m f)"
  "never_errs (or_panic m')" "never_errs (assign h)" "never_errs (read_rt g)" "never_errs (ret x)"
  "never_errs q \<Longrightarrow> never_errs (on_rt q)"
  by (auto simp: never_errs_def bind_def or_panic_def on_rt_def read_rt_def assign_def
      split: prod.splits outcome.splits)

lemma build_keepers_Some:
  assumes "registerIBCModules E w = (Ok (), w')"
  shows "\<exists>ibc transfer host controller. the_app w' = (the_app w)\<lparr>IBCKeeper := Some ibc,
    ICAControllerKeeper := Some controller, ICAHostKeeper := Some host, TransferKeeper := Some transfer\<rparr>"
proof -
  obtain ta g x ibc transfer host controller where
    "build_keepers E g (w\<lparr>rt := ta\<rparr>) = (Ok (ibc, transfer, host, controller), x)" "the_app w' = the_app x"
    using assms unfolding registerIBCModules_def Let_def
    by (clarsimp simp: bind_Ok_iff on_rt_run lift_outcome_def read_app_def)
  then show ?thesis using build_keepers_app by fastforce
qed

lemma or_panic_Ok: "or_panic m s = (Ok x, s') \<longleftrightarrow> m s = (Ok x, s')"
  by (auto simp: or_panic_def split: prod.splits outcome.splits)

text \<open>What \<^verbatim>\<open>New\<close> has assigned when it returns.\<close>

definition complete_app :: "'v injected \<Rightarrow> 'v app \<Rightarrow> bool" where
  "complete_app i a \<longleftrightarrow> (\<exists>ibc transfer host controller sm.
     a = (inject_into i new_app)\<lparr>IBCKeeper := Some ibc, ICAControllerKeeper := Some controller,
       ICAHostKeeper := Some host, TransferKeeper := Some transfer, sim_manager := Some sm,
       custom_init_chainer := True\<rparr>)"

lemma New_complete:
  assumes "New E A P loadLatest appOpts baseOpts w = (Ok (), w')"
  shows "\<exists>i t. Inject A (container_config A P appOpts) (rt w) = (Ok i, t) \<and> complete_app i (the_app w')"
proof -
  obtain i t t1 w1 sm where
    i: "Inject A (container_config A P appOpts) (rt w) = (Ok i, t)" and
    r: "registerIBCModules E (w\<lparr>the_app := inject_into i new_app, rt := t1\<rparr>) = (Ok (), w1)" and
    a: "the_app w' = (the_app w1)\<lparr>sim_manager := Some sm, custom_init_chainer := True\<rparr>"
    using assms unfolding New_def Let_def
    by (clarsimp simp: bind_Ok_iff on_rt_run or_panic_Ok)
  then show ?thesis
    using build_keepers_Some [OF r] unfolding complete_app_def by fastforce
qed

definition sample_app_env :: "(registry, part, string, string list) app_env" where
  "sample_app_env = \<lparr>genutil_NewAppModuleBasic = Part ''genutil'', Inject = (\<lambda>cs. ret \<lparr>
       in_appBuilder = Part ''builder'', in_appCodec = Part ''codec'',
       in_legacyAmino = Part ''legacyamino'', in_txConfig = Part ''txconfig'',
       in_interfaceRegistry = Part ''interfaceregistry'', in_AuthKeeper = Part ''auth'',
       in_BankKeeper = Part ''bank'', in_StakingKeeper = Part ''staking'',
       in_SlashingKeeper = Part ''slashing'', in_MintKeeper = Part ''mint'',
       in_DistrKeeper = Part ''distr'', in_GovKeeper = Part ''gov'',
       in_UpgradeKeeper = Part ''upgrade'', in_AuthzKeeper = Part ''authz'',
       in_ConsensusParamsKeeper = Part ''consensusparams'',
       in_CircuitBreakerKeeper = Part ''circuitbreaker'', in_ParamsKeeper = Part ''params'',
       in_BPSKeeper = Part ''bps''\<rparr>),
     SetOptimisticExecution = ''optimistic'', Build_app = (\<lambda>b d t os. ret ()),
     auth_NewAppModule = (\<lambda>c k. Part ''auth module''), Modules = (\<lambda>s. [''bank'', ''bps'']),
     NewSimulationManager = (\<lambda>ms over. Part ''sm''), RegisterStoreDecoders = (\<lambda>m. ret ()),
     Load = (\<lambda>latest s. (Ok (), if latest then s\<lparr>reg_height := 10\<rparr> else s)),
     GetVersionMap = (\<lambda>ms. (\<lambda>n. if n \<in> set ms then Some 1 else None)),
     SetModuleVersionMap = (\<lambda>k v s. (Ok (), s\<lparr>reg_versions := v\<rparr>))\<rparr>"

definition sample_process :: "part process_args" where
  "sample_process = \<lparr>logger = Part ''log'', db = Part ''db'', traceStore = Part ''trace''\<rparr>"

lemma sample_New:
  "\<exists>w'. New sample_wiring sample_app_env P latest options os empty_sys = (Ok (), w')
    \<and> reg_height (rt w') = (if latest then 10 else 0)"
  by (simp add: New_def registerIBCModules_def sample_wiring_def sample_names_def empty_sys_def empty_registry_def
      bind_on_rt register_all_def register_subspaces_def add_subspace_def new_subspace_def text_of_def
      build_keepers_def set_routes_def add_light_clients_def GetKey_def find_store_def on_rt_def Let_def
      sample_app_env_def or_panic_def)

text \<open>
  The states in which \<^verbatim>\<open>New\<close> registers the IBC modules and in which it loads the store, when all
  calls before have returned.
\<close>

definition ibc_stage ::
  "('s, 'v, 'o, 'm) app_env \<Rightarrow> 'v process_args \<Rightarrow> 'o \<Rightarrow> 'o list \<Rightarrow> ('s, 'v) sys \<Rightarrow> 'v injected \<Rightarrow> ('s, 'v) sys \<Rightarrow> bool" where
  "ibc_stage A P appOpts baseOpts w i u \<longleftrightarrow> (\<exists>t t1. Inject A (container_config A P appOpts) (rt w) = (Ok i, t)
     \<and> Build_app A (in_appBuilder i) (db P) (traceStore P) (baseOpts @ [SetOptimisticExecution A]) t = (Ok (), t1)
     \<and> u = w\<lparr>the_app := inject_into i new_app, rt := t1\<rparr>)"

definition load_stage ::
  "('s, 'v) wiring_env \<Rightarrow> ('s, 'v, 'o, 'm) app_env \<Rightarrow> 'v process_args \<Rightarrow> 'o \<Rightarrow> 'o list \<Rightarrow> ('s, 'v) sys \<Rightarrow> 's \<Rightarrow> bool" where
  "load_stage E A P appOpts baseOpts w t \<longleftrightarrow> (\<exists>i u u1. ibc_stage A P appOpts baseOpts w i u
     \<and> registerIBCModules E u = (Ok (), u1)
     \<and> RegisterStoreDecoders A (NewSimulationManager A (Modules A (rt u1))
           [auth_ModuleName (names E) \<mapsto> auth_NewAppModule A (in_appCodec i) (in_AuthKeeper i)]) (rt u1) = (Ok (), t))"

lemma New_Inject_errs:
  assumes "Inject A (container_config A P appOpts) (rt w) = (Err e, t)"
  shows "\<exists>w'. New E A P loadLatest appOpts baseOpts w = (Panic e, w') \<and> rt w' = t"
  by (simp add: New_def assign_def bind_def or_panic_def on_rt_def assms)

lemma New_IBC_errs:
  assumes "ibc_stage A P appOpts baseOpts w i u" and "registerIBCModules E u = (Err e, w')"
  shows "New E A P loadLatest appOpts baseOpts w = (Panic e, w')"
proof -
  obtain t t1 where "Inject A (container_config A P appOpts) (rt w) = (Ok i, t)"
    "Build_app A (in_appBuilder i) (db P) (traceStore P) (baseOpts @ [SetOptimisticExecution A]) t = (Ok (), t1)"
    "u = w\<lparr>the_app := inject_into i new_app, rt := t1\<rparr>"
    using assms(1) unfolding ibc_stage_def by blast
  with assms(2) show ?thesis by (simp add: New_def assign_def bind_def or_panic_def on_rt_def)
qed

lemma New_Load_errs:
  assumes "load_stage E A P appOpts baseOpts w t" and "Load A loadLatest t = (Err e, t')"
  shows "\<exists>w'. New E A P loadLatest appOpts baseOpts w = (Panic e, w') \<and> rt w' = t'"
proof -
  obtain i u u1 where "ibc_stage A P appOpts baseOpts w i u"
    and l: "registerIBCModules E u = (Ok (), u1)"
     "RegisterStoreDecoders A (NewSimulationManager A (Modules A (rt u1))
           [auth_ModuleName (names E) \<mapsto> auth_NewAppModule A (in_appCodec i) (in_AuthKeeper i)]) (rt u1) = (Ok (), t)"
    using assms(1) unfolding load_stage_def by blast
  then obtain t0 t1 where "Inject A (container_config A P appOpts) (rt w) = (Ok i, t0)"
    "Build_app A (in_appBuilder i) (db P) (traceStore P) (baseOpts @ [SetOptimisticExecution A]) t0 = (Ok (), t1)"
    "u = w\<lparr>the_app := inject_into i new_app, rt := t1\<rparr>"
    unfolding ibc_stage_def by blast
  with l assms(2) show ?thesis by (simp add: New_def assign_def read_rt_def bind_def or_panic_def on_rt_def Let_def)
qed

lemma New_loads:
  assumes "New E A P loadLatest appOpts baseOpts w = (Ok (), w')"
  shows "\<exists>t. load_stage E A P appOpts baseOpts w t \<and> Load A loadLatest t = (Ok (), rt w')"
  using assms unfolding New_def Let_def load_stage_def ibc_stage_def
  by (clarsimp simp: bind_Ok_iff on_rt_run or_panic_Ok read_rt_def)

text \<open>
  C23: \<^verbatim>\<open>New\<close> has no error result: it panics or it returns an application in which every
  injected keeper, the four IBC keepers and the simulation manager are set and the init chainer
  is installed, on the store that \<^verbatim>\<open>Load\<close> has loaded without an error after all the other steps. An
  error of the injection, of the registration of the IBC modules or of the loading of the store is
  a panic with this error, in the state the failed call has left.
\<close>

theorem New_is_all_or_panic:
  assumes "\<forall>b d t os. never_errs (Build_app A b d t os)" and "\<forall>m. never_errs (RegisterStoreDecoders A m)"
    and "New E A P loadLatest appOpts baseOpts w = (r, w')"
  shows "(\<forall>e. r \<noteq> Err e)
    \<and> (r = Ok () \<longrightarrow> (\<exists>i t. Inject A (container_config A P appOpts) (rt w) = (Ok i, t) \<and> complete_app i (the_app w'))
         \<and> (\<exists>t. load_stage E A P appOpts baseOpts w t \<and> Load A loadLatest t = (Ok (), rt w')))
    \<and> (\<forall>e t. Inject A (container_config A P appOpts) (rt w) = (Err e, t) \<longrightarrow> r = Panic e \<and> rt w' = t)
    \<and> (\<forall>i u e u'. ibc_stage A P appOpts baseOpts w i u \<longrightarrow> registerIBCModules E u = (Err e, u') \<longrightarrow> r = Panic e \<and> w' = u')
    \<and> (\<forall>t e t'. load_stage E A P appOpts baseOpts w t \<longrightarrow> Load A loadLatest t = (Err e, t') \<longrightarrow> r = Panic e \<and> rt w' = t')"
proof (intro conjI allI impI)
  have "never_errs (New E A P loadLatest appOpts baseOpts)"
    using assms(1,2) unfolding New_def Let_def by (simp add: never_errs_rules)
  then show "r \<noteq> Err e" for e using assms(3) unfolding never_errs_def by blast
qed (use New_complete [of E A P loadLatest appOpts baseOpts w w'] New_loads [of E A P loadLatest appOpts baseOpts w w']
      New_Inject_errs [of A P appOpts w _ _ E loadLatest baseOpts] New_IBC_errs [of A P appOpts baseOpts w _ _ E _ _ loadLatest]
      New_Load_errs [of E A P appOpts baseOpts w _ loadLatest] assms(3) in force)+

theorem New_is_all_or_panic_witness:
  "(\<exists>w'. New sample_wiring sample_app_env sample_process True [] [] empty_sys = (Ok (), w')
      \<and> BPSKeeper (the_app w') = Some (Part ''bps'') \<and> IBCKeeper (the_app w') \<noteq> None \<and> custom_init_chainer (the_app w'))
   \<and> (\<exists>w'. New sample_wiring (sample_app_env\<lparr>Load := \<lambda>latest s. (Err (Error_text ''version''), s)\<rparr>) sample_process True [] []
        empty_sys = (Panic (Error_text ''version''), w'))"
proof
  obtain w' where w': "New sample_wiring sample_app_env sample_process True [] [] empty_sys = (Ok (), w')"
    using sample_New [of sample_process True "[]" "[]"] by blast
  have n: "\<forall>b d t os. never_errs (Build_app sample_app_env b d t os)" "\<forall>m. never_errs (RegisterStoreDecoders sample_app_env m)"
    by (simp_all add: sample_app_env_def never_errs_rules)
  from New_is_all_or_panic [OF n w'] w'
  show "\<exists>w'. New sample_wiring sample_app_env sample_process True [] [] empty_sys = (Ok (), w')
      \<and> BPSKeeper (the_app w') = Some (Part ''bps'') \<and> IBCKeeper (the_app w') \<noteq> None \<and> custom_init_chainer (the_app w')"
    by (auto simp: complete_app_def inject_into_def sample_app_env_def ret_def)
  let ?A = "sample_app_env\<lparr>Load := \<lambda>latest s. (Err (Error_text ''version''), s)\<rparr>"
  obtain t where "load_stage sample_wiring sample_app_env sample_process [] [] empty_sys t"
    using New_loads [OF w'] by blast
  then have l: "load_stage sample_wiring ?A sample_process [] [] empty_sys t"
    by (simp add: load_stage_def ibc_stage_def container_config_def)
  have e: "Load ?A True t = (Err (Error_text ''version''), t)" by simp
  obtain r v where r: "New sample_wiring ?A sample_process True [] [] empty_sys = (r, v)" by (cases "New sample_wiring ?A sample_process True [] [] empty_sys")
  have "\<forall>b d t os. never_errs (Build_app ?A b d t os)" "\<forall>m. never_errs (RegisterStoreDecoders ?A m)"
    using n by simp_all
  from New_is_all_or_panic [OF this r] l e have "r = Panic (Error_text ''version'')" by blast
  with r show "\<exists>w'. New sample_wiring ?A sample_process True [] [] empty_sys = (Panic (Error_text ''version''), w')" by blast
qed

text \<open>
  At genesis an application made by \<^verbatim>\<open>New\<close> first stores the module version map of its
  modules with its own upgrade keeper and then runs the runtime's chainer on the state that
  leaves; if the map cannot be stored the chainer does not run.
\<close>

theorem version_map_before_genesis:
  assumes "New E A P loadLatest appOpts baseOpts w = (Ok (), w1)" and "the_app w2 = the_app w1"
  shows "\<exists>k. UpgradeKeeper (the_app w1) = Some k
    \<and> run_InitChainer A chain req w2
      = on_rt (bind (SetModuleVersionMap A k (GetVersionMap A (Modules A (rt w2)))) (\<lambda>_. chain req)) w2"
proof -
  obtain i where "complete_app i (the_app w1)" using New_complete [OF assms(1)] by blast
  then have "UpgradeKeeper (the_app w1) = Some (in_UpgradeKeeper i)" "custom_init_chainer (the_app w1)"
    by (auto simp: complete_app_def inject_into_def)
  then show ?thesis
    by (auto simp: run_InitChainer_def assms(2) bind_on_rt) (auto simp: on_rt_def bind_def split: prod.splits outcome.splits)
qed

theorem version_map_before_genesis_witness:
  "\<exists>w1 w'. New sample_wiring sample_app_env sample_process True [] [] empty_sys = (Ok (), w1)
    \<and> run_InitChainer sample_app_env (\<lambda>req s. (Ok (reg_versions s ''bps''), s)) () w1 = (Ok (Some 1), w')"
proof -
  obtain w1 where w1: "New sample_wiring sample_app_env sample_process True [] [] empty_sys = (Ok (), w1)"
    using sample_New [of sample_process True "[]" "[]"] by blast
  obtain k where k: "run_InitChainer sample_app_env (\<lambda>req s. (Ok (reg_versions s ''bps''), s)) () w1
      = on_rt (bind (SetModuleVersionMap sample_app_env k
          (GetVersionMap sample_app_env (Modules sample_app_env (rt w1))))
          (\<lambda>_ s. (Ok (reg_versions s ''bps''), s))) w1"
    using version_map_before_genesis [OF w1 refl, where req = "()" and
        chain = "\<lambda>req s. (Ok (reg_versions s ''bps''), s)"] by auto
  have m: "SetModuleVersionMap sample_app_env = (\<lambda>k v s. (Ok (), s\<lparr>reg_versions := v\<rparr>))"
    "GetVersionMap sample_app_env (Modules sample_app_env t) ''bps'' = Some 1" for t
    by (simp_all add: sample_app_env_def)
  have "\<exists>w'. run_InitChainer sample_app_env (\<lambda>req s. (Ok (reg_versions s ''bps''), s)) () w1 = (Ok (Some 1), w')"
    unfolding k by (simp add: m on_rt_def bind_def)
  with w1 show ?thesis by blast
qed

end
