(* ===== verification/Zero_Height.thy ===== *)
theory Zero_Height
  imports Bps_Keeper Go_Std
begin

text \<open>
  \<^verbatim>\<open>app/export.go\<close>: the export of the application state, and the preparation of a genesis at
  height zero, which withdraws rewards, re-initialises the distribution state, resets the
  heights in the staking and slashing state and jails the validators that are not on the
  allowed list.

  The keepers belong to the SDK: the record \<open>export_env\<close> holds the calls the code makes, over
  an arbitrary store. An SDK struct keeps the fields the code reads or writes and, as one
  field, the rest of it. The SDK's \<^verbatim>\<open>Iterate\<close> functions take the callback; the store iterator
  is the list of the keys it yields, taken when it is opened.
\<close>

section \<open>Data\<close>

record sdk_context =
  BlockHeight :: int

record validator =
  OperatorAddress :: string
  Jailed :: bool
  UnbondingHeight :: int
  ValidatorRest :: string

record delegation =
  DelegatorAddress :: string
  ValidatorAddress :: string
  DelegationRest :: string

record unbonding_entry =
  CreationHeight :: int
  EntryRest :: string

record redelegation =
  RedelegationKey :: string
  RedelegationEntries :: "unbonding_entry list"

record unbonding_delegation =
  UnbondingKey :: string
  UnbondingEntries :: "unbonding_entry list"

record signing_info =
  StartHeight :: int
  InfoRest :: string

record 'c fee_pool =
  CommunityPool :: 'c

record ('w, 'p) exported_app =
  AppState :: string
  ExportedValidators :: "'w list"
  ExportedHeight :: int
  ConsensusParams :: 'p

record ('s, 'c, 'g, 'w, 'p) export_env =
  LastBlockHeight :: int
  SigningValidatorCodec :: addr_codec
  SigningAddressCodec :: addr_codec
  StakingValidatorCodec :: addr_codec
  IterateValidators :: "sdk_context \<Rightarrow> (validator \<Rightarrow> ('s, bool) eff) \<Rightarrow> ('s, unit) eff"
  WithdrawValidatorCommission :: "sdk_context \<Rightarrow> bytes \<Rightarrow> ('s, 'c) eff"
  GetAllDelegations :: "sdk_context \<Rightarrow> ('s, delegation list) eff"
  WithdrawDelegationRewards :: "sdk_context \<Rightarrow> bytes \<Rightarrow> bytes \<Rightarrow> ('s, 'c) eff"
  DeleteAllValidatorSlashEvents :: "sdk_context \<Rightarrow> ('s, unit) eff"
  DeleteAllValidatorHistoricalRewards :: "sdk_context \<Rightarrow> ('s, unit) eff"
  GetValidatorOutstandingRewardsCoins :: "sdk_context \<Rightarrow> bytes \<Rightarrow> ('s, 'c) eff"
  FeePool_Get :: "sdk_context \<Rightarrow> ('s, 'c fee_pool) eff"
  FeePool_Set :: "sdk_context \<Rightarrow> 'c fee_pool \<Rightarrow> ('s, unit) eff"
  DecCoins_Add :: "'c \<Rightarrow> 'c \<Rightarrow> 'c"
  AfterValidatorCreated :: "sdk_context \<Rightarrow> bytes \<Rightarrow> ('s, unit) eff"
  BeforeDelegationCreated :: "sdk_context \<Rightarrow> bytes \<Rightarrow> bytes \<Rightarrow> ('s, unit) eff"
  AfterDelegationModified :: "sdk_context \<Rightarrow> bytes \<Rightarrow> bytes \<Rightarrow> ('s, unit) eff"
  IterateRedelegations :: "sdk_context \<Rightarrow> (redelegation \<Rightarrow> ('s, bool) eff) \<Rightarrow> ('s, unit) eff"
  SetRedelegation :: "sdk_context \<Rightarrow> redelegation \<Rightarrow> ('s, unit) eff"
  IterateUnbondingDelegations ::
    "sdk_context \<Rightarrow> (unbonding_delegation \<Rightarrow> ('s, bool) eff) \<Rightarrow> ('s, unit) eff"
  SetUnbondingDelegation :: "sdk_context \<Rightarrow> unbonding_delegation \<Rightarrow> ('s, unit) eff"
  ValidatorKeysReverse :: "sdk_context \<Rightarrow> ('s, bytes list) eff"
  AddressFromValidatorsKey :: "bytes \<Rightarrow> bytes"
  IterClose :: "('s, unit) eff"
  LogError :: "string \<Rightarrow> go_error \<Rightarrow> ('s, unit) eff"
  GetValidator :: "sdk_context \<Rightarrow> bytes \<Rightarrow> ('s, validator) eff"
  SetValidator :: "sdk_context \<Rightarrow> validator \<Rightarrow> ('s, unit) eff"
  ApplyAndReturnValidatorSetUpdates :: "sdk_context \<Rightarrow> ('s, unit) eff"
  IterateValidatorSigningInfos ::
    "sdk_context \<Rightarrow> (bytes \<Rightarrow> signing_info \<Rightarrow> ('s, bool) eff) \<Rightarrow> ('s, unit) eff"
  SetValidatorSigningInfo :: "sdk_context \<Rightarrow> bytes \<Rightarrow> signing_info \<Rightarrow> ('s, unit) eff"
  ExportGenesisForModules :: "sdk_context \<Rightarrow> string list \<Rightarrow> ('s, 'g) eff"
  MarshalIndent :: "'g \<Rightarrow> string outcome"
  WriteValidators :: "sdk_context \<Rightarrow> ('s, 'w list) eff"
  GetConsensusParams :: "sdk_context \<Rightarrow> ('s, 'p) eff"

section \<open>The code\<close>

subsection \<open>The allowed list\<close>

text \<open>\<open>allowedAddrsMap\<close> holds exactly the addresses of the list once every one was decoded.\<close>

definition check_allowed :: "('s, 'c, 'g, 'w, 'p) export_env \<Rightarrow> string list \<Rightarrow> ('s, unit) eff" where
  "check_allowed E jailAllowedAddrs =
     for_each (\<lambda>addr.
       bind (or_panic (lift_outcome (StringToBytes (SigningValidatorCodec E) addr))) (\<lambda>_. ret ()))
       jailAllowedAddrs"

definition to_be_jailed :: "string list \<Rightarrow> string \<Rightarrow> bool" where
  "to_be_jailed jailAllowedAddrs valAddr =
     (let applyAllowedAddrs = (length jailAllowedAddrs > 0) in
      applyAllowedAddrs \<and> valAddr \<notin> set jailAllowedAddrs)"

subsection \<open>Fee distribution state\<close>

definition withdraw_commission ::
  "('s, 'c, 'g, 'w, 'p) export_env \<Rightarrow> sdk_context \<Rightarrow> validator \<Rightarrow> ('s, bool) eff" where
  "withdraw_commission E ctx val =
     bind (or_panic (lift_outcome (StringToBytes (StakingValidatorCodec E) (OperatorAddress val))))
       (\<lambda>valBz.
     bind (discard (WithdrawValidatorCommission E ctx valBz)) (\<lambda>_.
     ret False))"

definition withdraw_rewards ::
  "('s, 'c, 'g, 'w, 'p) export_env \<Rightarrow> sdk_context \<Rightarrow> delegation \<Rightarrow> ('s, unit) eff" where
  "withdraw_rewards E ctx del =
     bind (or_panic (lift_outcome (StringToBytes (SigningValidatorCodec E) (ValidatorAddress del))))
       (\<lambda>valAddr.
     bind (or_panic (lift_outcome (StringToBytes (SigningAddressCodec E) (DelegatorAddress del))))
       (\<lambda>delAddr.
     discard (WithdrawDelegationRewards E ctx delAddr valAddr)))"

definition reinit_validator ::
  "('s, 'c, 'g, 'w, 'p) export_env \<Rightarrow> sdk_context \<Rightarrow> validator \<Rightarrow> ('s, bool) eff" where
  "reinit_validator E ctx val =
     bind (or_panic (lift_outcome (StringToBytes (StakingValidatorCodec E) (OperatorAddress val))))
       (\<lambda>valBz.
     bind (or_panic (GetValidatorOutstandingRewardsCoins E ctx valBz)) (\<lambda>rewards.
     bind (or_panic (FeePool_Get E ctx)) (\<lambda>feePool.
     let feePool = feePool\<lparr>CommunityPool := DecCoins_Add E (CommunityPool feePool) rewards\<rparr> in
     bind (or_panic (FeePool_Set E ctx feePool)) (\<lambda>_.
     bind (or_panic (AfterValidatorCreated E ctx valBz)) (\<lambda>_.
     ret False)))))"

definition reinit_delegation ::
  "('s, 'c, 'g, 'w, 'p) export_env \<Rightarrow> sdk_context \<Rightarrow> delegation \<Rightarrow> ('s, unit) eff" where
  "reinit_delegation E ctx del =
     bind (or_panic (lift_outcome (StringToBytes (SigningValidatorCodec E) (ValidatorAddress del))))
       (\<lambda>valAddr.
     bind (or_panic (lift_outcome (StringToBytes (SigningAddressCodec E) (DelegatorAddress del))))
       (\<lambda>delAddr.
     bind (or_panic (map_err (\<lambda>e. Wrapped e ''error while incrementing period'')
             (BeforeDelegationCreated E ctx delAddr valAddr))) (\<lambda>_.
     or_panic (map_err (\<lambda>e. Wrapped e ''error while creating a new delegation period record'')
             (AfterDelegationModified E ctx delAddr valAddr)))))"

definition withdraw_phase ::
  "('s, 'c, 'g, 'w, 'p) export_env \<Rightarrow> sdk_context \<Rightarrow> ('s, delegation list) eff" where
  "withdraw_phase E ctx =
     bind (or_panic (IterateValidators E ctx (withdraw_commission E ctx))) (\<lambda>_.
     bind (or_panic (GetAllDelegations E ctx)) (\<lambda>dels.
     bind (for_each (withdraw_rewards E ctx) dels) (\<lambda>_.
     bind (DeleteAllValidatorSlashEvents E ctx) (\<lambda>_.
     bind (DeleteAllValidatorHistoricalRewards E ctx) (\<lambda>_.
     ret dels)))))"

definition reinit_phase ::
  "('s, 'c, 'g, 'w, 'p) export_env \<Rightarrow> sdk_context \<Rightarrow> delegation list \<Rightarrow> ('s, unit) eff" where
  "reinit_phase E ctx dels =
     (let ctx = ctx\<lparr>BlockHeight := 0\<rparr> in
      bind (or_panic (IterateValidators E ctx (reinit_validator E ctx))) (\<lambda>_.
      for_each (reinit_delegation E ctx) dels))"

subsection \<open>Staking state\<close>

definition zero_entries :: "unbonding_entry list \<Rightarrow> unbonding_entry list" where
  "zero_entries es = map (\<lambda>e. e\<lparr>CreationHeight := 0\<rparr>) es"

definition reset_redelegation ::
  "('s, 'c, 'g, 'w, 'p) export_env \<Rightarrow> sdk_context \<Rightarrow> redelegation \<Rightarrow> ('s, bool) eff" where
  "reset_redelegation E ctx red =
     (let red = red\<lparr>RedelegationEntries := zero_entries (RedelegationEntries red)\<rparr> in
      bind (or_panic (SetRedelegation E ctx red)) (\<lambda>_. ret False))"

definition reset_unbonding ::
  "('s, 'c, 'g, 'w, 'p) export_env \<Rightarrow> sdk_context \<Rightarrow> unbonding_delegation \<Rightarrow> ('s, bool) eff" where
  "reset_unbonding E ctx ubd =
     (let ubd = ubd\<lparr>UnbondingEntries := zero_entries (UnbondingEntries ubd)\<rparr> in
      bind (or_panic (SetUnbondingDelegation E ctx ubd)) (\<lambda>_. ret False))"

definition reset_validator ::
  "('s, 'c, 'g, 'w, 'p) export_env \<Rightarrow> sdk_context \<Rightarrow> string list \<Rightarrow> bytes \<Rightarrow> ('s, unit) eff" where
  "reset_validator E ctx jailAllowedAddrs key =
     (let addr = AddressFromValidatorsKey E key in
      bind (or_panic (map_err (\<lambda>_. Error_text ''expected validator, not found'')
              (GetValidator E ctx addr))) (\<lambda>validator.
      bind (or_panic (lift_outcome (BytesToString (StakingValidatorCodec E) addr))) (\<lambda>valAddr.
      let validator = validator\<lparr>UnbondingHeight := 0\<rparr>;
          validator = (if to_be_jailed jailAllowedAddrs valAddr then validator\<lparr>Jailed := True\<rparr>
                       else validator)
      in or_panic (SetValidator E ctx validator))))"

subsection \<open>Slashing state\<close>

definition reset_signing_info ::
  "('s, 'c, 'g, 'w, 'p) export_env \<Rightarrow> sdk_context \<Rightarrow> bytes \<Rightarrow> signing_info \<Rightarrow> ('s, bool) eff" where
  "reset_signing_info E ctx addr info =
     (let info = info\<lparr>StartHeight := 0\<rparr> in
      bind (discard (SetValidatorSigningInfo E ctx addr info)) (\<lambda>_. ret False))"

subsection \<open>The preparation and the export\<close>

text \<open>\<open>if err := m(); err != nil { handler; return }; rest\<close>\<close>

definition on_error :: "('s, unit) eff \<Rightarrow> (go_error \<Rightarrow> ('s, unit) eff) \<Rightarrow> ('s, unit) eff \<Rightarrow> ('s, unit) eff" where
  "on_error m handler rest = (\<lambda>s. case m s of
     (Ok _, s') \<Rightarrow> rest s'
   | (Err e, s') \<Rightarrow> handler e s'
   | (Panic e, s') \<Rightarrow> (Panic e, s')
   | (Exit c, s') \<Rightarrow> (Exit c, s'))"

definition staking_phase ::
  "('s, 'c, 'g, 'w, 'p) export_env \<Rightarrow> sdk_context \<Rightarrow> string list \<Rightarrow> ('s, unit) eff" where
  "staking_phase E ctx jailAllowedAddrs =
     bind (or_panic (IterateRedelegations E ctx (reset_redelegation E ctx))) (\<lambda>_.
     bind (or_panic (IterateUnbondingDelegations E ctx (reset_unbonding E ctx))) (\<lambda>_.
     bind (ValidatorKeysReverse E ctx) (\<lambda>keys.
     for_each (reset_validator E ctx jailAllowedAddrs) keys)))"

text \<open>
  The end of the preparation: the iterator over the validators is closed, and only if that succeeds
  the validator set is updated and the signing infos are reset.
\<close>

definition closing_phase :: "('s, 'c, 'g, 'w, 'p) export_env \<Rightarrow> sdk_context \<Rightarrow> ('s, unit) eff" where
  "closing_phase E ctx =
     on_error (IterClose E)
       (LogError E ''error while closing the key-value store reverse prefix iterator: '')
       (bind (or_panic (ApplyAndReturnValidatorSetUpdates E ctx)) (\<lambda>_.
        or_panic (IterateValidatorSigningInfos E ctx (reset_signing_info E ctx))))"

definition prepForZeroHeightGenesis ::
  "('s, 'c, 'g, 'w, 'p) export_env \<Rightarrow> sdk_context \<Rightarrow> string list \<Rightarrow> ('s, unit) eff" where
  "prepForZeroHeightGenesis E ctx jailAllowedAddrs =
     bind (check_allowed E jailAllowedAddrs) (\<lambda>_.
     bind (withdraw_phase E ctx) (\<lambda>dels.
     bind (reinit_phase E ctx dels) (\<lambda>_.
     bind (staking_phase E ctx jailAllowedAddrs) (\<lambda>_.
     closing_phase E ctx))))"

definition ExportAppStateAndValidators ::
  "('s, 'c, 'g, 'w, 'p) export_env \<Rightarrow> bool \<Rightarrow> string list \<Rightarrow> string list \<Rightarrow>
   ('s, ('w, 'p) exported_app) eff" where
  "ExportAppStateAndValidators E forZeroHeight jailAllowedAddrs modulesToExport =
     (let ctx = \<lparr>BlockHeight = LastBlockHeight E\<rparr>;
          height = (if forZeroHeight then 0 else wrap64 (LastBlockHeight E + 1)) in
      bind (if forZeroHeight then prepForZeroHeightGenesis E ctx jailAllowedAddrs else ret ()) (\<lambda>_.
      bind (ExportGenesisForModules E ctx modulesToExport) (\<lambda>genState.
      bind (lift_outcome (MarshalIndent E genState)) (\<lambda>appState.
      bind (attempt (WriteValidators E ctx)) (\<lambda>validators.
      bind (GetConsensusParams E ctx) (\<lambda>params.
      bind (lift_outcome validators) (\<lambda>validators.
      ret \<lparr>AppState = appState, ExportedValidators = validators, ExportedHeight = height,
           ConsensusParams = params\<rparr>)))))))"

end
