(* ===== verification/Zero_Height_Spec.thy ===== *)
theory Zero_Height_Spec
  imports Zero_Height
begin

text \<open>
  What the preparation of a height-zero genesis does to the staking and slashing tables, as one
  function on them (\<open>zeroed\<close>), and the proof that the code of \<^verbatim>\<open>app/export.go\<close> computes it
  over every store whose keepers behave as the SDK documents (\<open>table_laws\<close>). What the
  distribution phase does to the community pool and to the delegations' starting heights is
  stated over a second view of the store (\<open>pool_laws\<close>).
\<close>

section \<open>The tables and the specification\<close>

record tables =
  t_validators :: "validator list"
  t_redelegations :: "redelegation list"
  t_unbondings :: "unbonding_delegation list"
  t_infos :: "(bytes \<times> signing_info) list"
  t_delegations :: "delegation list"

definition zero_redelegation :: "redelegation \<Rightarrow> redelegation" where
  "zero_redelegation r = r\<lparr>RedelegationEntries := map (\<lambda>e. e\<lparr>CreationHeight := 0\<rparr>) (RedelegationEntries r)\<rparr>"

definition zero_unbonding :: "unbonding_delegation \<Rightarrow> unbonding_delegation" where
  "zero_unbonding u = u\<lparr>UnbondingEntries := map (\<lambda>e. e\<lparr>CreationHeight := 0\<rparr>) (UnbondingEntries u)\<rparr>"

definition zero_validator :: "string list \<Rightarrow> validator \<Rightarrow> validator" where
  "zero_validator allowed val = val\<lparr>UnbondingHeight := 0,
     Jailed := Jailed val \<or> (allowed \<noteq> [] \<and> OperatorAddress val \<notin> set allowed)\<rparr>"

definition zero_info :: "bytes \<times> signing_info \<Rightarrow> bytes \<times> signing_info" where
  "zero_info p = (fst p, (snd p)\<lparr>StartHeight := 0\<rparr>)"

text \<open>The staking part, before the SDK recomputes the validator set; then the whole.\<close>

definition zeroed_staking :: "string list \<Rightarrow> tables \<Rightarrow> tables" where
  "zeroed_staking allowed w = w\<lparr>
     t_redelegations := map zero_redelegation (t_redelegations w),
     t_unbondings := map zero_unbonding (t_unbondings w),
     t_validators := map (zero_validator allowed) (t_validators w)\<rparr>"

definition zeroed :: "(validator list \<Rightarrow> validator list) \<Rightarrow> bool \<Rightarrow> string list \<Rightarrow> tables \<Rightarrow> tables" where
  "zeroed set_updates close_ok allowed w =
     (let w = zeroed_staking allowed w in
      if close_ok then w\<lparr>t_validators := set_updates (t_validators w),
                         t_infos := map zero_info (t_infos w)\<rparr>
      else w)"

section \<open>What the keepers promise\<close>

text \<open>The stores are keyed, and their addresses are in the codecs' format.\<close>

definition wf_tables :: "('s, 'c, 'g, 'w, 'p) export_env \<Rightarrow> tables \<Rightarrow> bool" where
  "wf_tables E w \<longleftrightarrow>
     distinct (map OperatorAddress (t_validators w)) \<and>
     distinct (map RedelegationKey (t_redelegations w)) \<and>
     distinct (map UnbondingKey (t_unbondings w)) \<and>
     distinct (map fst (t_infos w)) \<and>
     (\<forall>val \<in> set (t_validators w). is_ok (StringToBytes (StakingValidatorCodec E) (OperatorAddress val))) \<and>
     (\<forall>del \<in> set (t_delegations w). is_ok (StringToBytes (SigningValidatorCodec E) (ValidatorAddress del))
       \<and> is_ok (StringToBytes (SigningAddressCodec E) (DelegatorAddress del)))"

text \<open>Distribution calls do not touch the tables; an iteration calls back on every entry.\<close>

definition distribution_laws :: "('s, 'c, 'g, 'w, 'p) export_env \<Rightarrow> ('s \<Rightarrow> tables) \<Rightarrow> bool" where
  "distribution_laws E v \<longleftrightarrow> (\<forall>ctx.
     (\<forall>f s. IterateValidators E ctx f s = iterate f (t_validators (v s)) s) \<and>
     (\<forall>b. quiet v (discard (WithdrawValidatorCommission E ctx b))) \<and>
     (\<forall>w. runs v (GetAllDelegations E ctx) w (t_delegations w) w) \<and>
     (\<forall>d b. quiet v (discard (WithdrawDelegationRewards E ctx d b))) \<and>
     quiet v (DeleteAllValidatorSlashEvents E ctx) \<and>
     quiet v (DeleteAllValidatorHistoricalRewards E ctx) \<and>
     (\<forall>b. quiet v (GetValidatorOutstandingRewardsCoins E ctx b)) \<and>
     quiet v (FeePool_Get E ctx) \<and>
     (\<forall>p. quiet v (FeePool_Set E ctx p)) \<and>
     (\<forall>b. quiet v (AfterValidatorCreated E ctx b)) \<and>
     (\<forall>d b. quiet v (BeforeDelegationCreated E ctx d b)) \<and>
     (\<forall>d b. quiet v (AfterDelegationModified E ctx d b)))"

definition staking_laws ::
  "('s, 'c, 'g, 'w, 'p) export_env \<Rightarrow> ('s \<Rightarrow> tables) \<Rightarrow> (string \<Rightarrow> bytes) \<Rightarrow> bool" where
  "staking_laws E v key \<longleftrightarrow> (\<forall>ctx.
     (\<forall>f s. IterateRedelegations E ctx f s = iterate f (t_redelegations (v s)) s) \<and>
     (\<forall>r w. runs v (SetRedelegation E ctx r) w ()
        (w\<lparr>t_redelegations := replace_by RedelegationKey r (t_redelegations w)\<rparr>)) \<and>
     (\<forall>f s. IterateUnbondingDelegations E ctx f s = iterate f (t_unbondings (v s)) s) \<and>
     (\<forall>u w. runs v (SetUnbondingDelegation E ctx u) w ()
        (w\<lparr>t_unbondings := replace_by UnbondingKey u (t_unbondings w)\<rparr>)) \<and>
     (\<forall>w. runs v (ValidatorKeysReverse E ctx) w
        (map (\<lambda>val. key (OperatorAddress val)) (rev (t_validators w))) w) \<and>
     (\<forall>val w. val \<in> set (t_validators w) \<and> distinct (map OperatorAddress (t_validators w)) \<longrightarrow>
        runs v (GetValidator E ctx (AddressFromValidatorsKey E (key (OperatorAddress val)))) w val w) \<and>
     (\<forall>val (w :: tables). val \<in> set (t_validators w) \<longrightarrow>
        BytesToString (StakingValidatorCodec E) (AddressFromValidatorsKey E (key (OperatorAddress val)))
          = Ok (OperatorAddress val)) \<and>
     (\<forall>val w. runs v (SetValidator E ctx val) w ()
        (w\<lparr>t_validators := replace_by OperatorAddress val (t_validators w)\<rparr>)))"

definition closing_laws ::
  "('s, 'c, 'g, 'w, 'p) export_env \<Rightarrow> ('s \<Rightarrow> tables) \<Rightarrow> (validator list \<Rightarrow> validator list) \<Rightarrow>
   bool \<Rightarrow> bool" where
  "closing_laws E v set_updates close_ok \<longleftrightarrow>
     (\<forall>s. \<exists>s'. v s' = v s \<and>
        (if close_ok then IterClose E s = (Ok (), s') else (\<exists>e. IterClose E s = (Err e, s')))) \<and>
     (\<forall>msg e. quiet v (LogError E msg e)) \<and>
     (\<forall>ctx. (\<forall>w. runs v (ApplyAndReturnValidatorSetUpdates E ctx) w ()
               (w\<lparr>t_validators := set_updates (t_validators w)\<rparr>)) \<and>
       (\<forall>f s. IterateValidatorSigningInfos E ctx f s = iterate (\<lambda>(a, i). f a i) (t_infos (v s)) s) \<and>
       (\<forall>a i w. runs v (SetValidatorSigningInfo E ctx a i) w ()
          (w\<lparr>t_infos := replace_by fst (a, i) (t_infos w)\<rparr>)))"

definition table_laws ::
  "('s, 'c, 'g, 'w, 'p) export_env \<Rightarrow> ('s \<Rightarrow> tables) \<Rightarrow> (string \<Rightarrow> bytes) \<Rightarrow>
   (validator list \<Rightarrow> validator list) \<Rightarrow> bool \<Rightarrow> bool" where
  "table_laws E v key set_updates close_ok \<longleftrightarrow>
     distribution_laws E v \<and> staking_laws E v key \<and> closing_laws E v set_updates close_ok"

section \<open>The phases refine the specification\<close>

lemma runs_check_allowed:
  assumes "\<forall>a \<in> set allowed. is_ok (StringToBytes (SigningValidatorCodec E) a)"
  shows "runs v (check_allowed E allowed) w () w"
  unfolding check_allowed_def
  by (rule runs_for_each [of _ v _ "\<lambda>_. w"]) (use assms in \<open>auto intro!: runs_quiet_bind quiet_or_panic quiet_lift runs_ret\<close>)

lemma runs_iterate_view:
  assumes "\<And>s. it s = iterate f (t (v s)) s" and "runs v (iterate f (t w)) w () w'"
  shows "runs v (or_panic it) w () w'"
  using assms by (intro runs_or_panic) (simp add: runs_def)

lemma runs_withdraw_phase:
  assumes "distribution_laws E v" and "wf_tables E w"
  shows "runs v (withdraw_phase E ctx) w (t_delegations w) w"
proof -
  note L = assms(1) [unfolded distribution_laws_def, rule_format, of ctx]
  have c: "runs v (or_panic (IterateValidators E ctx (withdraw_commission E ctx))) w () w"
  proof (rule runs_iterate_view)
    show "IterateValidators E ctx (withdraw_commission E ctx) s
      = iterate (withdraw_commission E ctx) (t_validators (v s)) s" for s using L by blast
    show "runs v (iterate (withdraw_commission E ctx) (t_validators w)) w () w"
      by (rule runs_iterate [of _ v _ "\<lambda>_. w"])
        (use assms(2) L in \<open>auto simp: withdraw_commission_def wf_tables_def
          intro!: runs_quiet_bind quiet_or_panic quiet_lift runs_ret\<close>)
  qed
  have r: "runs v (for_each (withdraw_rewards E ctx) (t_delegations w)) w () w"
    by (rule runs_for_each [of _ v _ "\<lambda>_. w"])
      (use assms(2) L in \<open>auto simp: withdraw_rewards_def wf_tables_def
        intro!: runs_quiet quiet_bind quiet_or_panic quiet_lift\<close>)
  show ?thesis unfolding withdraw_phase_def
    by (rule runs_bind [OF c] runs_bind [OF runs_or_panic] runs_bind [OF r] runs_quiet_bind runs_ret
        | use L in blast)+
qed

lemma runs_reinit_phase:
  assumes "distribution_laws E v" and "wf_tables E w"
  shows "runs v (reinit_phase E ctx (t_delegations w)) w () w"
proof -
  let ?ctx = "ctx\<lparr>BlockHeight := 0\<rparr>"
  note L = assms(1) [unfolded distribution_laws_def, rule_format, of ?ctx]
  have c: "runs v (or_panic (IterateValidators E ?ctx (reinit_validator E ?ctx))) w () w"
  proof (rule runs_iterate_view)
    show "IterateValidators E ?ctx (reinit_validator E ?ctx) s
      = iterate (reinit_validator E ?ctx) (t_validators (v s)) s" for s using L by blast
    show "runs v (iterate (reinit_validator E ?ctx) (t_validators w)) w () w"
      by (rule runs_iterate [of _ v _ "\<lambda>_. w"])
        (use assms(2) L in \<open>auto simp: reinit_validator_def wf_tables_def Let_def
          intro!: runs_quiet_bind quiet_or_panic quiet_lift runs_ret\<close>)
  qed
  have r: "runs v (for_each (reinit_delegation E ?ctx) (t_delegations w)) w () w"
    by (rule runs_for_each [of _ v _ "\<lambda>_. w"])
      (use assms(2) L in \<open>auto simp: reinit_delegation_def wf_tables_def
        intro!: runs_quiet quiet_bind quiet_or_panic quiet_map_err quiet_lift\<close>)
  show ?thesis unfolding reinit_phase_def Let_def by (rule runs_bind [OF c r])
qed

text \<open>
  A callback that writes the changed entry back, run over all entries, updates the whole
  table; the three iterations with such a callback are instances.
\<close>

lemma runs_update_table:
  assumes "distinct (map key (tab w))" and "\<And>x. key (g x) = key x"
    and "\<And>x l. x \<in> set (tab w) \<Longrightarrow>
      runs v (f x) (put l w) False (put (replace_by key (g x) l) w)"
    and "put (tab w) w = w"
  shows "runs v (iterate f (tab w)) w () (put (map g (tab w)) w)"
proof -
  let ?S = "\<lambda>ys. put (updated g (set ys) (tab w)) w"
  have "runs v (f x) (?S ys) False (?S (ys @ [x]))" if "tab w = ys @ x # zs" for ys x zs
    using assms(3) [of x "updated g (set ys) (tab w)"] replace_updated [OF assms(1,2), of x "set ys"]
      that by simp
  then have "runs v (iterate f (tab w)) (?S []) () (?S (tab w))" by (rule runs_iterate)
  then show ?thesis by (simp add: assms(4))
qed

lemma runs_redelegations:
  assumes "staking_laws E v key" and "wf_tables E w"
  shows "runs v (or_panic (IterateRedelegations E ctx (reset_redelegation E ctx))) w ()
    (w\<lparr>t_redelegations := map zero_redelegation (t_redelegations w)\<rparr>)"
proof (rule runs_iterate_view [where t = t_redelegations])
  show "IterateRedelegations E ctx (reset_redelegation E ctx) s
    = iterate (reset_redelegation E ctx) (t_redelegations (v s)) s" for s
    using assms(1) by (simp add: staking_laws_def)
  have "runs v (SetRedelegation E ctx r) (w\<lparr>t_redelegations := l\<rparr>) ()
      (w\<lparr>t_redelegations := replace_by RedelegationKey r l\<rparr>)" for r l
    using assms(1) [unfolded staking_laws_def, rule_format, of ctx]
    by (metis (no_types, lifting) tables.select_convs(2) tables.surjective tables.update_convs(2))
  then show "runs v (iterate (reset_redelegation E ctx) (t_redelegations w)) w ()
    (w\<lparr>t_redelegations := map zero_redelegation (t_redelegations w)\<rparr>)"
    using assms(2)
    by (intro runs_update_table [where put = "\<lambda>l w. w\<lparr>t_redelegations := l\<rparr>"
          and key = RedelegationKey])
      (auto simp: wf_tables_def zero_redelegation_def zero_entries_def reset_redelegation_def Let_def
        intro!: runs_bind runs_or_panic runs_ret)
qed

lemma runs_unbondings:
  assumes "staking_laws E v key" and "wf_tables E w"
  shows "runs v (or_panic (IterateUnbondingDelegations E ctx (reset_unbonding E ctx))) w ()
    (w\<lparr>t_unbondings := map zero_unbonding (t_unbondings w)\<rparr>)"
proof (rule runs_iterate_view [where t = t_unbondings])
  show "IterateUnbondingDelegations E ctx (reset_unbonding E ctx) s
    = iterate (reset_unbonding E ctx) (t_unbondings (v s)) s" for s
    using assms(1) by (simp add: staking_laws_def)
  have "runs v (SetUnbondingDelegation E ctx r) (w\<lparr>t_unbondings := l\<rparr>) ()
      (w\<lparr>t_unbondings := replace_by UnbondingKey r l\<rparr>)" for r l
    using assms(1) [unfolded staking_laws_def, rule_format, of ctx]
    by (metis (no_types, lifting) tables.select_convs(3) tables.surjective tables.update_convs(3))
  then show "runs v (iterate (reset_unbonding E ctx) (t_unbondings w)) w ()
    (w\<lparr>t_unbondings := map zero_unbonding (t_unbondings w)\<rparr>)"
    using assms(2)
    by (intro runs_update_table [where put = "\<lambda>l w. w\<lparr>t_unbondings := l\<rparr>"
          and key = UnbondingKey])
      (auto simp: wf_tables_def zero_unbonding_def zero_entries_def reset_unbonding_def Let_def
        intro!: runs_bind runs_or_panic runs_ret)
qed

lemma runs_signing_infos:
  assumes "closing_laws E v set_updates close_ok" and "distinct (map fst (t_infos w))"
  shows "runs v (or_panic (IterateValidatorSigningInfos E ctx (reset_signing_info E ctx))) w ()
    (w\<lparr>t_infos := map zero_info (t_infos w)\<rparr>)"
proof (rule runs_iterate_view [where t = t_infos])
  let ?f = "\<lambda>(a, i). reset_signing_info E ctx a i"
  show "IterateValidatorSigningInfos E ctx (reset_signing_info E ctx) s
    = iterate ?f (t_infos (v s)) s" for s
    using assms(1) by (simp add: closing_laws_def)
  have "runs v (SetValidatorSigningInfo E ctx a i) (w\<lparr>t_infos := l\<rparr>) ()
      (w\<lparr>t_infos := replace_by fst (a, i) l\<rparr>)" for a i l
    using assms(1) [unfolded closing_laws_def]
    by (metis (no_types, lifting) tables.select_convs(4) tables.surjective tables.update_convs(4))
  then have "runs v (discard (SetValidatorSigningInfo E ctx a i)) (w\<lparr>t_infos := l\<rparr>) ()
      (w\<lparr>t_infos := replace_by fst (a, i) l\<rparr>)" for a i l
    by (rule runs_discard)
  then show "runs v (iterate ?f (t_infos w)) w () (w\<lparr>t_infos := map zero_info (t_infos w)\<rparr>)"
    using assms(2)
    by (intro runs_update_table [where put = "\<lambda>l w. w\<lparr>t_infos := l\<rparr>" and key = fst])
      (auto simp: zero_info_def reset_signing_info_def Let_def intro!: runs_bind runs_ret)
qed

lemma runs_reset_validator:
  assumes "staking_laws E v key" and "val \<in> set (t_validators w)"
    and "distinct (map OperatorAddress (t_validators w))"
  shows "runs v (reset_validator E ctx allowed (key (OperatorAddress val))) w ()
    (w\<lparr>t_validators := replace_by OperatorAddress (zero_validator allowed val) (t_validators w)\<rparr>)"
proof -
  let ?k = "AddressFromValidatorsKey E (key (OperatorAddress val))"
  have g: "runs v (GetValidator E ctx ?k) w val w"
    and c: "BytesToString (StakingValidatorCodec E) ?k = Ok (OperatorAddress val)"
    and s: "\<And>x. runs v (SetValidator E ctx x) w ()
      (w\<lparr>t_validators := replace_by OperatorAddress x (t_validators w)\<rparr>)"
    using assms unfolding staking_laws_def by blast+
  have z: "(if to_be_jailed allowed (OperatorAddress val) then val\<lparr>UnbondingHeight := 0, Jailed := True\<rparr>
      else val\<lparr>UnbondingHeight := 0\<rparr>) = zero_validator allowed val"
    by (cases val) (simp add: zero_validator_def to_be_jailed_def)
  show ?thesis
    unfolding reset_validator_def Let_def
    by (rule runs_bind [OF runs_or_panic [OF runs_map_err [OF g]]]
        runs_bind [OF runs_or_panic [OF runs_lift [OF c]]])+ (simp add: z s runs_or_panic)
qed

lemma runs_validators:
  assumes "staking_laws E v key" and "distinct (map OperatorAddress (t_validators w))"
  shows "runs v (for_each (reset_validator E ctx allowed)
      (map (\<lambda>val. key (OperatorAddress val)) (rev (t_validators w)))) w ()
    (w\<lparr>t_validators := map (zero_validator allowed) (t_validators w)\<rparr>)"
proof -
  let ?vals = "t_validators w" and ?g = "zero_validator allowed"
  let ?S = "\<lambda>ys. w\<lparr>t_validators := updated ?g (set ys) ?vals\<rparr>"
  have key: "OperatorAddress (?g x) = OperatorAddress x" for x by (simp add: zero_validator_def)
  have "runs v (reset_validator E ctx allowed (key (OperatorAddress x))) (?S ys) () (?S (ys @ [x]))"
    if xs: "rev ?vals = ys @ x # zs" for ys x zs
  proof -
    have "x \<in> set ?vals" using xs by (metis in_set_conv_decomp set_rev)
    moreover have "x \<notin> set ys"
      using assms(2) xs by (metis distinct_map distinct_rev not_distinct_conv_prefix
          distinct_append distinct.simps(2) disjoint_iff list.set_intros(1))
    ultimately have "x \<in> set (t_validators (?S ys))" by (force simp: updated_def)
    moreover have "map OperatorAddress (updated ?g (set ys) ?vals) = map OperatorAddress ?vals"
      using key by (simp add: updated_def)
    ultimately have "runs v (reset_validator E ctx allowed (key (OperatorAddress x))) (?S ys) ()
        ((?S ys)\<lparr>t_validators := replace_by OperatorAddress (?g x) (t_validators (?S ys))\<rparr>)"
      using assms(2) by (intro runs_reset_validator [OF assms(1)]) simp_all
    then
    show ?thesis
      using replace_updated [OF assms(2) key \<open>x \<in> set ?vals\<close>, of "set ys"] by simp
  qed
  then have "runs v (for_each (\<lambda>x. reset_validator E ctx allowed (key (OperatorAddress x))) (rev ?vals))
      (?S []) () (?S (rev ?vals))" by (rule runs_for_each)
  then show ?thesis by (simp add: for_each_map)
qed

lemma runs_staking_phase:
  assumes "staking_laws E v key" and "wf_tables E w"
  shows "runs v (staking_phase E ctx allowed) w () (zeroed_staking allowed w)"
proof -
  let ?w1 = "w\<lparr>t_redelegations := map zero_redelegation (t_redelegations w)\<rparr>"
  let ?w2 = "?w1\<lparr>t_unbondings := map zero_unbonding (t_unbondings w)\<rparr>"
  have wf1: "wf_tables E ?w1"
    using assms(2) by (simp add: wf_tables_def zero_redelegation_def comp_def)
  have u: "runs v (or_panic (IterateUnbondingDelegations E ctx (reset_unbonding E ctx))) ?w1 () ?w2"
    using runs_unbondings [OF assms(1) wf1] by simp
  have k: "runs v (ValidatorKeysReverse E ctx) ?w2
      (map (\<lambda>val. key (OperatorAddress val)) (rev (t_validators ?w2))) ?w2"
    using assms(1) unfolding staking_laws_def by blast
  have l: "runs v (for_each (reset_validator E ctx allowed)
      (map (\<lambda>val. key (OperatorAddress val)) (rev (t_validators ?w2)))) ?w2 ()
      (zeroed_staking allowed w)"
    using runs_validators [OF assms(1), of ?w2 ctx allowed] assms(2)
    by (simp add: wf_tables_def zeroed_staking_def)
  show ?thesis unfolding staking_phase_def
    by (rule runs_bind [OF runs_redelegations [OF assms]] runs_bind [OF u] runs_bind [OF k] l)+
qed

lemma runs_on_error_ok: "runs v m w () w' \<Longrightarrow> runs v rest w' () w'' \<Longrightarrow> runs v (on_error m h rest) w () w''"
  unfolding runs_def on_error_def by fastforce

lemma runs_on_error_err:
  assumes "\<And>s. \<exists>e s'. m s = (Err e, s') \<and> v s' = v s" and "\<And>e. quiet v (h e)"
  shows "runs v (on_error m h rest) w () w"
  unfolding runs_def
proof (intro allI impI)
  fix s assume w: "v s = w"
  obtain e s' where m: "m s = (Err e, s')" "v s' = v s" using assms(1) by blast
  obtain s'' where "h e s' = (Ok (), s'')" "v s'' = v s'"
    using quietE [OF assms(2) [of e], of s'] by (metis old.unit.exhaust)
  with m w show "\<exists>s'. on_error m h rest s = (Ok (), s') \<and> v s' = w" by (simp add: on_error_def)
qed

lemma runs_closing:
  assumes "closing_laws E v set_updates close_ok" and "wf_tables E w"
  shows "runs v (on_error (IterClose E) (LogError E msg)
       (bind (or_panic (ApplyAndReturnValidatorSetUpdates E ctx)) (\<lambda>_.
        or_panic (IterateValidatorSigningInfos E ctx (reset_signing_info E ctx)))))
     (zeroed_staking allowed w) () (zeroed set_updates close_ok allowed w)"
proof (cases close_ok)
  case True
  let ?w = "zeroed_staking allowed w"
  let ?w' = "?w\<lparr>t_validators := set_updates (t_validators ?w)\<rparr>"
  note L = assms(1) [unfolded closing_laws_def]
  have c: "runs v (IterClose E) ?w () ?w" unfolding runs_def
  proof (intro allI impI)
    fix s assume s: "v s = ?w"
    from L True have "\<exists>s'. v s' = v s \<and> IterClose E s = (Ok (), s')" by (metis (full_types))
    with s show "\<exists>s'. IterClose E s = (Ok (), s') \<and> v s' = ?w" by auto
  qed
  have a: "runs v (ApplyAndReturnValidatorSetUpdates E ctx) ?w () ?w'" using L by blast
  have "distinct (map fst (t_infos ?w'))"
    using assms(2) by (simp add: wf_tables_def zeroed_staking_def)
  from runs_signing_infos [OF assms(1) this, of ctx] show ?thesis
    by (intro runs_on_error_ok [OF c] runs_bind [OF runs_or_panic [OF a]])
      (simp add: zeroed_def True Let_def zeroed_staking_def)
next
  case False
  note L = assms(1) [unfolded closing_laws_def]
  have "\<exists>e s'. IterClose E s = (Err e, s') \<and> v s' = v s" for s using L False by (metis (full_types))
  then show ?thesis
    unfolding zeroed_def Let_def using False L by (simp only: if_False) (rule runs_on_error_err, blast+)
qed

lemma prep_refines_zeroed_run:
  assumes "table_laws E v key set_updates close_ok" and "wf_tables E (v s)"
    and "\<forall>a \<in> set allowed. is_ok (StringToBytes (SigningValidatorCodec E) a)"
  shows "\<exists>s'. prepForZeroHeightGenesis E ctx allowed s = (Ok (), s')
    \<and> v s' = zeroed set_updates close_ok allowed (v s)"
proof -
  note L = assms(1) [unfolded table_laws_def]
  have "runs v (prepForZeroHeightGenesis E ctx allowed) (v s) ()
      (zeroed set_updates close_ok allowed (v s))"
    unfolding prepForZeroHeightGenesis_def closing_phase_def
    using L assms(2)
    by (intro runs_bind [OF runs_check_allowed [OF assms(3)]] runs_bind [OF runs_withdraw_phase]
        runs_bind [OF runs_reinit_phase] runs_bind [OF runs_staking_phase] runs_closing) blast+
  then show ?thesis by (simp add: runs_def)
qed

section \<open>Properties\<close>


text \<open>Keepers that do nothing, to build the stores of the examples from.\<close>

definition plain_codec :: addr_codec where
  "plain_codec = \<lparr>StringToBytes = (\<lambda>s. if s = '''' then Err (Error_text ''empty address string is not allowed'')
       else Ok (bytes_of_string s)),
     BytesToString = (\<lambda>b. Ok (string_of_bytes b))\<rparr>"

definition idle_env :: "('s, int, string, unit, unit) export_env" where
  "idle_env = \<lparr>LastBlockHeight = 41,
     SigningValidatorCodec = plain_codec, SigningAddressCodec = plain_codec,
     StakingValidatorCodec = plain_codec,
     IterateValidators = (\<lambda>ctx f. ret ()),
     WithdrawValidatorCommission = (\<lambda>ctx b. raise (Error_text ''no validator commission to withdraw'')),
     GetAllDelegations = (\<lambda>ctx. ret []),
     WithdrawDelegationRewards = (\<lambda>ctx d b. ret 0),
     DeleteAllValidatorSlashEvents = (\<lambda>ctx. ret ()),
     DeleteAllValidatorHistoricalRewards = (\<lambda>ctx. ret ()),
     GetValidatorOutstandingRewardsCoins = (\<lambda>ctx b. ret 0),
     FeePool_Get = (\<lambda>ctx. ret \<lparr>CommunityPool = 0\<rparr>),
     FeePool_Set = (\<lambda>ctx p. ret ()),
     DecCoins_Add = (+),
     AfterValidatorCreated = (\<lambda>ctx b. ret ()),
     BeforeDelegationCreated = (\<lambda>ctx d b. ret ()),
     AfterDelegationModified = (\<lambda>ctx d b. ret ()),
     IterateRedelegations = (\<lambda>ctx f. ret ()),
     SetRedelegation = (\<lambda>ctx r. ret ()),
     IterateUnbondingDelegations = (\<lambda>ctx f. ret ()),
     SetUnbondingDelegation = (\<lambda>ctx u. ret ()),
     ValidatorKeysReverse = (\<lambda>ctx. ret []),
     AddressFromValidatorsKey = tl,
     IterClose = ret (),
     LogError = (\<lambda>msg e. ret ()),
     GetValidator = (\<lambda>ctx b. raise (Error_text ''validator does not exist'')),
     SetValidator = (\<lambda>ctx val. ret ()),
     ApplyAndReturnValidatorSetUpdates = (\<lambda>ctx. ret ()),
     IterateValidatorSigningInfos = (\<lambda>ctx f. ret ()),
     SetValidatorSigningInfo = (\<lambda>ctx a i. ret ()),
     ExportGenesisForModules = (\<lambda>ctx ms. ret ''''),
     MarshalIndent = Ok,
     WriteValidators = (\<lambda>ctx. ret []),
     GetConsensusParams = (\<lambda>ctx. ret ())\<rparr>"

text \<open>A store that holds the tables, and its keepers.\<close>

definition table_text :: "tables \<Rightarrow> string" where
  "table_text w = concat (map (\<lambda>val. Itoa (UnbondingHeight val) @ '';'') (t_validators w))"

definition table_store :: "bool \<Rightarrow> (tables, int, string, unit, unit) export_env" where
  "table_store close_ok = idle_env\<lparr>
     IterateValidators := (\<lambda>ctx f s. iterate f (t_validators s) s),
     GetAllDelegations := (\<lambda>ctx s. (Ok (t_delegations s), s)),
     IterateRedelegations := (\<lambda>ctx f s. iterate f (t_redelegations s) s),
     SetRedelegation := (\<lambda>ctx r s.
       (Ok (), s\<lparr>t_redelegations := replace_by RedelegationKey r (t_redelegations s)\<rparr>)),
     IterateUnbondingDelegations := (\<lambda>ctx f s. iterate f (t_unbondings s) s),
     SetUnbondingDelegation := (\<lambda>ctx u s.
       (Ok (), s\<lparr>t_unbondings := replace_by UnbondingKey u (t_unbondings s)\<rparr>)),
     ValidatorKeysReverse := (\<lambda>ctx s.
       (Ok (map (\<lambda>val. 0x21 # bytes_of_string (OperatorAddress val)) (rev (t_validators s))), s)),
     IterClose := (if close_ok then ret () else raise (Error_text ''iterator closed'')),
     GetValidator := (\<lambda>ctx b s. case filter (\<lambda>val. bytes_of_string (OperatorAddress val) = b)
         (t_validators s) of val # _ \<Rightarrow> (Ok val, s) | [] \<Rightarrow> (Err (Error_text ''not found''), s)),
     SetValidator := (\<lambda>ctx val s.
       (Ok (), s\<lparr>t_validators := replace_by OperatorAddress val (t_validators s)\<rparr>)),
     IterateValidatorSigningInfos := (\<lambda>ctx f s. iterate (\<lambda>(a, i). f a i) (t_infos s) s),
     SetValidatorSigningInfo := (\<lambda>ctx a i s.
       (Ok (), s\<lparr>t_infos := replace_by fst (a, i) (t_infos s)\<rparr>)),
     ExportGenesisForModules := (\<lambda>ctx ms s. (Ok (table_text s), s))\<rparr>"

lemma filter_operator:
  assumes "val \<in> set vals" and "distinct (map OperatorAddress vals)"
  shows "filter (\<lambda>x. OperatorAddress x = OperatorAddress val) vals = [val]"
  using assms by (induction vals) (auto simp: filter_empty_conv intro: rev_image_eqI)

lemma table_store_laws:
  "table_laws (table_store close_ok) (\<lambda>s. s) (\<lambda>s. 0x21 # bytes_of_string s) (\<lambda>vals. vals) close_ok"
proof -
  have "distribution_laws (table_store close_ok) (\<lambda>s. s)"
    by (simp add: distribution_laws_def table_store_def idle_env_def quiet_def runs_def discard_def)
  moreover have "staking_laws (table_store close_ok) (\<lambda>s. s) (\<lambda>s. 0x21 # bytes_of_string s)"
    by (simp add: staking_laws_def table_store_def idle_env_def runs_def plain_codec_def filter_operator)
  moreover have "closing_laws (table_store close_ok) (\<lambda>s. s) (\<lambda>vals. vals) close_ok"
    by (simp add: closing_laws_def table_store_def idle_env_def runs_def quiet_def)
  ultimately show ?thesis by (simp add: table_laws_def)
qed

definition sample_tables :: tables where
  "sample_tables = \<lparr>
     t_validators = [\<lparr>OperatorAddress = ''valA'', Jailed = False, UnbondingHeight = 17, ValidatorRest = ''''\<rparr>,
                     \<lparr>OperatorAddress = ''valB'', Jailed = False, UnbondingHeight = 0, ValidatorRest = ''''\<rparr>],
     t_redelegations = [\<lparr>RedelegationKey = ''r'',
       RedelegationEntries = [\<lparr>CreationHeight = 12, EntryRest = ''''\<rparr>]\<rparr>],
     t_unbondings = [\<lparr>UnbondingKey = ''u'',
       UnbondingEntries = [\<lparr>CreationHeight = 9, EntryRest = ''''\<rparr>]\<rparr>],
     t_infos = [([1], \<lparr>StartHeight = 30, InfoRest = ''''\<rparr>)],
     t_delegations = [\<lparr>DelegatorAddress = ''acc'', ValidatorAddress = ''valA'', DelegationRest = ''''\<rparr>]\<rparr>"

lemma sample_tables_wf: "wf_tables (table_store close_ok) sample_tables"
  by (simp add: wf_tables_def table_store_def idle_env_def plain_codec_def sample_tables_def)


text \<open>
  An address of the allowed list that does not decode stops the preparation with a panic
  before anything is written.
\<close>

theorem invalid_allowed_address_panics_first:
  assumes "a \<in> set allowed" and "StringToBytes (SigningValidatorCodec E) a = Err e"
    and "\<forall>x. is_ok (StringToBytes (SigningValidatorCodec E) x)
      \<or> (\<exists>e. StringToBytes (SigningValidatorCodec E) x = Err e)"
  shows "\<exists>e'. prepForZeroHeightGenesis E ctx allowed s = (Panic e', s)"
proof -
  have "\<exists>e'. check_allowed E allowed s = (Panic e', s)"
    using assms(1)
  proof (induction allowed)
    case (Cons x xs)
    show ?case
    proof (cases "is_ok (StringToBytes (SigningValidatorCodec E) x)")
      case True
      then obtain b where b: "StringToBytes (SigningValidatorCodec E) x = Ok b" by (auto simp: is_ok_iff)
      with assms(2) have "x \<noteq> a" by auto
      with Cons.prems Cons.IH show ?thesis
        by (simp add: check_allowed_def b or_panic_def bind_def split: prod.splits)
    next
      case False
      with assms(3) obtain e' where "StringToBytes (SigningValidatorCodec E) x = Err e'" by blast
      then show ?thesis by (simp add: check_allowed_def or_panic_def bind_def)
    qed
  qed simp
  then obtain e' where "check_allowed E allowed s = (Panic e', s)" by blast
  then show ?thesis by (simp add: prepForZeroHeightGenesis_def closing_phase_def)
qed

theorem invalid_allowed_address_panics_first_witness:
  "\<exists>e'. prepForZeroHeightGenesis (table_store True) \<lparr>BlockHeight = 41\<rparr> [''valB'', ''''] sample_tables
    = (Panic e', sample_tables)"
  by (rule invalid_allowed_address_panics_first [of "''''" _ _
        "Error_text ''empty address string is not allowed''"])
    (auto simp: table_store_def idle_env_def plain_codec_def)

section \<open>The distribution state\<close>

record 'c pool_view =
  p_pool :: 'c
  p_outstanding :: "bytes \<Rightarrow> 'c"
  p_starting :: "bytes \<Rightarrow> bytes \<Rightarrow> int option"

text \<open>
  A created validator starts with no outstanding rewards, and a delegation's starting
  information records the height of the context.
\<close>

definition set_starting ::
  "bytes \<Rightarrow> bytes \<Rightarrow> int \<Rightarrow> (bytes \<Rightarrow> bytes \<Rightarrow> int option) \<Rightarrow> bytes \<Rightarrow> bytes \<Rightarrow> int option" where
  "set_starting d b h st = (\<lambda>d' b'. if d' = d \<and> b' = b then Some h else st d' b')"

definition pool_laws ::
  "('s, 'c, 'g, 'w, 'p) export_env \<Rightarrow> ('s \<Rightarrow> 'c pool_view) \<Rightarrow> validator list \<Rightarrow> 'c \<Rightarrow> bool" where
  "pool_laws E v vals zero \<longleftrightarrow> (\<forall>ctx.
     (\<forall>f s. IterateValidators E ctx f s = iterate f vals s) \<and>
     (\<forall>b w. runs v (GetValidatorOutstandingRewardsCoins E ctx b) w (p_outstanding w b) w) \<and>
     (\<forall>w. runs v (FeePool_Get E ctx) w \<lparr>CommunityPool = p_pool w\<rparr> w) \<and>
     (\<forall>p w. runs v (FeePool_Set E ctx p) w () (w\<lparr>p_pool := CommunityPool p\<rparr>)) \<and>
     (\<forall>b w. runs v (AfterValidatorCreated E ctx b) w ()
        (w\<lparr>p_outstanding := (p_outstanding w)(b := zero)\<rparr>)) \<and>
     (\<forall>d b. quiet v (BeforeDelegationCreated E ctx d b)) \<and>
     (\<forall>d b w. runs v (AfterDelegationModified E ctx d b) w ()
        (w\<lparr>p_starting := set_starting d b (BlockHeight ctx) (p_starting w)\<rparr>)))"

definition donated ::
  "('s, 'c, 'g, 'w, 'p) export_env \<Rightarrow> 'c \<Rightarrow> bytes list \<Rightarrow> 'c pool_view \<Rightarrow> 'c pool_view" where
  "donated E zero addrs w = w\<lparr>
     p_pool := foldl (DecCoins_Add E) (p_pool w) (map (p_outstanding w) addrs),
     p_outstanding := (\<lambda>b. if b \<in> set addrs then zero else p_outstanding w b)\<rparr>"

lemma runs_reinit_validators:
  assumes "pool_laws E v vals zero" and "distinct (map A vals)"
    and "\<forall>val \<in> set vals. StringToBytes (StakingValidatorCodec E) (OperatorAddress val) = Ok (A val)"
  shows "runs v (iterate (reinit_validator E ctx) vals) w () (donated E zero (map A vals) w)"
proof -
  note L = assms(1) [unfolded pool_laws_def, rule_format, of ctx]
  let ?S = "\<lambda>ys. donated E zero (map A ys) w"
  have "runs v (reinit_validator E ctx val) (?S ys) False (?S (ys @ [val]))"
    if vals: "vals = ys @ val # zs" for ys val zs
  proof -
    have out: "p_outstanding (?S ys) (A val) = p_outstanding w (A val)"
      using assms(2) vals by (simp add: donated_def)
    have g: "runs v (GetValidatorOutstandingRewardsCoins E ctx (A val)) (?S ys)
        (p_outstanding (?S ys) (A val)) (?S ys)" using L by blast
    note g = g [unfolded out]
    have p: "runs v (FeePool_Get E ctx) (?S ys) \<lparr>CommunityPool = p_pool (?S ys)\<rparr> (?S ys)"
      using L by blast
    let ?pool = "DecCoins_Add E (p_pool (?S ys)) (p_outstanding w (A val))"
    have "runs v (FeePool_Set E ctx \<lparr>CommunityPool = ?pool\<rparr>) (?S ys) ()
        ((?S ys)\<lparr>p_pool := CommunityPool \<lparr>CommunityPool = ?pool\<rparr>\<rparr>)" using L by blast
    then have f: "runs v (FeePool_Set E ctx \<lparr>CommunityPool = ?pool\<rparr>) (?S ys) () ((?S ys)\<lparr>p_pool := ?pool\<rparr>)"
      by simp
    have "(?S ys)\<lparr>p_pool := ?pool, p_outstanding := (p_outstanding ((?S ys)\<lparr>p_pool := ?pool\<rparr>))(A val := zero)\<rparr>
        = ?S (ys @ [val])" by (rule pool_view.equality) (auto simp: donated_def fun_eq_iff)
    moreover have "runs v (AfterValidatorCreated E ctx (A val)) ((?S ys)\<lparr>p_pool := ?pool\<rparr>) ()
        ((?S ys)\<lparr>p_pool := ?pool, p_outstanding :=
          (p_outstanding ((?S ys)\<lparr>p_pool := ?pool\<rparr>))(A val := zero)\<rparr>)" using L by blast
    ultimately have c: "runs v (AfterValidatorCreated E ctx (A val)) ((?S ys)\<lparr>p_pool := ?pool\<rparr>) ()
        (?S (ys @ [val]))" by simp
    have d: "StringToBytes (StakingValidatorCodec E) (OperatorAddress val) = Ok (A val)"
      using assms(3) vals by simp
    show ?thesis
      unfolding reinit_validator_def Let_def
      by (rule runs_bind [OF runs_or_panic [OF runs_lift [OF d]]]
          runs_bind [OF runs_or_panic [OF g]] runs_bind [OF runs_or_panic [OF p]])+
        (simp only: fee_pool.select_convs fee_pool.update_convs,
         rule runs_bind [OF runs_or_panic [OF f] runs_bind [OF runs_or_panic [OF c] runs_ret]])
  qed
  then have "runs v (iterate (reinit_validator E ctx) vals) (?S []) () (?S vals)" by (rule runs_iterate)
  then show ?thesis by (simp add: donated_def)
qed

definition started ::
  "(delegation \<Rightarrow> bytes) \<Rightarrow> (delegation \<Rightarrow> bytes) \<Rightarrow> delegation list \<Rightarrow> 'c pool_view \<Rightarrow> 'c pool_view" where
  "started D B dels w =
     w\<lparr>p_starting := foldl (\<lambda>st del. set_starting (D del) (B del) 0 st) (p_starting w) dels\<rparr>"

lemma runs_reinit_delegations:
  assumes "pool_laws E v vals zero"
    and "\<forall>del \<in> set dels. StringToBytes (SigningValidatorCodec E) (ValidatorAddress del) = Ok (B del)
      \<and> StringToBytes (SigningAddressCodec E) (DelegatorAddress del) = Ok (D del)"
    and "BlockHeight ctx = 0"
  shows "runs v (for_each (reinit_delegation E ctx) dels) w () (started D B dels w)"
proof -
  note L = assms(1) [unfolded pool_laws_def, rule_format, of ctx]
  let ?S = "\<lambda>ys. started D B ys w"
  have "runs v (reinit_delegation E ctx del) (?S ys) () (?S (ys @ [del]))"
    if dels: "dels = ys @ del # zs" for ys del zs
  proof -
    have a: "StringToBytes (SigningValidatorCodec E) (ValidatorAddress del) = Ok (B del)"
      "StringToBytes (SigningAddressCodec E) (DelegatorAddress del) = Ok (D del)"
      using assms(2) dels by auto
    have "(?S ys)\<lparr>p_starting := set_starting (D del) (B del) (BlockHeight ctx) (p_starting (?S ys))\<rparr>
        = ?S (ys @ [del])" by (simp add: started_def assms(3))
    moreover have "runs v (AfterDelegationModified E ctx (D del) (B del)) (?S ys) ()
        ((?S ys)\<lparr>p_starting := set_starting (D del) (B del) (BlockHeight ctx) (p_starting (?S ys))\<rparr>)"
      using L by blast
    ultimately have m: "runs v (AfterDelegationModified E ctx (D del) (B del)) (?S ys) () (?S (ys @ [del]))"
      by (simp only:)
    show ?thesis
      unfolding reinit_delegation_def
      by (rule runs_bind [OF runs_or_panic [OF runs_lift [OF a(1)]]]
          runs_bind [OF runs_or_panic [OF runs_lift [OF a(2)]]]
          runs_quiet_bind [OF quiet_or_panic [OF quiet_map_err]] runs_or_panic runs_map_err m
          | use L in blast)+
  qed
  then have "runs v (for_each (reinit_delegation E ctx) dels) (?S []) () (?S dels)"
    by (rule runs_for_each)
  then show ?thesis by (simp add: started_def)
qed

lemma started_at_0:
  "del \<in> set dels \<Longrightarrow>
   foldl (\<lambda>st del. set_starting (D del) (B del) 0 st) st dels (D del) (B del) = Some 0"
proof (induction dels rule: rev_induct)
  case (snoc d dels)
  then show ?case by (cases "D del = D d \<and> B del = B d") (auto simp: set_starting_def)
qed simp

lemma worth_foldl:
  "(\<And>a b. worth (add a b) = worth a + (worth b :: int)) \<Longrightarrow>
   worth (foldl add p cs) = worth p + sum_list (map worth cs)"
  by (induction cs arbitrary: p) simp_all

text \<open>
  C15: Re-initialising the distribution state donates what every validator had outstanding to
  the community pool, exactly once: the pool and the outstanding rewards of the validators
  together are worth what they were, nothing stays outstanding, and every delegation's
  starting information is at height 0 although the context the function was called with was
  not.
\<close>

theorem reinit_conserves_rewards:
  assumes "pool_laws E v vals zero" and "distinct (map A vals)"
    and "\<forall>val \<in> set vals. StringToBytes (StakingValidatorCodec E) (OperatorAddress val) = Ok (A val)"
    and "\<forall>del \<in> set dels. StringToBytes (SigningValidatorCodec E) (ValidatorAddress del) = Ok (B del)
      \<and> StringToBytes (SigningAddressCodec E) (DelegatorAddress del) = Ok (D del)"
    and "\<forall>a b. worth (DecCoins_Add E a b) = worth a + (worth b :: int)" and "worth zero = 0"
  shows "\<exists>s'. reinit_phase E ctx dels s = (Ok (), s')
    \<and> worth (p_pool (v s')) = worth (p_pool (v s)) + (\<Sum>val \<leftarrow> vals. worth (p_outstanding (v s) (A val)))
    \<and> (\<forall>val \<in> set vals. worth (p_outstanding (v s') (A val)) = 0)
    \<and> (\<forall>del \<in> set dels. p_starting (v s') (D del) (B del) = Some 0)"
proof -
  let ?ctx = "ctx\<lparr>BlockHeight := 0\<rparr>"
  let ?w = "donated E zero (map A vals) (v s)"
  have "runs v (or_panic (IterateValidators E ?ctx (reinit_validator E ?ctx))) (v s) () ?w"
    using runs_reinit_validators [OF assms(1-3), of ?ctx "v s"] assms(1)
    by (intro runs_or_panic) (simp add: pool_laws_def runs_def)
  then have "runs v (reinit_phase E ctx dels) (v s) () (started D B dels ?w)"
    unfolding reinit_phase_def Let_def
    using runs_reinit_delegations [OF assms(1,4), of ?ctx ?w] by (intro runs_bind) simp_all
  then obtain s' where s': "reinit_phase E ctx dels s = (Ok (), s')" "v s' = started D B dels ?w"
    unfolding runs_def by blast
  have "worth (p_pool (v s')) = worth (p_pool (v s)) + (\<Sum>val \<leftarrow> vals. worth (p_outstanding (v s) (A val)))"
    using worth_foldl [of worth "DecCoins_Add E"] assms(5)
    by (simp add: s'(2) started_def donated_def comp_def)
  moreover have "\<forall>val \<in> set vals. worth (p_outstanding (v s') (A val)) = 0"
    using assms(6) by (simp add: s'(2) started_def donated_def)
  moreover have "\<forall>del \<in> set dels. p_starting (v s') (D del) (B del) = Some 0"
    using started_at_0 by (auto simp: s'(2) started_def)
  ultimately show ?thesis using s'(1) by blast
qed

text \<open>A store with two validators that holds the pool, the rewards and the starting heights.\<close>

definition pool_validators :: "validator list" where
  "pool_validators = [
     \<lparr>OperatorAddress = ''valA'', Jailed = False, UnbondingHeight = 0, ValidatorRest = ''''\<rparr>,
     \<lparr>OperatorAddress = ''valB'', Jailed = False, UnbondingHeight = 0, ValidatorRest = ''''\<rparr>]"

definition pool_store :: "(int pool_view, int, string, unit, unit) export_env" where
  "pool_store = idle_env\<lparr>
     IterateValidators := (\<lambda>ctx f. iterate f pool_validators),
     GetValidatorOutstandingRewardsCoins := (\<lambda>ctx b s. (Ok (p_outstanding s b), s)),
     FeePool_Get := (\<lambda>ctx s. (Ok \<lparr>CommunityPool = p_pool s\<rparr>, s)),
     FeePool_Set := (\<lambda>ctx p s. (Ok (), s\<lparr>p_pool := CommunityPool p\<rparr>)),
     AfterValidatorCreated := (\<lambda>ctx b s.
       (Ok (), s\<lparr>p_outstanding := (p_outstanding s)(b := 0)\<rparr>)),
     AfterDelegationModified := (\<lambda>ctx d b s.
       (Ok (), s\<lparr>p_starting := set_starting d b (BlockHeight ctx) (p_starting s)\<rparr>))\<rparr>"

lemma pool_store_laws: "pool_laws pool_store (\<lambda>s. s) pool_validators 0"
  by (simp add: pool_laws_def pool_store_def idle_env_def runs_def quiet_def)

theorem reinit_conserves_rewards_witness:
  "\<exists>s'. reinit_phase pool_store \<lparr>BlockHeight = 41\<rparr>
      [\<lparr>DelegatorAddress = ''acc'', ValidatorAddress = ''valA'', DelegationRest = ''''\<rparr>]
      \<lparr>p_pool = 100, p_outstanding = (\<lambda>b. 7), p_starting = (\<lambda>d b. None)\<rparr> = (Ok (), s')
    \<and> p_pool s' = 114 \<and> p_starting s' (bytes_of_string ''acc'') (bytes_of_string ''valA'') = Some 0"
  using reinit_conserves_rewards [where A = "\<lambda>val. bytes_of_string (OperatorAddress val)"
      and B = "\<lambda>del. bytes_of_string (ValidatorAddress del)"
      and D = "\<lambda>del. bytes_of_string (DelegatorAddress del)" and worth = "\<lambda>c. c",
      OF pool_store_laws, of "[\<lparr>DelegatorAddress = ''acc'', ValidatorAddress = ''valA'',
        DelegationRest = ''''\<rparr>]" "\<lparr>BlockHeight = 41\<rparr>"
        "\<lparr>p_pool = 100, p_outstanding = (\<lambda>b. 7), p_starting = (\<lambda>d b. None)\<rparr>"]
  by (auto simp: pool_store_def pool_validators_def idle_env_def plain_codec_def)

section \<open>The export\<close>

text \<open>
  An export succeeds on working keepers. For height zero it carries height 0 and the
  genesis of the zeroed tables; otherwise it carries the height after the last block and the
  genesis of the tables as they are, and changes nothing.
\<close>

theorem export_carries_prepared_state:
  assumes "table_laws E v key set_updates close_ok" and "wf_tables E (v s)"
    and "\<forall>a \<in> set allowed. is_ok (StringToBytes (SigningValidatorCodec E) a)"
    and "\<forall>ctx w. runs v (ExportGenesisForModules E ctx mods) w (gen w) w"
    and "\<forall>w. MarshalIndent E (gen w) = Ok (json w)"
    and "\<forall>ctx. quiet v (WriteValidators E ctx)" and "\<forall>ctx. quiet v (GetConsensusParams E ctx)"
    and "0 \<le> LastBlockHeight E" and "LastBlockHeight E + 1 < 2 ^ 63"
  shows "\<exists>a s'. ExportAppStateAndValidators E forZeroHeight allowed mods s = (Ok a, s')
    \<and> v s' = (if forZeroHeight then zeroed set_updates close_ok allowed (v s) else v s)
    \<and> AppState a = json (v s')
    \<and> ExportedHeight a = (if forZeroHeight then 0 else LastBlockHeight E + 1)"
proof -
  define ctx where "ctx = \<lparr>BlockHeight = LastBlockHeight E\<rparr>"
  define w where "w = (if forZeroHeight then zeroed set_updates close_ok allowed (v s) else v s)"
  define h where "h = (if forZeroHeight then 0 else LastBlockHeight E + 1)"
  define prep where "prep = (if forZeroHeight then prepForZeroHeightGenesis E ctx allowed else ret ())"
  obtain s1 where s1: "prep s = (Ok (), s1)" "v s1 = w"
    using prep_refines_zeroed_run [OF assms(1-3), of ctx]
    by (cases forZeroHeight) (auto simp: prep_def w_def)
  obtain s2 where s2: "ExportGenesisForModules E ctx mods s1 = (Ok (gen w), s2)" "v s2 = w"
    using assms(4) s1(2) unfolding runs_def by blast
  obtain vals s3 where s3: "WriteValidators E ctx s2 = (Ok vals, s3)" "v s3 = v s2"
    using quietE [OF assms(6) [rule_format]] .
  obtain ps s4 where s4: "GetConsensusParams E ctx s3 = (Ok ps, s4)" "v s4 = v s3"
    using quietE [OF assms(7) [rule_format]] .
  have "wrap64 (LastBlockHeight E + 1) = LastBlockHeight E + 1"
    using assms(8,9) by (intro wrap64_id) simp_all
  then have h: "(if forZeroHeight then 0 else wrap64 (LastBlockHeight E + 1)) = h"
    by (simp add: h_def)
  let ?a = "\<lparr>AppState = json w, ExportedValidators = vals, ExportedHeight = h, ConsensusParams = ps\<rparr>"
  have "ExportAppStateAndValidators E forZeroHeight allowed mods s = (Ok ?a, s4)"
    unfolding ExportAppStateAndValidators_def Let_def h ctx_def [symmetric] prep_def [symmetric]
    using s1(1) s2(1) s3(1) s4(1) assms(5) by (simp add: attempt_def)
  moreover have "v s4 = w" using s2(2) s3(2) s4(2) by simp
  ultimately show ?thesis unfolding w_def [symmetric] h_def [symmetric]
    by (intro exI [of _ ?a] exI [of _ s4]) simp
qed

theorem export_carries_prepared_state_witness:
  "\<exists>a s'. ExportAppStateAndValidators (table_store True) True [''valB''] [] sample_tables = (Ok a, s')
    \<and> AppState a = table_text s' \<and> ExportedHeight a = 0 \<and> map Jailed (t_validators s') = [True, False]"
proof -
  have "\<forall>a \<in> set [''valB'']. is_ok (StringToBytes (SigningValidatorCodec (table_store True)) a)"
    by (simp add: table_store_def idle_env_def plain_codec_def)
  from export_carries_prepared_state [where v = "\<lambda>s. s" and forZeroHeight = True and mods = "[]"
      and gen = table_text and json = table_text, OF table_store_laws sample_tables_wf this]
  show ?thesis
    by (auto simp: table_store_def idle_env_def runs_def quiet_def zeroed_def zeroed_staking_def
        zero_validator_def to_be_jailed_def sample_tables_def)
qed

end
