(* ===== verification/Export_Command.thy ===== *)
theory Export_Command
  imports App_Wiring_Spec Zero_Height_Spec
begin

text \<open>
  \<^verbatim>\<open>appExport\<close> of \<^verbatim>\<open>cmd/commands.go\<close>: the function behind \<^verbatim>\<open>bpsd export\<close>. It checks the options,
  makes the application with \<open>New\<close>, loads a height and returns what \<open>ExportAppStateAndValidators\<close>
  gives; here the construction of the application and the export of its state come together.
\<close>

section \<open>The command\<close>

text \<open>
  The type assertions on the options are their results: the home directory when it is a string,
  and whether the options are viper's. \<open>X\<close> gives the keepers of an application in a state.
\<close>

record 'o export_options =
  opts :: 'o
  home_string :: "string option"
  is_viper :: bool

definition appExport ::
  "('s, 'v) wiring_env \<Rightarrow> ('s, 'v, 'o, 'm) app_env \<Rightarrow>
   ('v app \<Rightarrow> 's \<Rightarrow> ('s, 'c, 'g, 'w, 'p) export_env) \<Rightarrow> (int \<Rightarrow> ('s, unit) eff) \<Rightarrow>
   'v process_args \<Rightarrow> int \<Rightarrow> bool \<Rightarrow> string list \<Rightarrow> 'o export_options \<Rightarrow> string list \<Rightarrow>
   (('s, 'v) sys, ('w, 'p) exported_app) eff" where
  "appExport E A X LoadHeight P height forZeroHeight jailAllowedAddrs appOpts modulesToExport =
     (if home_string appOpts = None \<or> home_string appOpts = Some '''' then
        raise (Error_text ''application home not set'')
      else if \<not> is_viper appOpts then raise (Error_text ''appOpts is not viper.Viper'')
      else
        bind (if height \<noteq> -1 then
                bind (New E A P False (opts appOpts) []) (\<lambda>_. on_rt (LoadHeight height))
              else New E A P True (opts appOpts) []) (\<lambda>_.
        bind (read_app (\<lambda>a. a)) (\<lambda>bApp.
        on_rt (\<lambda>s. ExportAppStateAndValidators (X bApp s) forZeroHeight jailAllowedAddrs modulesToExport s))))"

section \<open>Properties\<close>

text \<open>
  The export command refuses options without a home directory and options that are not
  viper's before it builds anything; otherwise what it returns is the export of the state that
  \<^verbatim>\<open>New\<close> leaves with the latest version loaded, or, for a height other than -1, of the state that
  loading exactly this height leaves after \<^verbatim>\<open>New\<close> has loaded no version.
\<close>

theorem export_is_of_the_height:
  assumes "appExport E A X LoadHeight P height zero allowed appOpts mods w = (r, w')"
  shows "if home_string appOpts = None \<or> home_string appOpts = Some '''' \<or> \<not> is_viper appOpts
    then w' = w \<and> (\<exists>e. r = Err e)
    else \<forall>x. r = Ok x \<longrightarrow> (\<exists>w1 t. New E A P (height = -1) (opts appOpts) [] w = (Ok (), w1)
      \<and> (if height = -1 then t = rt w1 else LoadHeight height (rt w1) = (Ok (), t))
      \<and> ExportAppStateAndValidators (X (the_app w1) t) zero allowed mods t = (Ok x, rt w')
      \<and> the_app w' = the_app w1)"
  using assms by (auto simp: appExport_def bind_Ok_iff on_rt_run read_app_def split: if_splits)

text \<open>Behind the checks the command runs as its parts do.\<close>

lemma appExport_run:
  assumes "home_string appOpts = Some home" and "home \<noteq> ''''" and "is_viper appOpts"
    and "New E A P (height = -1) (opts appOpts) [] w = (Ok (), w1)"
    and "if height = -1 then t = rt w1 else LoadHeight height (rt w1) = (Ok (), t)"
    and "ExportAppStateAndValidators (X (the_app w1) t) zero allowed mods t = (r, t')"
  shows "appExport E A X LoadHeight P height zero allowed appOpts mods w = (r, w1\<lparr>rt := t'\<rparr>)"
  using assms by (cases "height = -1") (simp_all add: appExport_def on_rt_def read_app_def bind_def)


subsection \<open>An application over the tables\<close>

definition plain_wiring :: "('s, part) wiring_env" where
  "plain_wiring = \<lparr>names = sample_names, RegisterStores = (\<lambda>ks. ret ()), UnsafeFindStoreKey = (\<lambda>n s. Some (KVStoreKey n)),
     ParamKeyTable = Part, RegisterParamSet = Ok, NewSubspace = (\<lambda>n. ret (Part n)),
     WithKeyTable = (\<lambda>v t. ret v), FindSubspace = (\<lambda>n s. Some (Part n)), zero_subspace = Part '''',
     GovModuleAddress = Ok ''gov'', MsgServiceRouter = (\<lambda>s. Part ''msgs''), GRPCQueryRouter = (\<lambda>s. Part ''queries''),
     NewIBCKeeper = (\<lambda>c k p u g. ret (Part ''ibc keeper'')), ChannelKeeper = (\<lambda>k. Part ''channel''),
     ClientKeeper = (\<lambda>k. Part ''client''),
     NewTransferKeeper = (\<lambda>c k p h i m a b g. ret (Part ''transfer keeper'')),
     NewICAHostKeeper = (\<lambda>c k p h i a m q g. ret (Part ''host keeper'')),
     NewICAControllerKeeper = (\<lambda>c k p h i m g. ret (Part ''controller keeper'')),
     transfer_NewIBCModule = id, transferv2_NewIBCModule = id, icacontroller_NewIBCMiddleware = id,
     icahost_NewIBCModule = id, NewRouter = Routes [], NewRouterV2 = Routes [],
     AddRoute = add_part, AddRouteV2 = add_part, SetRouter = (\<lambda>k r. ret ()), SetRouterV2 = (\<lambda>k r. ret ()),
     GetStoreProvider = id, tm_NewLightClientModule = (\<lambda>c s. s), solo_NewLightClientModule = (\<lambda>c s. s),
     AddClientRoute = (\<lambda>k n m. ret ()), ibc_NewAppModule = id, transfer_NewAppModule = id,
     ica_NewAppModule = (\<lambda>c h. c), tm_NewAppModule = id, solo_NewAppModule = id, RegisterModules = (\<lambda>ms. ret ())\<rparr>"

definition plain_app_env :: "('s, part, string, unit) app_env" where
  "plain_app_env = \<lparr>genutil_NewAppModuleBasic = Part ''genutil'',
     Inject = (\<lambda>cs. ret (let p = Part ''injected'' in \<lparr>in_appBuilder = p, in_appCodec = p, in_legacyAmino = p,
       in_txConfig = p, in_interfaceRegistry = p, in_AuthKeeper = p, in_BankKeeper = p, in_StakingKeeper = p,
       in_SlashingKeeper = p, in_MintKeeper = p, in_DistrKeeper = p, in_GovKeeper = p, in_UpgradeKeeper = p,
       in_AuthzKeeper = p, in_ConsensusParamsKeeper = p, in_CircuitBreakerKeeper = p, in_ParamsKeeper = p,
       in_BPSKeeper = p\<rparr>)),
     SetOptimisticExecution = ''optimistic'', Build_app = (\<lambda>b d t os. ret ()),
     auth_NewAppModule = (\<lambda>c k. c), Modules = (\<lambda>s. ()), NewSimulationManager = (\<lambda>ms over. Part ''sm''),
     RegisterStoreDecoders = (\<lambda>m. ret ()), Load = (\<lambda>latest. ret ()), GetVersionMap = (\<lambda>ms. Map.empty),
     SetModuleVersionMap = (\<lambda>k v. ret ())\<rparr>"

lemma plain_New: "\<exists>w'. New plain_wiring plain_app_env P latest options os w = (Ok (), w') \<and> rt w' = rt w"
  by (simp add: New_def registerIBCModules_def plain_wiring_def sample_names_def bind_on_rt
      register_subspaces_def add_subspace_def text_of_def build_keepers_def set_routes_def add_light_clients_def
      GetKey_def on_rt_def Let_def plain_app_env_def or_panic_def)


end
