(* ===== verification/Gateway.thy ===== *)
theory Gateway
  imports Bps_Keeper Go_Std
begin

text \<open>
  \<^verbatim>\<open>x/bps/types/query.pb.gw.go\<close>: the REST gateway of the query service. It puts one handler on
  the multiplexer, which annotates the context, calls the query (of the server directly, or of a
  client over a connection) and writes the answer or the error; and it dials an endpoint whose
  connection is closed when the registration fails or when the context is done.

  The runtime of the gateway is the record \<open>gateway_env\<close> over the state \<open>'s\<close>: its multiplexer has
  type \<open>'mux\<close>, a request \<open>'req\<close>, a context \<open>'ctx\<close> and header metadata \<open>'md\<close>. Which handler of a
  multiplexer serves a request is the function \<open>serve\<close> of \<open>mux_laws\<close>.
\<close>

section \<open>The runtime\<close>

record 'md metadata =
  HeaderMD :: 'md
  TrailerMD :: 'md

type_synonym ('s, 'req) handler = "'req \<Rightarrow> ('s, unit) eff"

text \<open>A pattern is a list of operations, each a code and an operand, and the pool of its literals.\<close>

type_synonym pattern = "nat list \<times> string list"

record ('s, 'req, 'ctx, 'md, 'mux) gateway_env =
  mux_Handle :: "string \<Rightarrow> pattern \<Rightarrow> ('s, 'req) handler \<Rightarrow> 'mux \<Rightarrow> 'mux"
  empty_md :: 'md
  metadata_Join :: "'md \<Rightarrow> 'md \<Rightarrow> 'md"
  AnnotateContext :: "'req \<Rightarrow> ('s, 'ctx) eff"
  AnnotateIncomingContext :: "'req \<Rightarrow> ('s, 'ctx) eff"
  stream_Header :: "'ctx \<Rightarrow> 's \<Rightarrow> 'md"
  stream_Trailer :: "'ctx \<Rightarrow> 's \<Rightarrow> 'md"
  HTTPError :: "'md metadata option \<Rightarrow> go_error \<Rightarrow> ('s, unit) eff"
  ForwardResponseMessage :: "'md metadata \<Rightarrow> query_params_response \<Rightarrow> ('s, unit) eff"

definition pattern_Query_Params_0 :: pattern where
  "pattern_Query_Params_0 =
     ([2, 0, 2, 1, 2, 1, 2, 2, 2, 3], [''antasena'', ''bps'', ''v1'', ''params''])"

text \<open>
  What the runtime documents of patterns and of its multiplexer. The code 2 pushes the literal with
  the operand's index in the pool; a pattern of literals matches the path made of them. A handler
  put on the multiplexer serves the requests of its method whose path the pattern matches, when
  nothing that was put there before serves them; otherwise it depends on an option of the
  multiplexer whether the first or the last match wins, and nothing is assumed.
\<close>

fun pattern_segments :: "nat list \<Rightarrow> string list \<Rightarrow> string list option" where
  "pattern_segments [] pool = Some []"
| "pattern_segments [x] pool = None"
| "pattern_segments (code # i # ops) pool =
     (if code = 2 \<and> i < length pool
      then (case pattern_segments ops pool of Some segs \<Rightarrow> Some (pool ! i # segs) | None \<Rightarrow> None)
      else None)"

definition mux_laws ::
  "('s, 'req, 'ctx, 'md, 'mux) gateway_env \<Rightarrow> ('mux \<Rightarrow> string \<Rightarrow> string \<Rightarrow> ('s, 'req) handler option) \<Rightarrow> bool" where
  "mux_laws E serve \<longleftrightarrow> (\<forall>meth ops pool segs h m.
     pattern_segments ops pool = Some segs \<longrightarrow> segs \<noteq> [] \<longrightarrow>
     (\<forall>w \<in> set segs. w \<noteq> [] \<and> CHR ''/'' \<notin> set w \<and> CHR '':'' \<notin> set w) \<longrightarrow>
     serve m meth (CHR ''/'' # strings_Join segs (CHR ''/'')) = None \<longrightarrow>
     serve (mux_Handle E meth (ops, pool) h m) meth (CHR ''/'' # strings_Join segs (CHR ''/'')) = Some h)"

section \<open>The handlers\<close>

text \<open>
  Both requests return the message or the error together with the metadata; a call of a client
  stores the header and the trailer it got, whether it fails or not.
\<close>

definition request_Query_Params_0 ::
  "('s, 'req, 'ctx, 'md, 'mux) gateway_env \<Rightarrow> ('ctx \<Rightarrow> query_params_request option \<Rightarrow> ('s, query_params_response outcome \<times> 'md metadata) eff) \<Rightarrow>
   'ctx \<Rightarrow> ('s, query_params_response outcome \<times> 'md metadata) eff" where
  "request_Query_Params_0 E client_Params ctx =
     bind (client_Params ctx (Some QueryParamsRequest)) (\<lambda>(msg, md). ret (msg, md))"

definition local_request_Query_Params_0 ::
  "('s, 'req, 'ctx, 'md, 'mux) gateway_env \<Rightarrow> ('ctx \<Rightarrow> query_params_request option \<Rightarrow> ('s, query_params_response) eff) \<Rightarrow>
   'ctx \<Rightarrow> ('s, query_params_response outcome \<times> 'md metadata) eff" where
  "local_request_Query_Params_0 E server_Params ctx =
     bind (attempt (server_Params ctx (Some QueryParamsRequest))) (\<lambda>r.
     ret (r, \<lparr>HeaderMD = empty_md E, TrailerMD = empty_md E\<rparr>))"

text \<open>\<open>if err != nil { HTTPError; return }; forward\<close>\<close>

definition answer ::
  "('s, 'req, 'ctx, 'md, 'mux) gateway_env \<Rightarrow> query_params_response outcome \<Rightarrow> 'md metadata \<Rightarrow> ('s, unit) eff" where
  "answer E r md =
     (case r of
        Ok resp \<Rightarrow> ForwardResponseMessage E md resp
      | Err e \<Rightarrow> HTTPError E (Some md) e
      | Panic e \<Rightarrow> panic e
      | Exit c \<Rightarrow> lift_outcome (Exit c))"

definition RegisterQueryHandlerServer ::
  "('s, 'req, 'ctx, 'md, 'mux) gateway_env \<Rightarrow> ('ctx \<Rightarrow> query_params_request option \<Rightarrow> ('s, query_params_response) eff) \<Rightarrow>
   'mux \<Rightarrow> 'mux outcome" where
  "RegisterQueryHandlerServer E server_Params m =
     Ok (mux_Handle E ''GET'' pattern_Query_Params_0 (\<lambda>req.
       bind (attempt (AnnotateIncomingContext E req)) (\<lambda>r.
       case r of
         Err e \<Rightarrow> HTTPError E None e
       | Panic e \<Rightarrow> panic e
       | Exit c \<Rightarrow> lift_outcome (Exit c)
       | Ok rctx \<Rightarrow>
           bind (local_request_Query_Params_0 E server_Params rctx) (\<lambda>(resp, md).
           bind (\<lambda>s. (Ok (md\<lparr>HeaderMD := metadata_Join E (HeaderMD md) (stream_Header E rctx s),
                            TrailerMD := metadata_Join E (TrailerMD md) (stream_Trailer E rctx s)\<rparr>), s)) (\<lambda>md.
           answer E resp md)))) m)"

definition RegisterQueryHandlerClient ::
  "('s, 'req, 'ctx, 'md, 'mux) gateway_env \<Rightarrow>
   ('ctx \<Rightarrow> query_params_request option \<Rightarrow> ('s, query_params_response outcome \<times> 'md metadata) eff) \<Rightarrow>
   'mux \<Rightarrow> 'mux outcome" where
  "RegisterQueryHandlerClient E client_Params m =
     Ok (mux_Handle E ''GET'' pattern_Query_Params_0 (\<lambda>req.
       bind (attempt (AnnotateContext E req)) (\<lambda>r.
       case r of
         Err e \<Rightarrow> HTTPError E None e
       | Panic e \<Rightarrow> panic e
       | Exit c \<Rightarrow> lift_outcome (Exit c)
       | Ok rctx \<Rightarrow>
           bind (request_Query_Params_0 E client_Params rctx) (\<lambda>(resp, md).
           answer E resp md))) m)"

section \<open>Connections\<close>

text \<open>
  The goroutine that waits for the context to be done and then closes its connection is an
  entry of \<open>at_done\<close>, with the endpoint it would name; \<open>context_done\<close> runs all of them.
\<close>

record ('s, 'conn) dialing =
  net :: 's
  at_done :: "(string \<times> 'conn) list"

record ('s, 'conn) grpc_env =
  Dial :: "string \<Rightarrow> ('s, 'conn) eff"
  conn_Close :: "'conn \<Rightarrow> ('s, unit) eff"
  grpclog_Infof :: "string \<Rightarrow> go_error \<Rightarrow> ('s, unit) eff"

definition on_net :: "('s, 'a) eff \<Rightarrow> (('s, 'conn) dialing, 'a) eff" where
  "on_net m = (\<lambda>d. let (r, t) = m (net d) in (r, d\<lparr>net := t\<rparr>))"

definition close_logged :: "('s, 'conn) grpc_env \<Rightarrow> string \<Rightarrow> 'conn \<Rightarrow> ('s, unit) eff" where
  "close_logged G endpoint conn =
     bind (attempt (conn_Close G conn)) (\<lambda>r. case r of
       Err cerr \<Rightarrow> grpclog_Infof G (''Failed to close conn to '' @ endpoint) cerr
     | Panic e \<Rightarrow> panic e
     | Exit c \<Rightarrow> lift_outcome (Exit c)
     | Ok _ \<Rightarrow> ret ())"

definition RegisterQueryHandler ::
  "('s, 'req, 'ctx, 'md, 'mux) gateway_env \<Rightarrow>
   ('conn \<Rightarrow> 'ctx \<Rightarrow> query_params_request option \<Rightarrow> ('s, query_params_response outcome \<times> 'md metadata) eff) \<Rightarrow>
   'mux \<Rightarrow> 'conn \<Rightarrow> 'mux outcome" where
  "RegisterQueryHandler E NewQueryClient m conn = RegisterQueryHandlerClient E (NewQueryClient conn) m"

text \<open>
  The deferred function looks at the result of the registration: after an error it closes the
  connection at once, otherwise the connection waits for the context.
\<close>

definition after_register ::
  "('s, 'conn) grpc_env \<Rightarrow> string \<Rightarrow> 'conn \<Rightarrow> 'a outcome \<Rightarrow> (('s, 'conn) dialing, 'a) eff" where
  "after_register G endpoint conn r =
     (case r of
        Err e \<Rightarrow> bind (on_net (close_logged G endpoint conn)) (\<lambda>_. raise e)
      | _ \<Rightarrow> (\<lambda>d. (r, d\<lparr>at_done := (endpoint, conn) # at_done d\<rparr>)))"

definition RegisterQueryHandlerFromEndpoint ::
  "('s, 'conn) grpc_env \<Rightarrow> ('s, 'req, 'ctx, 'md, 'mux) gateway_env \<Rightarrow>
   ('conn \<Rightarrow> 'ctx \<Rightarrow> query_params_request option \<Rightarrow> ('s, query_params_response outcome \<times> 'md metadata) eff) \<Rightarrow>
   'mux \<Rightarrow> string \<Rightarrow> (('s, 'conn) dialing, 'mux) eff" where
  "RegisterQueryHandlerFromEndpoint G E NewQueryClient m endpoint =
     bind (on_net (Dial G endpoint)) (\<lambda>conn.
     after_register G endpoint conn (RegisterQueryHandler E NewQueryClient m conn))"

definition context_done :: "('s, 'conn) grpc_env \<Rightarrow> (('s, 'conn) dialing, unit) eff" where
  "context_done G =
     (\<lambda>d. on_net (for_each (\<lambda>(endpoint, conn). close_logged G endpoint conn) (at_done d)) (d\<lparr>at_done := []\<rparr>))"

section \<open>Properties\<close>

text \<open>
  A runtime for the witnesses: the state is the stored parameters and the log of what was
  written to clients; a request is the answer to whether its context can be annotated.
\<close>

datatype written = Wrote_error go_error | Wrote_params params

record gw_state =
  gw_params :: "params option"
  gw_log :: "written list"

definition sample_item :: "(gw_state, params) item" where
  "sample_item = \<lparr>item_Get = (\<lambda>s. case gw_params s of Some p \<Rightarrow> (Ok p, s) | None \<Rightarrow> (Err (Error_text ''not found''), s)),
     item_Set = (\<lambda>p s. (Ok (), s\<lparr>gw_params := Some p\<rparr>)), ErrNotFound = Error_text ''not found''\<rparr>"

definition sample_keeper :: "gw_state keeper" where
  "sample_keeper = \<lparr>storeService = \<lparr>NewSchemaBuilder = \<lparr>NewItem = (\<lambda>_ _ _. sample_item), Build = Ok 0\<rparr>\<rparr>,
     keeper_cdc = sample_json, addressCodec = \<lparr>StringToBytes = (\<lambda>t. Ok []), BytesToString = (\<lambda>b. Ok '''')\<rparr>,
     authority = [], Schema = 0, ParamsItem = sample_item\<rparr>"

text \<open>
  Its multiplexer is the list of its handlers, in the order they were put there; the first that
  matches serves the request.
\<close>

type_synonym ('s, 'req) handlers = "(string \<times> pattern \<times> ('s, 'req) handler) list"

definition first_match :: "('s, 'req) handlers \<Rightarrow> string \<Rightarrow> string \<Rightarrow> ('s, 'req) handler option" where
  "first_match m meth path =
     (case List.find (\<lambda>(meth', (ops, pool), h). meth' = meth \<and>
             map_option (\<lambda>segs. CHR ''/'' # strings_Join segs (CHR ''/'')) (pattern_segments ops pool) = Some path) m of
        Some (_, _, h) \<Rightarrow> Some h | None \<Rightarrow> None)"

lemma first_match_snoc:
  "first_match (m @ [(meth, (ops, pool), h)]) meth path = (case first_match m meth path of Some h' \<Rightarrow> Some h'
     | None \<Rightarrow> if map_option (\<lambda>segs. CHR ''/'' # strings_Join segs (CHR ''/'')) (pattern_segments ops pool) = Some path
         then Some h else None)"
  by (induction m) (auto simp: first_match_def split: option.splits)

definition sample_gateway :: "(gw_state, bool, unit, unit, (gw_state, bool) handlers) gateway_env" where
  "sample_gateway = \<lparr>mux_Handle = (\<lambda>meth pat h m. m @ [(meth, pat, h)]), empty_md = (), metadata_Join = (\<lambda>a b. ()),
     AnnotateContext = (\<lambda>ok. if ok then ret () else raise (Error_text ''bad header'')),
     AnnotateIncomingContext = (\<lambda>ok. if ok then ret () else raise (Error_text ''bad header'')),
     stream_Header = (\<lambda>c s. ()), stream_Trailer = (\<lambda>c s. ()),
     HTTPError = (\<lambda>md e s. (Ok (), s\<lparr>gw_log := Wrote_error e # gw_log s\<rparr>)),
     ForwardResponseMessage = (\<lambda>md r s. (Ok (), s\<lparr>gw_log := Wrote_params (ResponseParams r) # gw_log s\<rparr>))\<rparr>"

lemma sample_mux_laws: "mux_laws sample_gateway first_match"
  by (simp add: mux_laws_def sample_gateway_def first_match_snoc)

lemma sample_item_laws: "item_laws (ParamsItem sample_keeper) gw_params"
  by (simp add: item_laws_def sample_keeper_def sample_item_def hoare_def split: option.split)

text \<open>The pattern matches the path of the service definition.\<close>

abbreviation params_path :: string where
  "params_path \<equiv> ''/antasena/bps/bps/v1/params''"

lemma params_handler_serves:
  assumes "mux_laws E serve" and "serve m ''GET'' params_path = None"
  shows "serve (mux_Handle E ''GET'' pattern_Query_Params_0 h m) ''GET'' params_path = Some h"
proof -
  let ?segs = "[''antasena'', ''bps'', ''bps'', ''v1'', ''params'']"
  have p: "CHR ''/'' # strings_Join ?segs (CHR ''/'') = params_path" by simp
  have s: "pattern_segments (fst pattern_Query_Params_0) (snd pattern_Query_Params_0) = Some ?segs"
    by (simp add: pattern_Query_Params_0_def)
  have w: "\<forall>w \<in> set ?segs. w \<noteq> [] \<and> CHR ''/'' \<notin> set w \<and> CHR '':'' \<notin> set w" by simp
  have n: "serve m ''GET'' (CHR ''/'' # strings_Join ?segs (CHR ''/'')) = None" unfolding p by (rule assms(2))
  show ?thesis
    using assms(1) [unfolded mux_laws_def, rule_format, OF s _ _ n] w unfolding p prod.collapse by blast
qed

lemma ok_inject: "Ok x = Ok y \<Longrightarrow> x = y"
  by simp

lemma put_handler_serves:
  "mux_laws E serve \<Longrightarrow> serve m ''GET'' params_path = None \<Longrightarrow> mux_Handle E ''GET'' pattern_Query_Params_0 h m = m' \<Longrightarrow>
   serve m' ''GET'' params_path = Some h"
  using params_handler_serves [of E serve m h] by simp

lemmas server_handler_serves = put_handler_serves [OF _ _ ok_inject [OF ssubst [OF RegisterQueryHandlerServer_def [symmetric], where P = "\<lambda>x. x = _"]]]

lemmas client_handler_serves = put_handler_serves [OF _ _ ok_inject [OF ssubst [OF RegisterQueryHandlerClient_def [symmetric], where P = "\<lambda>x. x = _"]]]

text \<open>
  C37: A GET of \<^verbatim>\<open>/antasena/bps/bps/v1/params\<close>, the path of the service definition, on a multiplexer
  that had no handler for it before the server's was put there, forwards the parameters that are
  stored, and the zero parameters when none are, and leaves what is stored as it is; for every
  request whose context can be annotated, when neither the annotation nor the forwarding of an
  answer touches the store.
\<close>

theorem gateway_serves_the_parameters:
  assumes "item_laws (ParamsItem k) view" and "mux_laws E serve" and "serve m ''GET'' params_path = None"
    and "leaves view (AnnotateIncomingContext E req)" and "\<And>md r. leaves view (ForwardResponseMessage E md r)"
    and "AnnotateIncomingContext E req s = (Ok rctx, s1)"
    and "RegisterQueryHandlerServer E (\<lambda>ctx. Query_Params k) m = Ok m'"
  shows "\<exists>h md. serve m' ''GET'' params_path = Some h
    \<and> h req s = ForwardResponseMessage E md \<lparr>ResponseParams = (case view s of Some p \<Rightarrow> p | None \<Rightarrow> Params)\<rparr> s1
    \<and> view (snd (h req s)) = view s"
proof -
  have v: "view s1 = view s" by (rule leavesD [OF assms(4,6)])
  have q: "attempt (Query_Params k (Some QueryParamsRequest)) s1
      = (Ok (Ok \<lparr>ResponseParams = (case view s of Some p \<Rightarrow> p | None \<Rightarrow> Params)\<rparr>), s1)"
    by (simp add: Query_Params_view [OF assms(1)] v)
  let ?reply = "\<lparr>ResponseParams = (case view s of Some p \<Rightarrow> p | None \<Rightarrow> Params)\<rparr>"
  let ?md = "\<lparr>HeaderMD = metadata_Join E (empty_md E) (stream_Header E rctx s1),
    TrailerMD = metadata_Join E (empty_md E) (stream_Trailer E rctx s1)\<rparr>"
  obtain h where h: "serve m' ''GET'' params_path = Some h" "h req s = ForwardResponseMessage E ?md ?reply s1"
    by (rule that [OF server_handler_serves [OF assms(2,3,7)]])
      (simp add: assms(6) local_request_Query_Params_0_def q answer_def)
  moreover have "view (snd (ForwardResponseMessage E ?md ?reply s1)) = view s"
    using assms(5) v by (simp add: leaves_def)
  ultimately show ?thesis by (intro exI [of _ h] exI [of _ ?md]) simp
qed

theorem gateway_serves_the_parameters_witness:
  "\<exists>m h. RegisterQueryHandlerServer sample_gateway (\<lambda>ctx. Query_Params sample_keeper) [] = Ok m
    \<and> first_match m ''GET'' params_path = Some h
    \<and> h True \<lparr>gw_params = Some Params, gw_log = []\<rparr> = (Ok (), \<lparr>gw_params = Some Params, gw_log = [Wrote_params Params]\<rparr>)"
proof -
  let ?s = "\<lparr>gw_params = Some Params, gw_log = []\<rparr>"
  have a: "AnnotateIncomingContext sample_gateway True ?s = (Ok (), ?s)" by (simp add: sample_gateway_def)
  have l: "leaves gw_params (AnnotateIncomingContext sample_gateway True)"
    "\<And>md r. leaves gw_params (ForwardResponseMessage sample_gateway md r)"
    by (simp_all add: sample_gateway_def leaves_def)
  have n: "first_match [] ''GET'' params_path = None" by (simp add: first_match_def)
  obtain m' where m': "RegisterQueryHandlerServer sample_gateway (\<lambda>ctx. Query_Params sample_keeper) [] = Ok m'"
    by (simp add: RegisterQueryHandlerServer_def)
  obtain h where h: "first_match m' ''GET'' params_path = Some h"
    "\<exists>md. h True ?s = ForwardResponseMessage sample_gateway md \<lparr>ResponseParams = Params\<rparr> ?s"
    using gateway_serves_the_parameters [OF sample_item_laws sample_mux_laws n l a m'] by auto
  then have "h True ?s = (Ok (), \<lparr>gw_params = Some Params, gw_log = [Wrote_params Params]\<rparr>)"
    by (auto simp: sample_gateway_def)
  with m' h(1) show ?thesis by blast
qed

text \<open>
  A request whose context cannot be annotated is answered with that error and never reaches
  the query: neither the server's nor, for the other handler, the client's.
\<close>

theorem unannotated_requests_stop:
  assumes "AnnotateIncomingContext E req s = (Err e, s1)" and "AnnotateContext E req s = (Err e, s1)"
    and "mux_laws E serve" and "serve m ''GET'' params_path = None"
    and "RegisterQueryHandlerServer E server m = Ok m1" and "RegisterQueryHandlerClient E client m = Ok m2"
    and "m' \<in> {m1, m2}"
  shows "\<exists>h. serve m' ''GET'' params_path = Some h \<and> h req s = HTTPError E None e s1"
proof -
  obtain h1 where "serve m1 ''GET'' params_path = Some h1" "h1 req s = HTTPError E None e s1"
    by (rule that [OF server_handler_serves [OF assms(3-5)]]) (simp add: assms(1))
  moreover obtain h2 where "serve m2 ''GET'' params_path = Some h2" "h2 req s = HTTPError E None e s1"
    by (rule that [OF client_handler_serves [OF assms(3,4,6)]]) (simp add: assms(2))
  ultimately show ?thesis using assms(7) by auto
qed

theorem unannotated_requests_stop_witness:
  "\<exists>m h. RegisterQueryHandlerServer sample_gateway (\<lambda>ctx. Query_Params sample_keeper) [] = Ok m
    \<and> first_match m ''GET'' params_path = Some h
    \<and> h False \<lparr>gw_params = None, gw_log = []\<rparr>
       = (Ok (), \<lparr>gw_params = None, gw_log = [Wrote_error (Error_text ''bad header'')]\<rparr>)"
proof -
  let ?s = "\<lparr>gw_params = None, gw_log = []\<rparr>"
  have a: "AnnotateIncomingContext sample_gateway False ?s = (Err (Error_text ''bad header''), ?s)"
    "AnnotateContext sample_gateway False ?s = (Err (Error_text ''bad header''), ?s)"
    by (simp_all add: sample_gateway_def)
  have n: "first_match [] ''GET'' params_path = None" by (simp add: first_match_def)
  obtain m1 m2 where m: "RegisterQueryHandlerServer sample_gateway (\<lambda>ctx. Query_Params sample_keeper) [] = Ok m1"
    "RegisterQueryHandlerClient sample_gateway (\<lambda>ctx req. raise (Error_text ''unreachable'')) [] = Ok m2"
    by (simp add: RegisterQueryHandlerServer_def RegisterQueryHandlerClient_def)
  obtain h where "first_match m1 ''GET'' params_path = Some h"
    "h False ?s = HTTPError sample_gateway None (Error_text ''bad header'') ?s"
    using unannotated_requests_stop [OF a sample_mux_laws n m, of m1] by auto
  with m(1) show ?thesis by (auto simp: sample_gateway_def)
qed

text \<open>
  What gRPC promises of connections, \<open>live\<close> being the set of those that are open: dialling gives a
  new one or an error and nothing; after \<^verbatim>\<open>Close\<close>, which may fail, the connection is not open;
  logging opens and closes none.
\<close>

definition connection_laws :: "('s, 'conn) grpc_env \<Rightarrow> ('s \<Rightarrow> 'conn set) \<Rightarrow> bool" where
  "connection_laws G live \<longleftrightarrow>
     (\<forall>ep c t t'. Dial G ep t = (Ok c, t') \<longrightarrow> c \<notin> live t \<and> live t' = insert c (live t)) \<and>
     (\<forall>ep e t t'. Dial G ep t = (Err e, t') \<longrightarrow> live t' = live t) \<and>
     (\<forall>c t. \<exists>r t'. conn_Close G c t = (r, t') \<and> live t' = live t - {c} \<and> (r = Ok () \<or> (\<exists>e. r = Err e))) \<and>
     (\<forall>txt e. succeeds (grpclog_Infof G txt e) \<and> leaves live (grpclog_Infof G txt e))"

lemma close_logged_closes:
  assumes "connection_laws G live"
  shows "\<exists>t'. close_logged G ep c t = (Ok (), t') \<and> live t' = live t - {c}"
proof -
  obtain r t1 where c: "conn_Close G c t = (r, t1)" "live t1 = live t - {c}" "r = Ok () \<or> (\<exists>e. r = Err e)"
    using assms [unfolded connection_laws_def, THEN conjunct2, THEN conjunct2, THEN conjunct1, rule_format, of c t] by blast
  from c(3) show ?thesis
  proof
    assume "r = Ok ()"
    with c show ?thesis by (simp add: close_logged_def)
  next
    assume "\<exists>e. r = Err e"
    then obtain e where e: "r = Err e" by blast
    have l: "succeeds (grpclog_Infof G (''Failed to close conn to '' @ ep) e)"
      "leaves live (grpclog_Infof G (''Failed to close conn to '' @ ep) e)"
      using assms by (simp_all add: connection_laws_def)
    obtain u t2 where t2: "grpclog_Infof G (''Failed to close conn to '' @ ep) e t1 = (Ok u, t2)"
      by (rule succeedsE [OF l(1)])
    have "close_logged G ep c t = (Ok (), t2)" using c(1) e t2 by (simp add: close_logged_def)
    with leavesD [OF l(2) t2] c(2) show ?thesis by simp
  qed
qed

lemma all_closed:
  assumes "connection_laws G live"
  shows "\<exists>t'. for_each (\<lambda>(ep, c). close_logged G ep c) cs t = (Ok (), t') \<and> live t' = live t - snd ` set cs"
proof (induction cs arbitrary: t)
  case (Cons x cs)
  obtain ep c where x: "x = (ep, c)" by (cases x)
  obtain t1 where t1: "close_logged G ep c t = (Ok (), t1)" "live t1 = live t - {c}"
    using close_logged_closes [OF assms] by blast
  obtain t2 where "for_each (\<lambda>(ep, c). close_logged G ep c) cs t1 = (Ok (), t2)" "live t2 = live t1 - snd ` set cs"
    using Cons.IH by blast
  with t1 show ?case by (auto simp: x)
qed simp

lemma dialled:
  "Dial G ep (net d) = (Ok c, t) \<Longrightarrow>
   \<exists>mm. RegisterQueryHandlerFromEndpoint G E N m ep d = (Ok mm, d\<lparr>net := t, at_done := (ep, c) # at_done d\<rparr>)"
  by (simp add: RegisterQueryHandlerFromEndpoint_def bind_def on_net_def after_register_def
      RegisterQueryHandler_def RegisterQueryHandlerClient_def)

lemma not_dialled:
  "Dial G ep (net d) = (Err e, t) \<Longrightarrow> RegisterQueryHandlerFromEndpoint G E N m ep d = (Err e, d\<lparr>net := t\<rparr>)"
  "Dial G ep (net d) = (Panic e, t) \<Longrightarrow> RegisterQueryHandlerFromEndpoint G E N m ep d = (Panic e, d\<lparr>net := t\<rparr>)"
  "Dial G ep (net d) = (Exit k, t) \<Longrightarrow> RegisterQueryHandlerFromEndpoint G E N m ep d = (Exit k, d\<lparr>net := t\<rparr>)"
  by (simp_all add: RegisterQueryHandlerFromEndpoint_def bind_def on_net_def)

text \<open>
  C38: No connection is leaked, and none is closed too early: if the endpoint cannot be dialled
  nothing is opened and nothing waits; otherwise the new connection stays open and waits for the
  context. When the context is done every waiting connection has been closed and none waits, also
  when \<^verbatim>\<open>Close\<close> returns an error. An error of the registration (the generated registration has none)
  would close the connection at once, and would be the result.
\<close>

theorem connections_are_closed:
  assumes "connection_laws G live" and "live (net d) \<subseteq> snd ` set (at_done d)"
    and "RegisterQueryHandlerFromEndpoint G E NewQueryClient m ep d = (r, d')"
  shows "(\<forall>e t. Dial G ep (net d) = (Err e, t) \<longrightarrow>
        r = Err e \<and> at_done d' = at_done d \<and> live (net d') = live (net d))
    \<and> (\<forall>c t. Dial G ep (net d) = (Ok c, t) \<longrightarrow>
        is_ok r \<and> at_done d' = (ep, c) # at_done d \<and> c \<in> live (net d') \<and> live (net d') = insert c (live (net d)))
    \<and> (r = Ok m' \<or> r = Err e' \<longrightarrow>
        (\<exists>d''. context_done G d' = (Ok (), d'') \<and> live (net d'') = {} \<and> at_done d'' = []))
    \<and> (\<exists>d2. after_register G ep c' (Err e' :: 'mux outcome) d = (Err e', d2) \<and> at_done d2 = at_done d
        \<and> live (net d2) = live (net d) - {c'})"
proof (intro conjI allI impI)
  obtain x t where dial: "Dial G ep (net d) = (x, t)" by (cases "Dial G ep (net d)")
  have ok: "is_ok r \<and> at_done d' = (ep, c) # at_done d \<and> live (net d') = insert c (live (net d))"
    if "Dial G ep (net d) = (Ok c, t)" for c t
  proof -
    have "live t = insert c (live (net d))"
      using assms(1) [unfolded connection_laws_def, THEN conjunct1, rule_format, OF that] by simp
    then show ?thesis using dialled [of G ep d c t E NewQueryClient m] that assms(3) by auto
  qed
  then show "is_ok r" "at_done d' = (ep, c) # at_done d" "c \<in> live (net d')" "live (net d') = insert c (live (net d))"
    if "Dial G ep (net d) = (Ok c, t)" for c t using ok [OF that] by auto
  have err: "r = Err e \<and> at_done d' = at_done d \<and> live (net d') = live (net d)" if "Dial G ep (net d) = (Err e, t)" for e t
  proof -
    have "live t = live (net d)"
      using assms(1) [unfolded connection_laws_def, THEN conjunct2, THEN conjunct1, rule_format, OF that] .
    then show ?thesis using not_dialled(1) [of G ep d e t E NewQueryClient m] that assms(3) by auto
  qed
  then show "r = Err e" "at_done d' = at_done d" "live (net d') = live (net d)"
    if "Dial G ep (net d) = (Err e, t)" for e t using err [OF that] by auto
  show "\<exists>d''. context_done G d' = (Ok (), d'') \<and> live (net d'') = {} \<and> at_done d'' = []" if "r = Ok m' \<or> r = Err e'"
  proof -
    have "(\<exists>c. x = Ok c) \<or> (\<exists>e. x = Err e)"
      using that assms(3) dial not_dialled(2,3) [of G ep d _ t E NewQueryClient m] by (cases x) auto
    then have "live (net d') \<subseteq> snd ` set (at_done d')"
    proof
      assume "\<exists>c. x = Ok c"
      then obtain c where "x = Ok c" by blast
      with ok [of c t] dial assms(2) show ?thesis by auto
    next
      assume "\<exists>e. x = Err e"
      then obtain e where "x = Err e" by blast
      with err [of e t] dial assms(2) show ?thesis by simp
    qed
    with all_closed [OF assms(1), of "at_done d'" "net d'"]
    show ?thesis by (auto simp: context_done_def on_net_def)
  qed
  obtain t' where "close_logged G ep c' (net d) = (Ok (), t')" "live t' = live (net d) - {c'}"
    using close_logged_closes [OF assms(1)] by blast
  then show "\<exists>d2. after_register G ep c' (Err e' :: 'mux outcome) d = (Err e', d2) \<and> at_done d2 = at_done d
        \<and> live (net d2) = live (net d) - {c'}"
    by (simp add: after_register_def bind_def on_net_def raise_def)
qed

text \<open>A network on which the second close of a connection fails.\<close>

definition sample_grpc :: "(nat set, nat) grpc_env" where
  "sample_grpc = \<lparr>Dial = (\<lambda>ep s. if ep = ''up'' \<and> 1 \<notin> s then (Ok 1, insert 1 s) else (Err (Error_text ''down''), s)),
     conn_Close = (\<lambda>c s. (if c \<in> s then Ok () else Err (Error_text ''closing''), s - {c})), grpclog_Infof = (\<lambda>t e. ret ())\<rparr>"

definition idle_gateway :: "(nat set, unit, unit, unit, (nat set, unit) handlers) gateway_env" where
  "idle_gateway = \<lparr>mux_Handle = (\<lambda>meth pat h m. m @ [(meth, pat, h)]), empty_md = (), metadata_Join = (\<lambda>a b. ()),
     AnnotateContext = (\<lambda>r. ret ()), AnnotateIncomingContext = (\<lambda>r. ret ()), stream_Header = (\<lambda>c s. ()),
     stream_Trailer = (\<lambda>c s. ()), HTTPError = (\<lambda>md e. ret ()), ForwardResponseMessage = (\<lambda>md r. ret ())\<rparr>"

theorem connections_are_closed_witness:
  "\<exists>m d d'. RegisterQueryHandlerFromEndpoint sample_grpc idle_gateway
      (\<lambda>conn ctx req. ret (Ok \<lparr>ResponseParams = Params\<rparr>, \<lparr>HeaderMD = (), TrailerMD = ()\<rparr>)) [] ''up''
      \<lparr>net = {}, at_done = []\<rparr> = (Ok m, d)
    \<and> net d = {1} \<and> at_done d = [(''up'', 1)] \<and> context_done sample_grpc d = (Ok (), d') \<and> net d' = {}"
proof -
  let ?client = "\<lambda>conn ctx req. ret (Ok \<lparr>ResponseParams = Params\<rparr>, \<lparr>HeaderMD = (), TrailerMD = ()\<rparr>)"
  let ?d = "\<lparr>net = {}, at_done = []\<rparr>"
  obtain m d where m: "RegisterQueryHandlerFromEndpoint sample_grpc idle_gateway ?client [] ''up'' ?d = (Ok m, d)"
    by (simp add: RegisterQueryHandlerFromEndpoint_def RegisterQueryHandler_def RegisterQueryHandlerClient_def
        after_register_def sample_grpc_def on_net_def bind_def)
  have l: "connection_laws sample_grpc (\<lambda>t. t)"
    by (auto simp: connection_laws_def sample_grpc_def succeeds_def leaves_def split: if_splits)
  have s: "net ?d \<subseteq> snd ` set (at_done ?d)" "Dial sample_grpc ''up'' (net ?d) = (Ok 1, {1})"
    by (simp_all add: sample_grpc_def)
  note c = connections_are_closed [OF l s(1) m, of m]
  have "at_done d = [(''up'', 1)] \<and> net d = {1}" using c [THEN conjunct2, THEN conjunct1, rule_format, OF s(2)] by simp
  moreover obtain d' where "context_done sample_grpc d = (Ok (), d')" "net d' = {}"
    using c [THEN conjunct2, THEN conjunct2, THEN conjunct1] by auto
  ultimately show ?thesis using m by blast
qed

end
