(* ===== verification/Module_Services.thy ===== *)
theory Module_Services
  imports Gateway Messages
begin

text \<open>
  How the module is reached: the services it registers (\<^verbatim>\<open>x/bps/module/module.go\<close>, with the
  generated handlers and descriptions of \<^verbatim>\<open>tx.pb.go\<close> and \<^verbatim>\<open>query.pb.go\<close>), its gateway routes and
  interface registrations; and the path of a message from its bytes to the store.
\<close>

section \<open>Servers and handlers\<close>

text \<open>\<^verbatim>\<open>NewMsgServerImpl\<close> and \<^verbatim>\<open>NewQueryServerImpl\<close> wrap the keeper; an \<^verbatim>\<open>interface{}\<close> is one of these.\<close>

datatype 's server = Msg_server "'s keeper" | Query_server "'s keeper"

definition NewMsgServerImpl :: "'s keeper \<Rightarrow> 's server" where
  "NewMsgServerImpl k = Msg_server k"

definition NewQueryServerImpl :: "'s keeper \<Rightarrow> 's server" where
  "NewQueryServerImpl k = Query_server k"

datatype service_request = Update_request msg_update_params | Params_request query_params_request
datatype service_reply = Update_reply msg_update_params_response | Params_reply query_params_response

type_synonym decoder = "service_request \<Rightarrow> service_request outcome"
type_synonym 's call = "service_request \<Rightarrow> ('s, service_reply) eff"
type_synonym 's interceptor = "service_request \<Rightarrow> string \<Rightarrow> 's call \<Rightarrow> ('s, service_reply) eff"

definition interface_conversion :: go_error where
  "interface_conversion = Error_text ''interface conversion''"

definition call_UpdateParams :: "'s server \<Rightarrow> 's call" where
  "call_UpdateParams srv req =
     (case (srv, req) of
        (Msg_server k, Update_request m) \<Rightarrow> bind (UpdateParams k m) (\<lambda>r. ret (Update_reply r))
      | _ \<Rightarrow> panic interface_conversion)"

definition call_Params :: "'s server \<Rightarrow> 's call" where
  "call_Params srv req =
     (case (srv, req) of
        (Query_server k, Params_request q) \<Rightarrow> bind (Query_Params k (Some q)) (\<lambda>r. ret (Params_reply r))
      | _ \<Rightarrow> panic interface_conversion)"

text \<open>The interceptor gets the request, the full method name and the rest of the call.\<close>

definition Msg_UpdateParams_Handler ::
  "'s server \<Rightarrow> decoder \<Rightarrow> 's interceptor option \<Rightarrow> ('s, service_reply) eff" where
  "Msg_UpdateParams_Handler srv dec interceptor =
     bind (lift_outcome (dec (Update_request \<lparr>Authority = '''', MsgParams = Params\<rparr>))) (\<lambda>req.
     case interceptor of
       None \<Rightarrow> call_UpdateParams srv req
     | Some f \<Rightarrow> f req ''/bps.bps.v1.Msg/UpdateParams'' (call_UpdateParams srv))"

definition Query_Params_Handler ::
  "'s server \<Rightarrow> decoder \<Rightarrow> 's interceptor option \<Rightarrow> ('s, service_reply) eff" where
  "Query_Params_Handler srv dec interceptor =
     bind (lift_outcome (dec (Params_request QueryParamsRequest))) (\<lambda>req.
     case interceptor of
       None \<Rightarrow> call_Params srv req
     | Some f \<Rightarrow> f req ''/bps.bps.v1.Query/Params'' (call_Params srv))"

section \<open>Descriptions and registration\<close>

record 's service_desc =
  ServiceName :: string
  Methods :: "(string \<times> ('s server \<Rightarrow> decoder \<Rightarrow> 's interceptor option \<Rightarrow> ('s, service_reply) eff)) list"

definition Msg_serviceDesc :: "'s service_desc" where
  "Msg_serviceDesc = \<lparr>ServiceName = ''bps.bps.v1.Msg'', Methods = [(''UpdateParams'', Msg_UpdateParams_Handler)]\<rparr>"

definition Query_serviceDesc :: "'s service_desc" where
  "Query_serviceDesc = \<lparr>ServiceName = ''bps.bps.v1.Query'', Methods = [(''Params'', Query_Params_Handler)]\<rparr>"

text \<open>The registrar and the interface registry belong to the SDK; their state is \<open>'r\<close>.\<close>

record ('r, 's) registrar =
  RegisterService :: "'s service_desc \<Rightarrow> 's server \<Rightarrow> ('r, unit) eff"
  RegisterImplementations :: "string \<Rightarrow> string list \<Rightarrow> ('r, unit) eff"

definition RegisterServices :: "('r, 's) registrar \<Rightarrow> 's app_module \<Rightarrow> ('r, unit) eff" where
  "RegisterServices R am =
     bind (RegisterService R Msg_serviceDesc (NewMsgServerImpl (am_keeper am))) (\<lambda>_.
     bind (RegisterService R Query_serviceDesc (NewQueryServerImpl (am_keeper am))) (\<lambda>_.
     ret ()))"

definition RegisterInterfaces :: "('r, 's) registrar \<Rightarrow> ('r, unit) eff" where
  "RegisterInterfaces R =
     bind (RegisterImplementations R ''sdk.Msg'' [''MsgUpdateParams'']) (\<lambda>_.
     RegisterImplementations R ''tx.MsgResponse'' [''MsgUpdateParamsResponse''])"

definition Module_RegisterInterfaces :: "('r, 's) registrar \<Rightarrow> 's app_module \<Rightarrow> ('r, unit) eff" where
  "Module_RegisterInterfaces R am = RegisterInterfaces R"

definition RegisterGRPCGatewayRoutes ::
  "('s, 'req, 'ctx, 'md, 'mux) gateway_env \<Rightarrow>
   ('ctx \<Rightarrow> query_params_request option \<Rightarrow> ('s, query_params_response outcome \<times> 'md metadata) eff) \<Rightarrow>
   'mux \<Rightarrow> 'mux outcome" where
  "RegisterGRPCGatewayRoutes E client_Params m =
     (case RegisterQueryHandlerClient E client_Params m of Err e \<Rightarrow> Panic e | r \<Rightarrow> r)"

section \<open>What the SDK does with the services\<close>

text \<open>
  The registrar's state holds the services by their names and the registered types. A service can be
  registered when the messages it takes are known and its name is free.
\<close>

type_synonym 's services = "string \<rightharpoonup> 's service_desc \<times> 's server"

definition registry_laws ::
  "('r, 's) registrar \<Rightarrow> ('r \<Rightarrow> string set) \<Rightarrow> ('r \<Rightarrow> 's services) \<Rightarrow> bool" where
  "registry_laws R known services \<longleftrightarrow>
     (\<forall>i ts r. (i, ts) \<in> {(''sdk.Msg'', [''MsgUpdateParams'']), (''tx.MsgResponse'', [''MsgUpdateParamsResponse''])} \<longrightarrow>
        (\<exists>r'. RegisterImplementations R i ts r = (Ok (), r') \<and> known r' = known r \<union> set ts \<and> services r' = services r)) \<and>
     (\<forall>d srv r. (d = Msg_serviceDesc \<or> d = Query_serviceDesc) \<longrightarrow> ''MsgUpdateParams'' \<in> known r \<longrightarrow>
        services r (ServiceName d) = None \<longrightarrow>
        (\<exists>r'. RegisterService R d srv r = (Ok (), r') \<and> known r' = known r \<and> services r' = (services r)(ServiceName d \<mapsto> (d, srv))))"

text \<open>
  The SDK's codec calls the generated methods of a message. Its message router, which delivers the
  bytes of a \<^verbatim>\<open>MsgUpdateParams\<close>, decodes them and, if the message is admitted (what else the node
  checks of it: unknown fields, the circuit breaker), calls the handler of the method with a decoder
  that does nothing and an interceptor that goes on with the decoded message. Its query router calls
  the handler with a decoder of the request's bytes, without an interceptor, and encodes the reply.
\<close>

record ('r, 's) routing =
  cdc_Unmarshal :: "bytes \<Rightarrow> decoder"
  cdc_Marshal :: "service_reply \<Rightarrow> bytes outcome"
  Deliver :: "'r \<Rightarrow> bytes \<Rightarrow> ('s, service_reply) eff"
  Query :: "'r \<Rightarrow> string \<Rightarrow> bytes \<Rightarrow> ('s, bytes) eff"

definition codec_calls_generated :: "(bytes \<Rightarrow> decoder) \<Rightarrow> (service_reply \<Rightarrow> bytes outcome) \<Rightarrow> bool" where
  "codec_calls_generated dec enc \<longleftrightarrow>
     (\<forall>bs m. dec bs (Update_request m) = obind (MsgUpdateParams_Unmarshal bs m) (\<lambda>m. Ok (Update_request m))) \<and>
     (\<forall>bs q. dec bs (Params_request q) = obind (QueryParamsRequest_Unmarshal bs q) (\<lambda>q. Ok (Params_request q))) \<and>
     (\<forall>r. enc (Update_reply r) = MsgUpdateParamsResponse_Marshal r) \<and>
     (\<forall>r. enc (Params_reply r) = QueryParamsResponse_Marshal r)"

definition routing_laws ::
  "('r, 's) routing \<Rightarrow> ('r \<Rightarrow> 's services) \<Rightarrow> ('r \<Rightarrow> 's \<Rightarrow> bytes \<Rightarrow> bool) \<Rightarrow> bool" where
  "routing_laws Rt services admits \<longleftrightarrow> codec_calls_generated (cdc_Unmarshal Rt) (cdc_Marshal Rt) \<and>
     (\<forall>r d srv h bs s. services r ''bps.bps.v1.Msg'' = Some (d, srv) \<longrightarrow> map_of (Methods d) ''UpdateParams'' = Some h \<longrightarrow>
        (\<forall>m. admits r s bs \<longrightarrow> cdc_Unmarshal Rt bs (Update_request \<lparr>Authority = '''', MsgParams = Params\<rparr>) = Ok m \<longrightarrow>
           Deliver Rt r bs s = h srv (\<lambda>x. Ok x) (Some (\<lambda>req name call. call m)) s) \<and>
        (\<not> admits r s bs \<or> \<not> is_ok (cdc_Unmarshal Rt bs (Update_request \<lparr>Authority = '''', MsgParams = Params\<rparr>)) \<longrightarrow>
           (\<exists>x. Deliver Rt r bs s = (x, s) \<and> \<not> is_ok x))) \<and>
     (\<forall>r d srv meth h bs. services r ''bps.bps.v1.Query'' = Some (d, srv) \<longrightarrow> map_of (Methods d) meth = Some h \<longrightarrow>
        Query Rt r (''/bps.bps.v1.Query/'' @ meth) bs
          = bind (h srv (cdc_Unmarshal Rt bs) None) (\<lambda>reply. lift_outcome (cdc_Marshal Rt reply)))"

section \<open>From bytes to the store\<close>

definition register_module :: "('r, 's) registrar \<Rightarrow> 's app_module \<Rightarrow> ('r, unit) eff" where
  "register_module R am = andThen (Module_RegisterInterfaces R am) (RegisterServices R am)"

lemma registered_services:
  assumes "registry_laws R known services"
    and "services r ''bps.bps.v1.Msg'' = None" and "services r ''bps.bps.v1.Query'' = None"
  obtains r' where "register_module R am r = (Ok (), r')"
    and "services r' = (services r)(''bps.bps.v1.Msg'' \<mapsto> (Msg_serviceDesc, Msg_server (am_keeper am)),
      ''bps.bps.v1.Query'' \<mapsto> (Query_serviceDesc, Query_server (am_keeper am)))"
proof -
  let ?m = "Msg_serviceDesc :: 'b service_desc" and ?q = "Query_serviceDesc :: 'b service_desc"
  have n: "ServiceName ?m = ''bps.bps.v1.Msg''" "ServiceName ?q = ''bps.bps.v1.Query''"
    by (simp_all add: Msg_serviceDesc_def Query_serviceDesc_def)
  note i = assms(1) [unfolded registry_laws_def, THEN conjunct1, rule_format]
  note d = assms(1) [unfolded registry_laws_def, THEN conjunct2, rule_format]
  obtain r1 where r1: "RegisterImplementations R ''sdk.Msg'' [''MsgUpdateParams''] r = (Ok (), r1)"
    "''MsgUpdateParams'' \<in> known r1" "services r1 = services r" using i [of "''sdk.Msg''" _ r] by auto
  obtain r2 where r2: "RegisterImplementations R ''tx.MsgResponse'' [''MsgUpdateParamsResponse''] r1 = (Ok (), r2)"
    "''MsgUpdateParams'' \<in> known r2" "services r2 = services r" using i [of "''tx.MsgResponse''" _ r1] r1 by auto
  obtain r3 where r3: "RegisterService R ?m (NewMsgServerImpl (am_keeper am)) r2 = (Ok (), r3)" "''MsgUpdateParams'' \<in> known r3"
    "services r3 = (services r)(''bps.bps.v1.Msg'' \<mapsto> (?m, NewMsgServerImpl (am_keeper am)))"
    using d [of ?m r2] r2 assms(2) unfolding n by metis
  moreover have "services r3 ''bps.bps.v1.Query'' = None" using r3(3) assms(3) by simp
  ultimately obtain r4 where r4: "RegisterService R ?q (NewQueryServerImpl (am_keeper am)) r3 = (Ok (), r4)"
    "services r4 = (services r3)(''bps.bps.v1.Query'' \<mapsto> (?q, NewQueryServerImpl (am_keeper am)))"
    using d [of ?q r3] unfolding n by metis
  have "register_module R am r = (Ok (), r4)"
    by (simp add: register_module_def andThen_def Module_RegisterInterfaces_def RegisterInterfaces_def RegisterServices_def
        r1(1) r2(1) r3(1) r4(1))
  with r4(2) r3(3) show thesis by (intro that [of r4]) (simp_all add: NewMsgServerImpl_def NewQueryServerImpl_def)
qed

lemma method_handlers:
  "map_of (Methods Msg_serviceDesc) ''UpdateParams'' = Some Msg_UpdateParams_Handler"
  "map_of (Methods Query_serviceDesc) ''Params'' = Some Query_Params_Handler"
  by (simp_all add: Msg_serviceDesc_def Query_serviceDesc_def)

lemma deliver_update:
  assumes "routing_laws Rt services admits" and "services r ''bps.bps.v1.Msg'' = Some (Msg_serviceDesc, Msg_server k)"
  shows "admits r s bs \<Longrightarrow> MsgUpdateParams_Unmarshal bs \<lparr>Authority = '''', MsgParams = Params\<rparr> = Ok m \<Longrightarrow>
      Deliver Rt r bs s = bind (UpdateParams k m) (\<lambda>r. ret (Update_reply r)) s"
    and "\<not> admits r s bs \<or> \<not> is_ok (MsgUpdateParams_Unmarshal bs \<lparr>Authority = '''', MsgParams = Params\<rparr>) \<Longrightarrow>
      \<exists>x. Deliver Rt r bs s = (x, s) \<and> \<not> is_ok x"
proof -
  have u: "cdc_Unmarshal Rt bs (Update_request z) = obind (MsgUpdateParams_Unmarshal bs z) (\<lambda>m. Ok (Update_request m))" for z
    using assms(1) by (simp add: routing_laws_def codec_calls_generated_def)
  note law = assms(1) [unfolded routing_laws_def, THEN conjunct2, THEN conjunct1, rule_format, OF assms(2) method_handlers(1)]
  show "Deliver Rt r bs s = bind (UpdateParams k m) (\<lambda>r. ret (Update_reply r)) s"
    if "admits r s bs" "MsgUpdateParams_Unmarshal bs \<lparr>Authority = '''', MsgParams = Params\<rparr> = Ok m"
    using law [THEN conjunct1, rule_format, OF that(1), of "Update_request m"] that(2)
    by (simp add: u Msg_UpdateParams_Handler_def call_UpdateParams_def)
  show "\<exists>x. Deliver Rt r bs s = (x, s) \<and> \<not> is_ok x"
    if "\<not> admits r s bs \<or> \<not> is_ok (MsgUpdateParams_Unmarshal bs \<lparr>Authority = '''', MsgParams = Params\<rparr>)"
  proof (rule law [THEN conjunct2, rule_format])
    show "\<not> admits r s bs \<or> \<not> is_ok (cdc_Unmarshal Rt bs (Update_request \<lparr>Authority = '''', MsgParams = Params\<rparr>))"
      using that unfolding u by (cases "MsgUpdateParams_Unmarshal bs \<lparr>Authority = '''', MsgParams = Params\<rparr>") auto
  qed
qed

lemma query_params:
  assumes "routing_laws Rt services admits" and "services r ''bps.bps.v1.Query'' = Some (Query_serviceDesc, Query_server k)"
    and "QueryParamsRequest_Unmarshal bs QueryParamsRequest = Ok q"
  shows "Query Rt r ''/bps.bps.v1.Query/Params'' bs
    = bind (Query_Params k (Some q)) (\<lambda>r. lift_outcome (QueryParamsResponse_Marshal r))"
proof -
  have u: "cdc_Unmarshal Rt bs (Params_request z) = obind (QueryParamsRequest_Unmarshal bs z) (\<lambda>q. Ok (Params_request q))"
    "cdc_Marshal Rt (Params_reply z') = QueryParamsResponse_Marshal z'" for z z'
    using assms(1) by (simp_all add: routing_laws_def codec_calls_generated_def)
  have h: "Query_Params_Handler (Query_server k) (cdc_Unmarshal Rt bs) None
      = bind (Query_Params k (Some q)) (\<lambda>r. ret (Params_reply r))"
    by (simp add: u assms(3) Query_Params_Handler_def call_Params_def)
  from assms(1) [unfolded routing_laws_def, THEN conjunct2, THEN conjunct2, rule_format, OF assms(2) method_handlers(2), of bs]
  have "Query Rt r (''/bps.bps.v1.Query/'' @ ''Params'') bs = bind (Query_Params k (Some q)) (\<lambda>r. lift_outcome (QueryParamsResponse_Marshal r))"
    unfolding h bind_assoc bind_ret u .
  then show ?thesis by simp
qed

lemma encoded_response:
  obtains bz where "QueryParamsResponse_Marshal r = Ok bz" and "QueryParamsResponse_Unmarshal bz \<lparr>ResponseParams = Params\<rparr> = Ok r"
  using query_response_codec.roundtrip [of r] by (auto simp: obind_eq_Ok QueryParamsResponse_Marshal_def)

text \<open>
  A module built by \<^verbatim>\<open>ProvideModule\<close> registers its types and its two services, and they answer over
  the wire: the marshalled bytes of an admitted message of the authority store its parameters; bytes
  that do not decode to a message of the authority are refused and change nothing; and the query,
  whose request is empty, answers with the stored parameters or, before any were stored, the zero ones.
\<close>

lemma messages_reach_the_store:
  assumes "ProvideModule A inp = Ok out" and "item_laws (module_item inp) view"
    and "\<And>p. succeeds (item_Set (module_item inp) p)"
    and "registry_laws R known services" and "routing_laws Rt services admits"
    and "services r ''bps.bps.v1.Msg'' = None" and "services r ''bps.bps.v1.Query'' = None"
  shows "\<exists>r'. register_module R (mo_Module out) r = (Ok (), r')
    \<and> (\<forall>m. length (Authority m) < 2 ^ 62 \<longrightarrow> StringToBytes (mi_AddressCodec inp) (Authority m) = Ok (module_authority A (mi_Config inp)) \<longrightarrow>
        (\<exists>bs. MsgUpdateParams_Marshal m = Ok bs \<and> (\<forall>s. admits r' s bs \<longrightarrow>
          (\<exists>s'. Deliver Rt r' bs s = (Ok (Update_reply MsgUpdateParamsResponse), s') \<and> view s' = Some (MsgParams m)))))
    \<and> (\<forall>bs s. (\<forall>m. MsgUpdateParams_Unmarshal bs \<lparr>Authority = '''', MsgParams = Params\<rparr> = Ok m
              \<longrightarrow> StringToBytes (mi_AddressCodec inp) (Authority m) \<noteq> Ok (module_authority A (mi_Config inp))) \<longrightarrow>
        (\<exists>x. Deliver Rt r' bs s = (x, s) \<and> \<not> is_ok x))
    \<and> (\<forall>s. \<exists>bz. QueryParamsResponse_Marshal \<lparr>ResponseParams = (case view s of Some p \<Rightarrow> p | None \<Rightarrow> Params)\<rparr> = Ok bz
        \<and> Query Rt r' ''/bps.bps.v1.Query/Params'' [] s = (Ok bz, s))"
proof -
  let ?k = "mo_BPSKeeper out" and ?zero = "\<lparr>Authority = '''', MsgParams = Params\<rparr>"
  have k: "addressCodec ?k = mi_AddressCodec inp" "authority ?k = module_authority A (mi_Config inp)"
    "ParamsItem ?k = module_item inp" "am_keeper (mo_Module out) = ?k"
    using ProvideModule_Ok [OF assms(1)] by auto
  obtain r' where r': "register_module R (mo_Module out) r = (Ok (), r')"
    and new: "services r' = (services r)(''bps.bps.v1.Msg'' \<mapsto> (Msg_serviceDesc, Msg_server (am_keeper (mo_Module out))),
      ''bps.bps.v1.Query'' \<mapsto> (Query_serviceDesc, Query_server (am_keeper (mo_Module out))))"
    by (rule registered_services [where services = services and r = r and am = "mo_Module out", OF assms(4,6,7)])
  have sv: "services r' ''bps.bps.v1.Msg'' = Some (Msg_serviceDesc, Msg_server ?k)"
    "services r' ''bps.bps.v1.Query'' = Some (Query_serviceDesc, Query_server ?k)"
    by (simp_all add: new k(4))
  note deliver = deliver_update [where services = services and r = r' and k = ?k, OF assms(5) sv(1)]
  have "\<exists>bs. MsgUpdateParams_Marshal m = Ok bs \<and> (\<forall>s. admits r' s bs \<longrightarrow>
      (\<exists>s'. Deliver Rt r' bs s = (Ok (Update_reply MsgUpdateParamsResponse), s') \<and> view s' = Some (MsgParams m)))"
    if t: "length (Authority m) < 2 ^ 62" "StringToBytes (mi_AddressCodec inp) (Authority m) = Ok (module_authority A (mi_Config inp))" for m
  proof -
    obtain bs where bs: "MsgUpdateParams_Marshal m = Ok bs" "MsgUpdateParams_Unmarshal bs ?zero = Ok m"
      using update_codec.roundtrip [of m] t(1) by (auto simp: obind_eq_Ok MsgUpdateParams_Marshal_def authority_fits_def)
    have "\<exists>s'. Deliver Rt r' bs s = (Ok (Update_reply MsgUpdateParamsResponse), s') \<and> view s' = Some (MsgParams m)"
      if "admits r' s bs" for s
    proof -
      obtain u s' where s': "item_Set (ParamsItem ?k) (MsgParams m) s = (Ok u, s')"
        using assms(3) unfolding k(3) by (rule succeedsE)
      then have "view s' = Some (MsgParams m)" using item_Set_view [OF assms(2)] k(3) by simp
      with s' show ?thesis by (simp add: deliver(1) [OF that bs(2)] UpdateParams_accepts t(2) k(1,2))
    qed
    with bs(1) show ?thesis by blast
  qed
  moreover have "\<exists>x. Deliver Rt r' bs s = (x, s) \<and> \<not> is_ok x"
    if "\<forall>m. MsgUpdateParams_Unmarshal bs ?zero = Ok m \<longrightarrow> StringToBytes (mi_AddressCodec inp) (Authority m) \<noteq> Ok (module_authority A (mi_Config inp))"
    for bs s
  proof (cases "admits r' s bs \<and> is_ok (MsgUpdateParams_Unmarshal bs ?zero)")
    case True
    then obtain m where m: "MsgUpdateParams_Unmarshal bs ?zero = Ok m" by (auto simp: is_ok_iff)
    then have "StringToBytes (addressCodec ?k) (Authority m) \<noteq> Ok (authority ?k)" using that k by simp
    from UpdateParams_unauthorised [OF this, of s] obtain x where "UpdateParams ?k m s = (x, s)" "\<not> is_ok x"
      by (metis prod.collapse)
    then show ?thesis using deliver(1) [OF _ m, of s] True by (cases x) (auto simp: bind_def)
  qed (use deliver(2) [of s bs] in blast)
  moreover have "\<exists>bz. QueryParamsResponse_Marshal \<lparr>ResponseParams = (case view s of Some p \<Rightarrow> p | None \<Rightarrow> Params)\<rparr> = Ok bz
      \<and> Query Rt r' ''/bps.bps.v1.Query/Params'' [] s = (Ok bz, s)" for s
  proof -
    obtain bz where bz: "QueryParamsResponse_Marshal \<lparr>ResponseParams = (case view s of Some p \<Rightarrow> p | None \<Rightarrow> Params)\<rparr> = Ok bz"
      by (rule encoded_response)
    have "QueryParamsRequest_Unmarshal [] QueryParamsRequest = Ok QueryParamsRequest"
      using request_codec.is_loop [of "[]" QueryParamsRequest] by (simp add: unmarshal_loop.simps)
    from query_params [where services = services and r = r' and k = ?k, OF assms(5) sv(2) this] Query_Params_view [of ?k view QueryParamsRequest s] assms(2) k(3) bz
    show ?thesis by simp
  qed
  ultimately show ?thesis using r' by blast
qed

text \<open>A registrar of names and types, and routers over it that admit everything.\<close>

definition list_registrar :: "(string set \<times> 's services, 's) registrar" where
  "list_registrar = \<lparr>RegisterService = (\<lambda>d srv (ts, sv). (Ok (), (ts, sv(ServiceName d \<mapsto> (d, srv))))),
     RegisterImplementations = (\<lambda>i new (ts, sv). (Ok (), (ts \<union> set new, sv)))\<rparr>"

fun generated_decoder :: "bytes \<Rightarrow> decoder" where
  "generated_decoder bs (Update_request m) = obind (MsgUpdateParams_Unmarshal bs m) (\<lambda>m. Ok (Update_request m))"
| "generated_decoder bs (Params_request q) = obind (QueryParamsRequest_Unmarshal bs q) (\<lambda>q. Ok (Params_request q))"

fun generated_encoder :: "service_reply \<Rightarrow> bytes outcome" where
  "generated_encoder (Update_reply r) = MsgUpdateParamsResponse_Marshal r"
| "generated_encoder (Params_reply r) = QueryParamsResponse_Marshal r"

definition find_method :: "'s services \<Rightarrow> string \<Rightarrow> string \<Rightarrow>
  ('s server \<times> ('s server \<Rightarrow> decoder \<Rightarrow> 's interceptor option \<Rightarrow> ('s, service_reply) eff)) option" where
  "find_method services svc meth =
     (case services svc of None \<Rightarrow> None | Some (d, srv) \<Rightarrow> map_option (\<lambda>h. (srv, h)) (map_of (Methods d) meth))"

definition list_routing :: "(string set \<times> 's services, 's) routing" where
  "list_routing = \<lparr>cdc_Unmarshal = generated_decoder, cdc_Marshal = generated_encoder,
     Deliver = (\<lambda>(ts, sv) bs. case find_method sv ''bps.bps.v1.Msg'' ''UpdateParams'' of
         None \<Rightarrow> raise (Error_text ''no route'')
       | Some (srv, h) \<Rightarrow> bind (lift_outcome (generated_decoder bs (Update_request \<lparr>Authority = '''', MsgParams = Params\<rparr>)))
           (\<lambda>m. h srv (\<lambda>x. Ok x) (Some (\<lambda>req name call. call m)))),
     Query = (\<lambda>(ts, sv) path bs. case find_method sv ''bps.bps.v1.Query'' (drop (length ''/bps.bps.v1.Query/'') path) of
         None \<Rightarrow> raise (Error_text ''no route'')
       | Some (srv, h) \<Rightarrow> bind (h srv (generated_decoder bs) None) (\<lambda>reply. lift_outcome (generated_encoder reply)))\<rparr>"

lemma list_registrar_laws: "registry_laws list_registrar fst snd"
  by (simp add: registry_laws_def list_registrar_def split: prod.split)

lemma list_routing_laws: "routing_laws list_routing snd (\<lambda>r s bs. True)"
  by (auto simp: routing_laws_def codec_calls_generated_def list_routing_def find_method_def bind_def is_ok_iff
      split: outcome.splits)

end
