(* ===== verification/Governance.thy ===== *)
theory Governance
  imports App_Config Module_Services
begin

text \<open>
  Who can change the parameters of the running chain: the application's configuration
  (\<^verbatim>\<open>app/app_config.go\<close>), the provider of the module (\<^verbatim>\<open>module/depinject.go\<close>), its services and the
  wire format together.
\<close>

lemma configured_authority:
  assumes "map_of appConfig M_bps = Some (Bps_options cfg)"
  shows "module_authority A cfg = NewModuleAddress A ''gov''"
  using assms by (auto simp: appConfig_def bps_options_def module_authority_def GovModuleName_def)

text \<open>
  C10: In the application as it is configured, governance and nobody else changes the parameters
  of the chain's module. The module that is made from the entry of the configuration registers its
  types and its services under two names that no service registered before it has; then a message in
  the name of the \<^verbatim>\<open>gov\<close> module account, if the node admits it, stores its parameters through the
  SDK's message router; any bytes that do not decode to such a message are refused and change
  nothing; and the query, whose request is empty, answers with the stored parameters or, before any
  were stored, the zero ones.
\<close>

theorem governance_owns_the_parameters:
  assumes "map_of appConfig M_bps = Some (Bps_options (mi_Config inp))"
    and "ProvideModule A inp = Ok out" and "codec_laws (mi_AddressCodec inp)"
    and "item_laws (module_item inp) view" and "\<And>p. succeeds (item_Set (module_item inp) p)"
    and "registry_laws R known services" and "routing_laws Rt services admits"
    and "services r ''bps.bps.v1.Msg'' = None" and "services r ''bps.bps.v1.Query'' = None"
  shows "\<exists>r' gov. register_module R (mo_Module out) r = (Ok (), r')
    \<and> BytesToString (mi_AddressCodec inp) (NewModuleAddress A ''gov'') = Ok gov
    \<and> (length gov < 2 ^ 62 \<longrightarrow> (\<forall>p. \<exists>bs. MsgUpdateParams_Marshal \<lparr>Authority = gov, MsgParams = p\<rparr> = Ok bs
        \<and> (\<forall>s. admits r' s bs \<longrightarrow>
             (\<exists>s'. Deliver Rt r' bs s = (Ok (Update_reply MsgUpdateParamsResponse), s') \<and> view s' = Some p))))
    \<and> (\<forall>bs s. (\<forall>m. MsgUpdateParams_Unmarshal bs \<lparr>Authority = '''', MsgParams = Params\<rparr> = Ok m
            \<longrightarrow> StringToBytes (mi_AddressCodec inp) (Authority m) \<noteq> Ok (NewModuleAddress A ''gov'')) \<longrightarrow>
        (\<exists>x. Deliver Rt r' bs s = (x, s) \<and> \<not> is_ok x))
    \<and> (\<forall>s. \<exists>bz. QueryParamsResponse_Marshal \<lparr>ResponseParams = (case view s of Some p \<Rightarrow> p | None \<Rightarrow> Params)\<rparr> = Ok bz
        \<and> Query Rt r' ''/bps.bps.v1.Query/Params'' [] s = (Ok bz, s))"
proof -
  note auth = configured_authority [OF assms(1), of A]
  obtain gov where gov: "BytesToString (mi_AddressCodec inp) (NewModuleAddress A ''gov'') = Ok gov"
    using ProvideModule_Ok [OF assms(2)] by (auto simp: auth)
  have inverse: "StringToBytes (mi_AddressCodec inp) gov = Ok (NewModuleAddress A ''gov'')"
    using assms(3) gov by (simp add: codec_laws_def)
  note reaches = messages_reach_the_store [where services = services and r = r, OF assms(2,4-9), unfolded auth]
  from reaches obtain r' where r': "register_module R (mo_Module out) r = (Ok (), r')"
    and m: "\<forall>m. length (Authority m) < 2 ^ 62 \<longrightarrow>
        StringToBytes (mi_AddressCodec inp) (Authority m) = Ok (NewModuleAddress A ''gov'') \<longrightarrow>
        (\<exists>bs. MsgUpdateParams_Marshal m = Ok bs \<and> (\<forall>s. admits r' s bs \<longrightarrow>
          (\<exists>s'. Deliver Rt r' bs s = (Ok (Update_reply MsgUpdateParamsResponse), s') \<and> view s' = Some (MsgParams m))))"
    and rest: "\<forall>bs s. (\<forall>m. MsgUpdateParams_Unmarshal bs \<lparr>Authority = '''', MsgParams = Params\<rparr> = Ok m
            \<longrightarrow> StringToBytes (mi_AddressCodec inp) (Authority m) \<noteq> Ok (NewModuleAddress A ''gov'')) \<longrightarrow>
        (\<exists>x. Deliver Rt r' bs s = (x, s) \<and> \<not> is_ok x)"
      "\<forall>s. \<exists>bz. QueryParamsResponse_Marshal \<lparr>ResponseParams = (case view s of Some p \<Rightarrow> p | None \<Rightarrow> Params)\<rparr> = Ok bz
        \<and> Query Rt r' ''/bps.bps.v1.Query/Params'' [] s = (Ok bz, s)"
    by blast
  have g: "\<exists>bs. MsgUpdateParams_Marshal \<lparr>Authority = gov, MsgParams = p\<rparr> = Ok bs \<and> (\<forall>s. admits r' s bs \<longrightarrow>
      (\<exists>s'. Deliver Rt r' bs s = (Ok (Update_reply MsgUpdateParamsResponse), s') \<and> view s' = Some p))"
    if "length gov < 2 ^ 62" for p
    using m [rule_format, of "\<lparr>Authority = gov, MsgParams = p\<rparr>"] that inverse by simp
  show ?thesis
    by (intro exI [of _ r'] exI [of _ gov] conjI impI allI) (use r' gov g rest in blast)+
qed

text \<open>A registry that already holds another service.\<close>

definition bank_registry :: "string set \<times> (params option) services" where
  "bank_registry = ({''MsgSend''}, [''cosmos.bank.v1beta1.Msg'' \<mapsto> (\<lparr>ServiceName = ''cosmos.bank.v1beta1.Msg'', Methods = []\<rparr>,
     Msg_server Bps_Keeper.sample_keeper)])"

theorem governance_owns_the_parameters_witness:
  "\<exists>r' bs s'. register_module list_registrar sample_module bank_registry = (Ok (), r')
    \<and> MsgUpdateParams_Marshal \<lparr>Authority = ''gov'', MsgParams = Params\<rparr> = Ok bs
    \<and> Deliver list_routing r' bs None = (Ok (Update_reply MsgUpdateParamsResponse), s') \<and> s' = Some Params"
proof -
  have i: "item_laws (module_item (sample_inputs '''')) (\<lambda>s. s)" using sample_laws(2) by simp
  have s: "succeeds (item_Set (module_item (sample_inputs '''')) p)" for p
    by (simp add: succeeds_def Bps_Keeper.sample_item_def)
  have c: "map_of appConfig M_bps = Some (Bps_options (mi_Config (sample_inputs '''')))"
    by (simp add: appConfig_def bps_options_def)
  have ac: "codec_laws (mi_AddressCodec (sample_inputs ''''))" using sample_laws(1) by simp
  have g: "BytesToString (mi_AddressCodec (sample_inputs '''')) (NewModuleAddress sample_addresses ''gov'') = Ok ''gov''"
    by (simp add: sample_codec_def sample_addresses_def)
  have n: "snd bank_registry ''bps.bps.v1.Msg'' = None" "snd bank_registry ''bps.bps.v1.Query'' = None"
    by (simp_all add: bank_registry_def)
  show ?thesis
    using governance_owns_the_parameters [where services = snd and r = bank_registry,
        OF c sample_ProvideModule ac i s list_registrar_laws list_routing_laws n] unfolding g by force
qed

end
