(* ===== verification/Message_Methods.thy ===== *)
theory Message_Methods
  imports Messages
begin

text \<open>
  The other methods that the \<^verbatim>\<open>*.pb.go\<close> files generate for a message: writing into a buffer of the
  caller, the entry points of the protobuf runtime, \<^verbatim>\<open>Reset\<close>, the getters and the equality of the
  parameters. Like the loops of \<open>Wire\<close> those that are the same for every message are translated
  once, with the message's own methods as arguments.
\<close>

section \<open>Writing into a given buffer\<close>

text \<open>\<open>size := m.Size(); return m.MarshalToSizedBuffer(dAtA[:size])\<close>; the buffer is the caller's\<close>

definition MarshalTo ::
  "('m \<Rightarrow> int) \<Rightarrow> ('m \<Rightarrow> bytes \<Rightarrow> (bytes \<times> int) outcome) \<Rightarrow> 'm \<Rightarrow> bytes \<Rightarrow> (bytes \<times> int) outcome" where
  "MarshalTo sizeOf marshalTo m dAtA =
     (let size = sizeOf m in
      obind (slice dAtA 0 size) (\<lambda>front.
      obind (marshalTo m front) (\<lambda>(front, n). Ok (front @ drop (nat size) dAtA, n))))"

text \<open>
  The runtime's entry points. \<open>b\<close> is the buffer up to its capacity, \<open>b[:cap(b)]\<close>; the
  deterministic encoding is left to the runtime, whose function is an argument.
\<close>

definition XXX_Marshal ::
  "('m \<Rightarrow> bytes \<Rightarrow> bytes outcome) \<Rightarrow> ('m \<Rightarrow> bytes \<Rightarrow> (bytes \<times> int) outcome) \<Rightarrow> 'm \<Rightarrow> bytes \<Rightarrow> bool \<Rightarrow> bytes outcome" where
  "XXX_Marshal info_Marshal marshalTo m b deterministic =
     (if deterministic then info_Marshal m b
      else obind (marshalTo m b) (\<lambda>(b, n). slice b 0 n))"

definition XXX_Unmarshal :: "(bytes \<Rightarrow> 'm \<Rightarrow> 'm outcome) \<Rightarrow> bytes \<Rightarrow> 'm \<Rightarrow> 'm outcome" where
  "XXX_Unmarshal unmarshal b m = unmarshal b m"

definition XXX_Size :: "('m \<Rightarrow> int) \<Rightarrow> 'm \<Rightarrow> int" where
  "XXX_Size sizeOf m = sizeOf m"

text \<open>\<open>*m = M{}\<close>\<close>

definition Reset :: "'m \<Rightarrow> 'm \<Rightarrow> 'm" where
  "Reset zero m = zero"

context wire_message
begin

text \<open>A buffer that is long enough gets the encoding at its front and keeps the rest.\<close>

lemma MarshalTo_front:
  assumes "wf m" and "length (enc m) \<le> length buf"
  shows "MarshalTo sizeOf marshalTo m buf
    = Ok (enc m @ drop (length (enc m)) buf, int (length (enc m)))"
  using assms marshalTo_enc [of m "take (length (enc m)) buf" "[]"] fits [of m]
  by (simp add: MarshalTo_def size_enc slice_def Let_def)

lemma MarshalTo_short:
  "wf m \<Longrightarrow> length buf < length (enc m) \<Longrightarrow> MarshalTo sizeOf marshalTo m buf = Panic out_of_range"
  by (simp add: MarshalTo_def size_enc slice_def Let_def)

text \<open>
  The runtime's entry point fills the buffer from its end and returns its front: the bytes are the
  encoding when the capacity is exactly the size.
\<close>

lemma XXX_Marshal_capacity:
  assumes "wf m" and "length (enc m) \<le> length b" and "length b < 2 ^ 63"
  shows "XXX_Marshal info marshalTo m b False
    = Ok (take (length (enc m)) (take (length b - length (enc m)) b @ enc m))"
proof -
  have b: "b = take (length b - length (enc m)) b @ drop (length b - length (enc m)) b" by simp
  have "marshalTo m b = Ok (take (length b - length (enc m)) b @ enc m, int (length (enc m)))"
    using marshalTo_enc [OF assms(1), of "drop (length b - length (enc m)) b" "take (length b - length (enc m)) b"]
      assms(2,3) by simp
  then show ?thesis using assms(2) by (simp add: XXX_Marshal_def slice_def)
qed

lemma XXX_Marshal_exact:
  "wf m \<Longrightarrow> length b = length (enc m) \<Longrightarrow> XXX_Marshal info marshalTo m b False = Ok (enc m)"
  using XXX_Marshal_capacity [of m b info] fits [of m] by simp

lemma XXX_roundtrip:
  "wf m \<Longrightarrow> obind (XXX_Marshal info marshalTo m (replicate (nat (XXX_Size sizeOf m)) 0) False)
     (\<lambda>bs. XXX_Unmarshal unmarshal bs (Reset zero m0)) = Ok m"
  using XXX_Marshal_exact [of m "replicate (length (enc m)) 0" info]
  by (simp add: XXX_Size_def XXX_Unmarshal_def Reset_def size_enc unmarshal_enc)

end

section \<open>Getters and equality\<close>

text \<open>A nil receiver is \<open>None\<close>.\<close>

definition GenesisState_GetParams :: "genesis_state option \<Rightarrow> params" where
  "GenesisState_GetParams m = (case m of Some m \<Rightarrow> GenesisState_Params m | None \<Rightarrow> Params)"

definition Module_GetAuthority :: "module_config option \<Rightarrow> string" where
  "Module_GetAuthority m = (case m of Some m \<Rightarrow> ConfigAuthority m | None \<Rightarrow> '''')"

definition QueryParamsResponse_GetParams :: "query_params_response option \<Rightarrow> params" where
  "QueryParamsResponse_GetParams m = (case m of Some m \<Rightarrow> ResponseParams m | None \<Rightarrow> Params)"

text \<open>What \<^verbatim>\<open>Equal\<close> may be given: nil, a pointer to parameters, parameters, or anything else.\<close>

datatype interface_value = Nil_value | Params_pointer "params option" | Params_value params | Other_value

definition Params_Equal :: "params option \<Rightarrow> interface_value \<Rightarrow> bool" where
  "Params_Equal this that =
     (let compare = (\<lambda>that1. if that1 = None then this = None
                             else if this = None then False else True) in
      case that of
        Nil_value \<Rightarrow> this = None
      | Params_pointer that1 \<Rightarrow> compare that1
      | Params_value that2 \<Rightarrow> compare (Some that2)
      | Other_value \<Rightarrow> False)"

text \<open>\<^verbatim>\<open>Equal\<close> is equality: with a value or a pointer that holds the same, and with nil for nil.\<close>

lemma Params_Equal_iff:
  "Params_Equal this that \<longleftrightarrow>
     (case that of Nil_value \<Rightarrow> this = None | Params_pointer p \<Rightarrow> this = p
      | Params_value v \<Rightarrow> this = Some v | Other_value \<Rightarrow> False)"
proof -
  have "this = p" if "this \<noteq> None" "p \<noteq> None" for p
    using that params_unique [of "the this"] params_unique [of "the p"] by auto
  then show ?thesis by (auto simp: Params_Equal_def Let_def split: interface_value.split)
qed

text \<open>
  A \<^verbatim>\<open>MsgUpdateParams\<close> is written to the front of any buffer that is long enough, and what
  stands behind it is kept; a shorter buffer is an index out of range. The runtime's entry point
  gives the same bytes in a buffer of exactly that capacity; in a longer one its result is another
  prefix.
\<close>

theorem update_params_in_callers_buffer:
  assumes "length (Authority m) < 2 ^ 62" and "MsgUpdateParams_Marshal m = Ok bs"
  shows "MarshalTo MsgUpdateParams_Size MsgUpdateParams_MarshalToSizedBuffer m buf
      = (if length bs \<le> length buf then Ok (bs @ drop (length bs) buf, int (length bs))
         else Panic out_of_range)
    \<and> (length bs \<le> length buf \<and> length buf < 2 ^ 63 \<longrightarrow>
       XXX_Marshal info MsgUpdateParams_MarshalToSizedBuffer m buf False
         = Ok (take (length bs) (take (length buf - length bs) buf @ bs)))"
proof -
  have wf: "authority_fits (Authority m)" using assms(1) by (simp add: authority_fits_def)
  then have "bs = enc_update_params m"
    using update_codec.marshal_enc [of m] assms(2) by (simp add: MsgUpdateParams_Marshal_def)
  then show ?thesis
    using update_codec.MarshalTo_front [OF wf] update_codec.MarshalTo_short [OF wf]
      update_codec.XXX_Marshal_capacity [OF wf] by simp
qed

text \<open>With a capacity of one byte too many the runtime's entry point returns other bytes.\<close>

lemma xxx_marshal_wrong_capacity:
  "XXX_Marshal info MsgUpdateParams_MarshalToSizedBuffer \<lparr>Authority = '''', MsgParams = Params\<rparr> [7, 7, 7] False
     = Ok [7, 0x12]
   \<and> MsgUpdateParams_Marshal \<lparr>Authority = '''', MsgParams = Params\<rparr> = Ok [0x12, 0]"
  unfolding XXX_Marshal_def by code_simp

end
