(* ===== verification/Grpc_Client.thy ===== *)
theory Grpc_Client
  imports Module_Services Message_Methods
begin

text \<open>
  The client side of the module's services (\<^verbatim>\<open>tx.pb.go\<close>, \<^verbatim>\<open>query.pb.go\<close>): the generated clients and
  the servers that implement nothing, and the way of a call from a client over the wire to the
  keeper and back.
\<close>

section \<open>Clients and unimplemented servers\<close>

text \<open>
  A connection invokes a method of a service by its full name on the request and the empty reply
  that it fills in.
\<close>

type_synonym ('s, 'in, 'out) connection = "string \<Rightarrow> 'in \<Rightarrow> 'out \<Rightarrow> ('s, 'out) eff"

definition msgClient_UpdateParams ::
  "('s, msg_update_params, msg_update_params_response) connection \<Rightarrow> msg_update_params \<Rightarrow>
   ('s, msg_update_params_response) eff" where
  "msgClient_UpdateParams Invoke inp =
     bind (Invoke ''/bps.bps.v1.Msg/UpdateParams'' inp MsgUpdateParamsResponse) (\<lambda>out. ret out)"

definition queryClient_Params ::
  "('s, query_params_request, query_params_response) connection \<Rightarrow> query_params_request \<Rightarrow>
   ('s, query_params_response) eff" where
  "queryClient_Params Invoke inp =
     bind (Invoke ''/bps.bps.v1.Query/Params'' inp \<lparr>ResponseParams = Params\<rparr>) (\<lambda>out. ret out)"

definition Unimplemented_UpdateParams :: "msg_update_params \<Rightarrow> ('s, msg_update_params_response) eff" where
  "Unimplemented_UpdateParams req =
     raise (Status_error ''Unimplemented'' ''method UpdateParams not implemented'')"

definition Unimplemented_Params :: "query_params_request \<Rightarrow> ('s, query_params_response) eff" where
  "Unimplemented_Params req = raise (Status_error ''Unimplemented'' ''method Params not implemented'')"

section \<open>A call over the wire\<close>

text \<open>
  What gRPC promises of a connection to a server with these services: \<^verbatim>\<open>Invoke\<close> marshals the request,
  the server runs the handler of the method named by the path with a decoder of these bytes and the
  server's interceptor, if it has one, and the marshalled reply is unmarshalled into the client's; an
  error of the handler comes back as a status, and the state is the one the handler left. \<open>enc\<close> and
  \<open>merge\<close> are the marshalling of the request and the unmarshalling of the reply on the client's side.
  Nothing is assumed of a call whose request or reply cannot be encoded, or whose handler panics.
\<close>

definition transports ::
  "('in \<Rightarrow> bytes outcome) \<Rightarrow> (bytes \<Rightarrow> 'out \<Rightarrow> 'out outcome) \<Rightarrow> (bytes \<Rightarrow> decoder) \<Rightarrow> (service_reply \<Rightarrow> bytes outcome) \<Rightarrow>
   (go_error \<Rightarrow> go_error) \<Rightarrow> 's interceptor option \<Rightarrow> 's services \<Rightarrow> ('s, 'in, 'out) connection \<Rightarrow> bool" where
  "transports enc merge dec enc_reply to_status interceptor services Invoke \<longleftrightarrow>
     (\<forall>svc meth d srv h inp out bs s r s'.
        CHR ''/'' \<notin> set svc \<longrightarrow> CHR ''/'' \<notin> set meth \<longrightarrow>
        services svc = Some (d, srv) \<longrightarrow> map_of (Methods d) meth = Some h \<longrightarrow> enc inp = Ok bs \<longrightarrow>
        h srv (dec bs) interceptor s = (r, s') \<longrightarrow>
        (\<forall>reply bz out'. r = Ok reply \<longrightarrow> enc_reply reply = Ok bz \<longrightarrow> merge bz out = Ok out' \<longrightarrow>
           Invoke (''/'' @ svc @ ''/'' @ meth) inp out s = (Ok out', s')) \<and>
        (\<forall>e. r = Err e \<longrightarrow> Invoke (''/'' @ svc @ ''/'' @ meth) inp out s = (Err (to_status e), s')))"

text \<open>An interceptor that does nothing but go on with the call.\<close>

definition goes_on :: "'s interceptor option \<Rightarrow> bool" where
  "goes_on i \<longleftrightarrow> (\<forall>f. i = Some f \<longrightarrow> (\<forall>req name call. f req name call = call req))"

lemma response_roundtrip:
  obtains bz where "MsgUpdateParamsResponse_Marshal r = Ok bz"
    and "MsgUpdateParamsResponse_Unmarshal bz MsgUpdateParamsResponse = Ok r"
  using response_codec.roundtrip [of r] by (auto simp: obind_eq_Ok MsgUpdateParamsResponse_Marshal_def)

lemma handled:
  assumes "codec_calls_generated dec enc" and "goes_on i"
  shows "MsgUpdateParams_Unmarshal bs \<lparr>Authority = '''', MsgParams = Params\<rparr> = Ok m \<Longrightarrow>
      Msg_UpdateParams_Handler (Msg_server k) (dec bs) i = bind (UpdateParams k m) (\<lambda>r. ret (Update_reply r))"
    and "QueryParamsRequest_Unmarshal bs QueryParamsRequest = Ok q \<Longrightarrow>
      Query_Params_Handler (Query_server k) (dec bs) i = bind (Query_Params k (Some q)) (\<lambda>r. ret (Params_reply r))"
proof -
  have d: "dec bs (Update_request z) = obind (MsgUpdateParams_Unmarshal bs z) (\<lambda>m. Ok (Update_request m))"
    "dec bs (Params_request z') = obind (QueryParamsRequest_Unmarshal bs z') (\<lambda>q. Ok (Params_request q))" for z z'
    using assms(1) by (simp_all add: codec_calls_generated_def)
  show "Msg_UpdateParams_Handler (Msg_server k) (dec bs) i = bind (UpdateParams k m) (\<lambda>r. ret (Update_reply r))"
    if "MsgUpdateParams_Unmarshal bs \<lparr>Authority = '''', MsgParams = Params\<rparr> = Ok m"
    using assms(2) by (cases i) (simp_all add: goes_on_def Msg_UpdateParams_Handler_def call_UpdateParams_def d that)
  show "Query_Params_Handler (Query_server k) (dec bs) i = bind (Query_Params k (Some q)) (\<lambda>r. ret (Params_reply r))"
    if "QueryParamsRequest_Unmarshal bs QueryParamsRequest = Ok q"
    using assms(2) by (cases i) (simp_all add: goes_on_def Query_Params_Handler_def call_Params_def d that)
qed

text \<open>A call of a registered method whose handler runs \<open>m\<close> and wraps its result.\<close>

lemma call_is_handler:
  assumes "transports enc merge dec enc_reply to_status i services Invoke"
    and "CHR ''/'' \<notin> set svc" and "CHR ''/'' \<notin> set meth"
    and "services svc = Some (d, srv)" and "map_of (Methods d) meth = Some h" and "enc inp = Ok bs"
    and "h srv (dec bs) i = bind m (\<lambda>x. ret (wrap x))"
    and "\<And>x. \<exists>bz. enc_reply (wrap x) = Ok bz \<and> merge bz out = Ok x"
    and "m s = (r, s')" and "(\<exists>x. r = Ok x) \<or> (\<exists>e. r = Err e)"
  shows "Invoke (''/'' @ svc @ ''/'' @ meth) inp out s = map_err to_status m s"
proof -
  note law = assms(1) [unfolded transports_def, rule_format, OF assms(2-6)]
  from assms(10) show ?thesis
  proof
    assume "\<exists>x. r = Ok x"
    then obtain x where x: "m s = (Ok x, s')" using assms(9) by blast
    obtain bz where bz: "enc_reply (wrap x) = Ok bz" "merge bz out = Ok x" using assms(8) by blast
    have "h srv (dec bs) i s = (Ok (wrap x), s')" unfolding assms(7) by (simp add: x)
    with law bz x show ?thesis by (simp add: map_err_def)
  next
    assume "\<exists>e. r = Err e"
    then obtain e where e: "m s = (Err e, s')" using assms(9) by blast
    have "h srv (dec bs) i s = (Err e, s')" unfolding assms(7) by (simp add: e bind_def)
    with law e show ?thesis by (simp add: map_err_def)
  qed
qed

section \<open>Property\<close>

text \<open>
  C11: A call through the generated client is a call of the keeper: when the module has registered
  its services, under names that were free, on the server a connection leads to, what the client's
  method returns, and the state it leaves, are those of the keeper's method with an error turned into
  a status, for every message that fits in memory and every state in which the keeper's method
  returns (a result or an error); client, wire format, descriptions and handlers add nothing and lose
  nothing. The server may run an interceptor that goes on with the call.
\<close>

theorem client_call_is_keeper_call:
  assumes "registry_laws R known services" and "services r ''bps.bps.v1.Msg'' = None" and "services r ''bps.bps.v1.Query'' = None"
    and "register_module R am r = (Ok (), r')" and "codec_calls_generated dec enc_reply" and "goes_on i"
    and "transports MsgUpdateParams_Marshal MsgUpdateParamsResponse_Unmarshal dec enc_reply to_status i (services r') Invoke_msg"
    and "transports QueryParamsRequest_Marshal QueryParamsResponse_Unmarshal dec enc_reply to_status i (services r') Invoke_query"
  shows "(\<forall>m s x s'. length (Authority m) < 2 ^ 62 \<longrightarrow> UpdateParams (am_keeper am) m s = (x, s') \<longrightarrow> (is_ok x \<or> (\<exists>e. x = Err e)) \<longrightarrow>
        msgClient_UpdateParams Invoke_msg m s = map_err to_status (UpdateParams (am_keeper am) m) s)
    \<and> (\<forall>q s x s'. Query_Params (am_keeper am) (Some q) s = (x, s') \<longrightarrow> (is_ok x \<or> (\<exists>e. x = Err e)) \<longrightarrow>
        queryClient_Params Invoke_query q s = map_err to_status (Query_Params (am_keeper am) (Some q)) s)"
proof (intro conjI allI impI)
  let ?k = "am_keeper am"
  obtain r'' where r'': "register_module R am r = (Ok (), r'')"
    and new: "services r'' = (services r)(''bps.bps.v1.Msg'' \<mapsto> (Msg_serviceDesc, Msg_server ?k),
      ''bps.bps.v1.Query'' \<mapsto> (Query_serviceDesc, Query_server ?k))"
    by (rule registered_services [where services = services and r = r and am = am, OF assms(1-3)])
  have "r' = r''" using assms(4) r'' by simp
  then have sv: "services r' ''bps.bps.v1.Msg'' = Some (Msg_serviceDesc, Msg_server ?k)"
    "services r' ''bps.bps.v1.Query'' = Some (Query_serviceDesc, Query_server ?k)"
    by (simp_all add: new)
  have enc: "enc_reply (Update_reply a) = MsgUpdateParamsResponse_Marshal a" "enc_reply (Params_reply b) = QueryParamsResponse_Marshal b" for a b
    using assms(5) by (simp_all add: codec_calls_generated_def)
  fix m s x s' assume "length (Authority m) < 2 ^ 62" and run: "UpdateParams ?k m s = (x, s')" "is_ok x \<or> (\<exists>e. x = Err e)"
  then obtain bs where bs: "MsgUpdateParams_Marshal m = Ok bs" "MsgUpdateParams_Unmarshal bs \<lparr>Authority = '''', MsgParams = Params\<rparr> = Ok m"
    using update_codec.roundtrip [of m] by (auto simp: obind_eq_Ok MsgUpdateParams_Marshal_def authority_fits_def)
  have b: "\<exists>bz. enc_reply (Update_reply a) = Ok bz \<and> MsgUpdateParamsResponse_Unmarshal bz MsgUpdateParamsResponse = Ok a" for a
    unfolding enc by (rule response_roundtrip [of a]) blast
  have "Invoke_msg (''/'' @ ''bps.bps.v1.Msg'' @ ''/'' @ ''UpdateParams'') m MsgUpdateParamsResponse s = map_err to_status (UpdateParams ?k m) s"
    by (rule call_is_handler [OF assms(7) _ _ sv(1) method_handlers(1) bs(1) handled(1) [OF assms(5,6) bs(2)] b run(1)])
      (use run(2) in \<open>auto simp: is_ok_iff\<close>)
  then show "msgClient_UpdateParams Invoke_msg m s = map_err to_status (UpdateParams ?k m) s"
    by (simp add: msgClient_UpdateParams_def bind_ret_right)
next
  fix q s x s' assume run: "Query_Params (am_keeper am) (Some q) s = (x, s')" "is_ok x \<or> (\<exists>e. x = Err e)"
  let ?k = "am_keeper am"
  obtain r'' where r'': "register_module R am r = (Ok (), r'')"
    and new: "services r'' = (services r)(''bps.bps.v1.Msg'' \<mapsto> (Msg_serviceDesc, Msg_server ?k),
      ''bps.bps.v1.Query'' \<mapsto> (Query_serviceDesc, Query_server ?k))"
    by (rule registered_services [where services = services and r = r and am = am, OF assms(1-3)])
  have "r' = r''" using assms(4) r'' by simp
  then have sv: "services r' ''bps.bps.v1.Query'' = Some (Query_serviceDesc, Query_server ?k)"
    by (simp add: new)
  have enc: "enc_reply (Params_reply b) = QueryParamsResponse_Marshal b" for b
    using assms(5) by (simp add: codec_calls_generated_def)
  obtain bs where bs: "QueryParamsRequest_Marshal q = Ok bs" "QueryParamsRequest_Unmarshal bs QueryParamsRequest = Ok q"
    using request_codec.roundtrip [of q] by (auto simp: obind_eq_Ok QueryParamsRequest_Marshal_def)
  have b: "\<exists>bz. enc_reply (Params_reply a) = Ok bz \<and> QueryParamsResponse_Unmarshal bz \<lparr>ResponseParams = Params\<rparr> = Ok a" for a
    unfolding enc by (rule encoded_response [of a]) blast
  have "Invoke_query (''/'' @ ''bps.bps.v1.Query'' @ ''/'' @ ''Params'') q \<lparr>ResponseParams = Params\<rparr> s
      = map_err to_status (Query_Params ?k (Some q)) s"
    by (rule call_is_handler [OF assms(8) _ _ sv method_handlers(2) bs(1) handled(2) [OF assms(5,6) bs(2)] b run(1)])
      (use run(2) in \<open>auto simp: is_ok_iff\<close>)
  then show "queryClient_Params Invoke_query q s = map_err to_status (Query_Params (am_keeper am) (Some q)) s"
    by (simp add: queryClient_Params_def bind_ret_right)
qed

text \<open>A server in the same process, whose interceptor goes on with the call.\<close>

definition local_server ::
  "('in \<Rightarrow> bytes outcome) \<Rightarrow> (bytes \<Rightarrow> 'out \<Rightarrow> 'out outcome) \<Rightarrow> 's services \<Rightarrow> ('s, 'in, 'out) connection" where
  "local_server enc merge services path inp out =
     (case strings_Split path (CHR ''/'') of
        [_, svc, meth] \<Rightarrow> (case find_method services svc meth of
            None \<Rightarrow> raise (Status_error ''Unimplemented'' path)
          | Some (srv, h) \<Rightarrow> bind (lift_outcome (enc inp)) (\<lambda>bs.
              bind (map_err (\<lambda>e. Status_error ''Unknown'' '''') (h srv (generated_decoder bs) (Some (\<lambda>req name call. call req)))) (\<lambda>reply.
              lift_outcome (obind (generated_encoder reply) (\<lambda>bz. merge bz out)))))
      | _ \<Rightarrow> raise (Status_error ''Unimplemented'' path))"

lemma local_server_transports:
  "transports enc merge generated_decoder generated_encoder (\<lambda>e. Status_error ''Unknown'' '''')
     (Some (\<lambda>req name call. call req)) services (local_server enc merge services)"
  unfolding transports_def local_server_def
  by (auto simp: Split_append Split_single find_method_def bind_def map_err_def)

theorem client_call_is_keeper_call_witness:
  "\<exists>r'. register_module list_registrar sample_module ({}, Map.empty) = (Ok (), r')
    \<and> msgClient_UpdateParams (local_server MsgUpdateParams_Marshal MsgUpdateParamsResponse_Unmarshal (snd r'))
        \<lparr>Authority = ''gov'', MsgParams = Params\<rparr> None = (Ok MsgUpdateParamsResponse, Some Params)
    \<and> queryClient_Params (local_server QueryParamsRequest_Marshal QueryParamsResponse_Unmarshal (snd r')) QueryParamsRequest (Some Params)
        = (Ok \<lparr>ResponseParams = Params\<rparr>, Some Params)"
proof -
  let ?e = "({}, Map.empty) :: string set \<times> (params option) services"
  have n: "snd ?e ''bps.bps.v1.Msg'' = None" "snd ?e ''bps.bps.v1.Query'' = None" by simp_all
  obtain r' where r': "register_module list_registrar sample_module ?e = (Ok (), r')"
    by (rule registered_services [where services = snd and r = ?e and am = sample_module, OF list_registrar_laws n])
  have c: "codec_calls_generated generated_decoder generated_encoder" by (simp add: codec_calls_generated_def)
  have g: "goes_on (Some (\<lambda>req name (call :: (params option) call). call req))" by (simp add: goes_on_def)
  note calls = client_call_is_keeper_call [where services = snd and r = ?e,
      OF list_registrar_laws n r' c g local_server_transports local_server_transports]
  have u: "UpdateParams (am_keeper sample_module) \<lparr>Authority = ''gov'', MsgParams = Params\<rparr> None = (Ok MsgUpdateParamsResponse, Some Params)"
    by (simp add: UpdateParams_accepts Bps_Keeper.sample_keeper_def sample_codec_def Bps_Keeper.sample_item_def bind_def)
  have q: "Query_Params (am_keeper sample_module) (Some QueryParamsRequest) (Some Params) = (Ok \<lparr>ResponseParams = Params\<rparr>, Some Params)"
    by (simp add: Query_Params_def Bps_Keeper.sample_keeper_def Bps_Keeper.sample_item_def)
  have a: "length (Authority \<lparr>Authority = ''gov'', MsgParams = Params\<rparr>) < 2 ^ 62" by simp
  have "msgClient_UpdateParams (local_server MsgUpdateParams_Marshal MsgUpdateParamsResponse_Unmarshal (snd r'))
        \<lparr>Authority = ''gov'', MsgParams = Params\<rparr> None = (Ok MsgUpdateParamsResponse, Some Params)"
    using calls [THEN conjunct1, rule_format, OF a u] u by (simp add: map_err_def)
  moreover have "queryClient_Params (local_server QueryParamsRequest_Marshal QueryParamsResponse_Unmarshal (snd r')) QueryParamsRequest (Some Params)
        = (Ok \<lparr>ResponseParams = Params\<rparr>, Some Params)"
    using calls [THEN conjunct2, rule_format, OF q] q by (simp add: map_err_def)
  ultimately show ?thesis using r' by blast
qed

end
