(* ===== verification/Testnet_InPlace.thy ===== *)
theory Testnet_InPlace
  imports Mint_Hardcap Bps_Keeper Go_Std
begin

text \<open>
  \<^verbatim>\<open>cmd/bpsd/cmd/testnet.go\<close>: the command that turns the stores of a node into those of a local
  testnet with one validator: its arguments, the removal of the old validators from the staking
  store, the records of the new validator, and the funding of local accounts. An error handled
  by \<^verbatim>\<open>handleErr\<close> ends the process.

  The keepers and stores are the record \<open>testnet_env\<close>. An iterator is a \<open>cursor\<close>: it stands at a key
  or has ended, and where \<^verbatim>\<open>Next\<close> takes it depends on the state in which it is called. The names of the
  server's options are the constructors of \<open>opt_key\<close>, an option's dynamic type those of \<open>opt_value\<close>.
\<close>

section \<open>The command's arguments\<close>

datatype opt_key =
    KeyNewValAddr | KeyUserPubKey | KeyNewOpAddr | KeyTriggerTestnetUpgrade
  | AccountsToFund | FlagHome

datatype 'k opt_value =
    Opt_nil
  | Opt_hex bytes
  | Opt_pubkey 'k
  | Opt_string string

record 'k val_args =
  newValAddr :: bytes
  newOperatorAddress :: string
  newValPubKey :: 'k
  accountsToFund :: "string list"
  upgradeToTrigger :: string
  homeDir :: string

fun as_hex :: "'k opt_value \<Rightarrow> bytes option" where
  "as_hex (Opt_hex b) = Some b"
| "as_hex _ = None"

fun as_pubkey :: "'k opt_value \<Rightarrow> 'k option" where
  "as_pubkey (Opt_pubkey k) = Some k"
| "as_pubkey _ = None"

fun as_string :: "'k opt_value \<Rightarrow> string option" where
  "as_string (Opt_string s) = Some s"
| "as_string _ = None"

definition getCommandArgs ::
  "('k opt_value \<Rightarrow> string) \<Rightarrow> (opt_key \<Rightarrow> 'k opt_value) \<Rightarrow> 'k val_args outcome" where
  "getCommandArgs cast_ToString appOpts =
     (case as_hex (appOpts KeyNewValAddr) of
        None \<Rightarrow> Err (Error_text ''newValAddr is not of type bytes.HexBytes'')
      | Some valAddr \<Rightarrow>
     (case as_pubkey (appOpts KeyUserPubKey) of
        None \<Rightarrow> Err (Error_text ''newValPubKey is not of type crypto.PubKey'')
      | Some pubKey \<Rightarrow>
     (case as_string (appOpts KeyNewOpAddr) of
        None \<Rightarrow> Err (Error_text ''newOperatorAddress is not of type string'')
      | Some opAddr \<Rightarrow>
     (case as_string (appOpts KeyTriggerTestnetUpgrade) of
        None \<Rightarrow> Err (Error_text ''upgradeToTrigger is not of type string'')
      | Some upgrade \<Rightarrow>
     (let accounts = strings_Split (cast_ToString (appOpts AccountsToFund)) (CHR '','');
          home = cast_ToString (appOpts FlagHome) in
      if home = '''' then Err (Error_text ''invalid home dir'')
      else Ok \<lparr>newValAddr = valAddr, newOperatorAddress = opAddr, newValPubKey = pubKey,
               accountsToFund = accounts, upgradeToTrigger = upgrade, homeDir = home\<rparr>)))))"

section \<open>The stores\<close>

definition valVotingPower :: int where
  "valVotingPower = 900000000000000"

text \<open>A decimal is the integer it holds, scaled by \<open>10 ^ 18\<close>.\<close>

record 'any new_validator =
  nv_OperatorAddress :: string
  nv_ConsensusPubkey :: 'any
  nv_Jailed :: bool
  nv_Bonded :: bool
  nv_Tokens :: int
  nv_DelegatorShares :: int
  nv_Moniker :: string
  nv_Rate :: int
  nv_MaxRate :: int
  nv_MaxChangeRate :: int
  nv_MinSelfDelegation :: int

record new_signing_info =
  si_Address :: string
  si_StartHeight :: int
  si_Tombstoned :: bool

text \<open>
  \<^verbatim>\<open>Valid\<close> is the constructor \<open>At\<close>, \<^verbatim>\<open>Key\<close> its key and \<^verbatim>\<open>Next\<close> its function. An iterator that yields
  keys forever has no cursor.
\<close>

datatype 's cursor = Ended | At bytes "'s \<Rightarrow> 's cursor"

record ('s, 'k, 'any) testnet_env =
  tn_newApp :: "(opt_key \<Rightarrow> 'k opt_value) \<Rightarrow> ('s, bool) eff"
  tn_PubKey_Bytes :: "'k \<Rightarrow> bytes"
  tn_NewAnyWithValue :: "bytes \<Rightarrow> 'any outcome"
  tn_ValidatorCodec :: addr_codec
  tn_AuthCodec :: addr_codec
  tn_PowerStoreIterator :: "('s, 's cursor) eff"
  tn_LastValidatorsIterator :: "('s, 's cursor) eff"
  tn_ValidatorsKey :: bytes
  tn_ValidatorQueueKey :: bytes
  tn_PrefixEndBytes :: "bytes \<Rightarrow> bytes"
  tn_StoreIterator :: "bytes \<Rightarrow> bytes \<Rightarrow> ('s, 's cursor) eff"
  tn_CloseIterator :: "('s, unit) eff"
  tn_StoreDelete :: "bytes \<Rightarrow> ('s, unit) eff"
  tn_SetValidator :: "'any new_validator \<Rightarrow> ('s, unit) eff"
  tn_SetValidatorByConsAddr :: "'any new_validator \<Rightarrow> ('s, unit) eff"
  tn_SetValidatorByPowerIndex :: "'any new_validator \<Rightarrow> ('s, unit) eff"
  tn_SetLastValidatorPower :: "bytes \<Rightarrow> int \<Rightarrow> ('s, unit) eff"
  tn_AfterValidatorCreated :: "bytes \<Rightarrow> ('s, unit) eff"
  tn_SetValidatorHistoricalRewards :: "bytes \<Rightarrow> int \<Rightarrow> int \<Rightarrow> ('s, unit) eff"
  tn_SetValidatorCurrentRewards :: "bytes \<Rightarrow> int \<Rightarrow> ('s, unit) eff"
  tn_SetValidatorAccumulatedCommission :: "bytes \<Rightarrow> ('s, unit) eff"
  tn_SetValidatorOutstandingRewards :: "bytes \<Rightarrow> ('s, unit) eff"
  tn_LastBlockHeight :: int
  tn_ConsAddress_String :: "bytes \<Rightarrow> string"
  tn_SetValidatorSigningInfo :: "bytes \<Rightarrow> new_signing_info \<Rightarrow> ('s, unit) eff"
  tn_BondDenom :: "('s, string) eff"
  tn_MintModuleName :: string
  tn_MintCoins :: "string \<Rightarrow> coin list \<Rightarrow> ('s, unit) eff"
  tn_SendCoinsFromModuleToAccount :: "string \<Rightarrow> bytes \<Rightarrow> coin list \<Rightarrow> ('s, unit) eff"
  tn_PrintErr :: "go_error \<Rightarrow> ('s, unit) eff"

section \<open>The code\<close>

text \<open>\<open>handleErr(m())\<close>: an error is printed and the process ends with code 1.\<close>

definition handleErr :: "('s, 'k, 'any) testnet_env \<Rightarrow> ('s, 'a) eff \<Rightarrow> ('s, 'a) eff" where
  "handleErr E m = (\<lambda>s. case m s of
     (Err e, s') \<Rightarrow> (Exit 1, snd (tn_PrintErr E e s'))
   | r \<Rightarrow> r)"

text \<open>\<open>for ; iterator.Valid(); iterator.Next() { store.Delete(iterator.Key()) }\<close>, and \<open>iterator.Close()\<close>.\<close>

primrec delete_loop :: "('s, 'k, 'any) testnet_env \<Rightarrow> 's cursor \<Rightarrow> ('s, unit) eff" where
  "delete_loop E Ended = ret ()"
| "delete_loop E (At key next) = bind (tn_StoreDelete E key) (\<lambda>_ s. delete_loop E (next s) s)"

definition delete_keys :: "('s, 'k, 'any) testnet_env \<Rightarrow> 's cursor \<Rightarrow> ('s, unit) eff" where
  "delete_keys E iterator = bind (delete_loop E iterator) (\<lambda>_. discard (tn_CloseIterator E))"

definition clear_validators :: "('s, 'k, 'any) testnet_env \<Rightarrow> ('s, unit) eff" where
  "clear_validators E =
     bind (handleErr E (tn_PowerStoreIterator E)) (\<lambda>iterator.
     bind (delete_keys E iterator) (\<lambda>_.
     bind (handleErr E (tn_LastValidatorsIterator E)) (\<lambda>iterator.
     bind (delete_keys E iterator) (\<lambda>_.
     bind (tn_StoreIterator E (tn_ValidatorsKey E) (tn_PrefixEndBytes E (tn_ValidatorsKey E))) (\<lambda>iterator.
     bind (delete_keys E iterator) (\<lambda>_.
     bind (tn_StoreIterator E (tn_ValidatorQueueKey E) (tn_PrefixEndBytes E (tn_ValidatorQueueKey E))) (\<lambda>iterator.
     delete_keys E iterator)))))))"

definition new_testnet_validator :: "string \<Rightarrow> 'any \<Rightarrow> 'any new_validator" where
  "new_testnet_validator operator pubkeyAny = \<lparr>
     nv_OperatorAddress = operator, nv_ConsensusPubkey = pubkeyAny, nv_Jailed = False,
     nv_Bonded = True, nv_Tokens = valVotingPower, nv_DelegatorShares = 10000000 * 10 ^ 18,
     nv_Moniker = ''Testnet Validator'', nv_Rate = 5 * 10 ^ 16, nv_MaxRate = 10 ^ 17,
     nv_MaxChangeRate = 5 * 10 ^ 16, nv_MinSelfDelegation = 1\<rparr>"

definition add_validator ::
  "('s, 'k, 'any) testnet_env \<Rightarrow> 'any new_validator \<Rightarrow> bytes \<Rightarrow> ('s, unit) eff" where
  "add_validator E newVal validator =
     bind (handleErr E (tn_SetValidator E newVal)) (\<lambda>_.
     bind (handleErr E (tn_SetValidatorByConsAddr E newVal)) (\<lambda>_.
     bind (handleErr E (tn_SetValidatorByPowerIndex E newVal)) (\<lambda>_.
     bind (handleErr E (tn_SetLastValidatorPower E validator 0)) (\<lambda>_.
     bind (handleErr E (tn_AfterValidatorCreated E validator)) (\<lambda>_.
     bind (handleErr E (tn_SetValidatorHistoricalRewards E validator 0 1)) (\<lambda>_.
     bind (handleErr E (tn_SetValidatorCurrentRewards E validator 1)) (\<lambda>_.
     bind (handleErr E (tn_SetValidatorAccumulatedCommission E validator)) (\<lambda>_.
     handleErr E (tn_SetValidatorOutstandingRewards E validator)))))))))"

definition set_signing_info ::
  "('s, 'k, 'any) testnet_env \<Rightarrow> 'k val_args \<Rightarrow> ('s, unit) eff" where
  "set_signing_info E args =
     (let newConsAddr = newValAddr args;
          info = \<lparr>si_Address = tn_ConsAddress_String E newConsAddr,
                  si_StartHeight = wrap64 (tn_LastBlockHeight E - 1), si_Tombstoned = False\<rparr>
      in discard (tn_SetValidatorSigningInfo E newConsAddr info))"

definition fund_account ::
  "('s, 'k, 'any) testnet_env \<Rightarrow> coin list \<Rightarrow> string \<Rightarrow> ('s, unit) eff" where
  "fund_account E defaultCoins accountStr =
     bind (handleErr E (tn_MintCoins E (tn_MintModuleName E) defaultCoins)) (\<lambda>_.
     bind (handleErr E (lift_outcome (StringToBytes (tn_AuthCodec E) accountStr))) (\<lambda>account.
     handleErr E (tn_SendCoinsFromModuleToAccount E (tn_MintModuleName E) account defaultCoins)))"

definition fund_accounts ::
  "sdk_lib \<Rightarrow> ('s, 'k, 'any) testnet_env \<Rightarrow> string list \<Rightarrow> ('s, unit) eff" where
  "fund_accounts L E accounts =
     bind (handleErr E (tn_BondDenom E)) (\<lambda>bondDenom.
     bind (lift_outcome (NewCoin L bondDenom 1000000000)) (\<lambda>coin.
     bind (lift_outcome (NewCoins L [coin])) (\<lambda>defaultCoins.
     for_each (fund_account E defaultCoins) accounts)))"

definition initAppForTestnet ::
  "sdk_lib \<Rightarrow> ('s, 'k, 'any) testnet_env \<Rightarrow> 'k val_args \<Rightarrow> ('s, unit) eff" where
  "initAppForTestnet L E args =
     bind (handleErr E (lift_outcome (tn_NewAnyWithValue E (tn_PubKey_Bytes E (newValPubKey args)))))
       (\<lambda>pubkeyAny.
     let newVal = new_testnet_validator (newOperatorAddress args) pubkeyAny in
     bind (handleErr E (lift_outcome (StringToBytes (tn_ValidatorCodec E) (nv_OperatorAddress newVal))))
       (\<lambda>validator.
     bind (clear_validators E) (\<lambda>_.
     bind (add_validator E newVal validator) (\<lambda>_.
     bind (set_signing_info E args) (\<lambda>_.
     fund_accounts L E (accountsToFund args))))))"

text \<open>
  \<open>tn_newApp\<close>, which gets the options too, says whether the application made by \<^verbatim>\<open>newApp\<close> is an
  \<^verbatim>\<open>*app.App\<close>.
\<close>

definition newTestnetApp ::
  "sdk_lib \<Rightarrow> ('s, 'k, 'any) testnet_env \<Rightarrow> ('k opt_value \<Rightarrow> string) \<Rightarrow> (opt_key \<Rightarrow> 'k opt_value) \<Rightarrow>
   ('s, unit) eff" where
  "newTestnetApp L E cast_ToString appOpts =
     bind (tn_newApp E appOpts) (\<lambda>ok.
     if \<not> ok then panic (Error_text ''app created from newApp is not of type App'')
     else bind (or_panic (lift_outcome (getCommandArgs cast_ToString appOpts))) (\<lambda>args.
       initAppForTestnet L E args))"

section \<open>The old validators are removed\<close>

definition has_prefix :: "bytes \<Rightarrow> bytes \<Rightarrow> bool" where
  "has_prefix p k \<longleftrightarrow> take (length p) k = p"

text \<open>
  The staking store is a map from keys to values, seen through \<open>v\<close>. \<open>walks v p K c\<close>: the cursor \<open>c\<close>,
  moved on after each of its keys has been deleted, stands at each key of \<open>K\<close> once, in some order, when
  \<open>K\<close> are the keys with the prefix \<open>p\<close>. The code relies on it (its loops delete while they iterate);
  it holds whether the iterator follows the store or a snapshot of it.
\<close>

abbreviation keys_with :: "bytes \<Rightarrow> (bytes \<rightharpoonup> bytes) \<Rightarrow> bytes set" where
  "keys_with p w \<equiv> {k \<in> dom w. has_prefix p k}"

abbreviation without :: "bytes \<Rightarrow> (bytes \<rightharpoonup> bytes) \<Rightarrow> (bytes \<rightharpoonup> bytes)" where
  "without p w \<equiv> (\<lambda>k. if has_prefix p k then None else w k)"

inductive walks :: "('s \<Rightarrow> bytes \<rightharpoonup> bytes) \<Rightarrow> bytes \<Rightarrow> bytes set \<Rightarrow> 's cursor \<Rightarrow> bool"
  for v :: "'s \<Rightarrow> bytes \<rightharpoonup> bytes" and p :: bytes where
  walks_end: "walks v p {} Ended"
| walks_key: "key \<in> K \<Longrightarrow> (\<And>s. keys_with p (v s) = K - {key} \<Longrightarrow> walks v p (K - {key}) (follow s)) \<Longrightarrow> walks v p K (At key follow)"

definition opens :: "('s \<Rightarrow> bytes \<rightharpoonup> bytes) \<Rightarrow> bytes \<Rightarrow> ('s, 's cursor) eff \<Rightarrow> bool" where
  "opens v p m \<longleftrightarrow> (\<forall>s. finite (dom (v s)) \<longrightarrow> (\<exists>c s'. m s = (Ok c, s') \<and> v s' = v s \<and> walks v p (keys_with p (v s)) c))"

definition returns_or_errs :: "('s, 'a) eff \<Rightarrow> bool" where
  "returns_or_errs m \<longleftrightarrow> (\<forall>s. (\<exists>x. fst (m s) = Ok x) \<or> (\<exists>e. fst (m s) = Err e))"

text \<open>
  The keepers' iterators and the range from a prefix to its end yield the keys with their prefix; a
  key of the store can be deleted; closing an iterator, whose error is dropped, touches nothing.
\<close>

definition store_laws ::
  "('s, 'k, 'any) testnet_env \<Rightarrow> ('s \<Rightarrow> bytes \<rightharpoonup> bytes) \<Rightarrow> bytes \<Rightarrow> bytes \<Rightarrow> bool" where
  "store_laws E v pkey lkey \<longleftrightarrow>
     opens v pkey (tn_PowerStoreIterator E) \<and> opens v lkey (tn_LastValidatorsIterator E) \<and>
     (\<forall>p \<in> {tn_ValidatorsKey E, tn_ValidatorQueueKey E}. opens v p (tn_StoreIterator E p (tn_PrefixEndBytes E p))) \<and>
     (\<forall>k s. k \<in> dom (v s) \<longrightarrow> (\<exists>s'. tn_StoreDelete E k s = (Ok (), s') \<and> v s' = (v s)(k := None))) \<and>
     returns_or_errs (tn_CloseIterator E) \<and> leaves v (tn_CloseIterator E)"

lemma runs_handleErr: "runs v m w x w' \<Longrightarrow> runs v (handleErr E m) w x w'"
  unfolding runs_def handleErr_def by fastforce

lemma runs_dropped:
  assumes "returns_or_errs m" and "leaves v m"
  shows "runs v (discard m) w () w"
  unfolding runs_def
proof (intro allI impI)
  fix s assume w: "v s = w"
  obtain r s' where m: "m s = (r, s')" by fastforce
  then have "v s' = w" using leavesD [OF assms(2) m] w by simp
  moreover have "(\<exists>x. r = Ok x) \<or> (\<exists>e. r = Err e)"
    using assms(1) m unfolding returns_or_errs_def by (metis fst_conv)
  ultimately show "\<exists>s'. discard m s = (Ok (), s') \<and> v s' = w"
    using m by (auto simp: discard_def)
qed

lemma delete_loop_walks:
  assumes "walks v p K c"
    and "\<forall>k s. k \<in> dom (v s) \<longrightarrow> (\<exists>s'. tn_StoreDelete E k s = (Ok (), s') \<and> v s' = (v s)(k := None))"
    and "keys_with p (v s) = K"
  shows "\<exists>s'. delete_loop E c s = (Ok (), s') \<and> v s' = without p (v s)"
  using assms(1,3)
proof (induction arbitrary: s rule: walks.induct)
  case walks_end
  then show ?case by (auto simp: fun_eq_iff)
next
  case (walks_key key K nxt)
  have k: "key \<in> dom (v s)" "has_prefix p key" using walks_key.hyps(1) walks_key.prems by auto
  obtain s1 where s1: "tn_StoreDelete E key s = (Ok (), s1)" "v s1 = (v s)(key := None)"
    using assms(2) k(1) by blast
  have r: "keys_with p (v s1) = K - {key}" unfolding s1(2) using walks_key.prems by auto
  obtain s2 where "delete_loop E (nxt s1) s1 = (Ok (), s2)" "v s2 = without p (v s1)"
    using walks_key.IH [OF r r] by blast
  with s1 k(2) show ?case by (intro exI [of _ s2]) (auto simp: fun_eq_iff)
qed

lemma delete_runs:
  assumes "store_laws E v pkey lkey" and "opens v p m" and "finite (dom w)"
  shows "runs v (bind m (delete_keys E)) w () (without p w)"
    and "runs v (bind (handleErr E m) (delete_keys E)) w () (without p w)"
proof -
  have c: "runs v (discard (tn_CloseIterator E)) w () w" for w
    using assms(1) by (intro runs_dropped) (simp_all add: store_laws_def)
  have d: "\<forall>k s. k \<in> dom (v s) \<longrightarrow> (\<exists>s'. tn_StoreDelete E k s = (Ok (), s') \<and> v s' = (v s)(k := None))"
    using assms(1) unfolding store_laws_def by blast
  have "\<exists>s'. bind n (delete_keys E) s = (Ok (), s') \<and> v s' = without p w"
    if w: "v s = w" and n: "\<And>x t. m s = (Ok x, t) \<Longrightarrow> n s = (Ok x, t)" for n s
  proof -
    obtain it s1 where it: "m s = (Ok it, s1)" "v s1 = w" "walks v p (keys_with p w) it"
      using assms(2,3) w unfolding opens_def by blast
    obtain s2 where s2: "delete_loop E it s1 = (Ok (), s2)" "v s2 = without p w"
      using delete_loop_walks [OF it(3) d, of s1] it(2) by auto
    obtain s3 where "discard (tn_CloseIterator E) s2 = (Ok (), s3)" "v s3 = without p w"
      using runsD [OF c s2(2)] by blast
    with n [OF it(1)] s2(1) show ?thesis by (simp add: delete_keys_def bind_def)
  qed
  from this [of _ m] this [of _ "handleErr E m"]
  show "runs v (bind m (delete_keys E)) w () (without p w)"
    and "runs v (bind (handleErr E m) (delete_keys E)) w () (without p w)"
    by (simp_all add: runs_def handleErr_def)
qed

definition cleared ::
  "('s, 'k, 'any) testnet_env \<Rightarrow> bytes \<Rightarrow> bytes \<Rightarrow> (bytes \<rightharpoonup> bytes) \<Rightarrow> (bytes \<rightharpoonup> bytes)" where
  "cleared E pkey lkey w = (\<lambda>k. if has_prefix pkey k \<or> has_prefix lkey k \<or> has_prefix (tn_ValidatorsKey E) k
     \<or> has_prefix (tn_ValidatorQueueKey E) k then None else w k)"

lemma finite_without: "finite (dom w) \<Longrightarrow> finite (dom (without p w))"
  by (rule finite_subset [of _ "dom w"]) (auto split: if_splits)

lemma runs_clear_validators:
  assumes L: "store_laws E v pkey lkey" and "finite (dom w)"
  shows "runs v (clear_validators E) w () (cleared E pkey lkey w)"
proof -
  let ?p = "tn_PowerStoreIterator E" and ?l = "tn_LastValidatorsIterator E"
  let ?r = "\<lambda>q. tn_StoreIterator E q (tn_PrefixEndBytes E q)"
  have o: "opens v pkey ?p" "opens v lkey ?l" "opens v (tn_ValidatorsKey E) (?r (tn_ValidatorsKey E))"
    "opens v (tn_ValidatorQueueKey E) (?r (tn_ValidatorQueueKey E))"
    using L by (simp_all add: store_laws_def)
  note f1 = finite_without [OF assms(2), of pkey] note f2 = finite_without [OF f1, of lkey]
  note f3 = finite_without [OF f2, of "tn_ValidatorsKey E"]
  have "runs v (bind (bind (handleErr E ?p) (delete_keys E)) (\<lambda>_.
      bind (bind (handleErr E ?l) (delete_keys E)) (\<lambda>_.
      bind (bind (?r (tn_ValidatorsKey E)) (delete_keys E)) (\<lambda>_.
      bind (?r (tn_ValidatorQueueKey E)) (delete_keys E))))) w ()
      (without (tn_ValidatorQueueKey E) (without (tn_ValidatorsKey E) (without lkey (without pkey w))))"
    by (rule runs_bind [OF delete_runs(2) [OF L o(1) assms(2)]] runs_bind [OF delete_runs(2) [OF L o(2) f1]]
        runs_bind [OF delete_runs(1) [OF L o(3) f2]] delete_runs(1) [OF L o(4) f3])+
  moreover have "without (tn_ValidatorQueueKey E) (without (tn_ValidatorsKey E) (without lkey (without pkey w)))
      = cleared E pkey lkey w"
    by (auto simp: cleared_def fun_eq_iff)
  ultimately show ?thesis by (simp add: clear_validators_def bind_assoc)
qed

section \<open>Funding\<close>

record fund_view =
  fv_supply :: int
  fv_module :: int
  fv_balance :: "bytes \<Rightarrow> int"

definition minted :: "int \<Rightarrow> fund_view \<Rightarrow> fund_view" where
  "minted n w = w\<lparr>fv_supply := fv_supply w + n, fv_module := fv_module w + n\<rparr>"

definition paid :: "bytes \<Rightarrow> int \<Rightarrow> fund_view \<Rightarrow> fund_view" where
  "paid a n w = w\<lparr>fv_module := fv_module w - n,
     fv_balance := (fv_balance w)(a := fv_balance w a + n)\<rparr>"

text \<open>
  The bond denomination is valid and minting works; the mint module can pay any account that the bank
  does not block (its own account is blocked), and a payment to a blocked one is refused.
\<close>

definition refuses :: "('s \<Rightarrow> 'w) \<Rightarrow> ('s, 'a) eff \<Rightarrow> 'w \<Rightarrow> bool" where
  "refuses v m w \<longleftrightarrow> (\<forall>s. v s = w \<longrightarrow> (\<exists>e s'. m s = (Err e, s') \<and> v s' = w))"

definition fund_laws ::
  "sdk_lib \<Rightarrow> ('s, 'k, 'any) testnet_env \<Rightarrow> ('s \<Rightarrow> fund_view) \<Rightarrow> (bytes \<Rightarrow> bool) \<Rightarrow> string \<Rightarrow> bool" where
  "fund_laws L E v blocked d \<longleftrightarrow>
     sdk_laws L \<and> valid_denom L d \<and>
     (\<forall>w. runs v (tn_BondDenom E) w d w) \<and>
     (\<forall>n w. 0 < n \<longrightarrow>
        runs v (tn_MintCoins E (tn_MintModuleName E) [\<lparr>denom = d, amount = n\<rparr>]) w () (minted n w)) \<and>
     (\<forall>a n w. 0 < n \<and> n \<le> fv_module w \<longrightarrow>
        (let pay = tn_SendCoinsFromModuleToAccount E (tn_MintModuleName E) a [\<lparr>denom = d, amount = n\<rparr>] in
         if blocked a then refuses v pay w else runs v pay w () (paid a n w)))"

definition funded :: "bytes list \<Rightarrow> fund_view \<Rightarrow> fund_view" where
  "funded accounts w = w\<lparr>fv_supply := fv_supply w + 1000000000 * int (length accounts),
     fv_balance := (\<lambda>a. fv_balance w a + 1000000000 * int (count_list accounts a))\<rparr>"

lemma fund_step: "paid a 1000000000 (minted 1000000000 (funded as w)) = funded (as @ [a]) w"
  by (rule fund_view.equality) (auto simp: paid_def minted_def funded_def fun_eq_iff algebra_simps)

lemma runs_fund_account:
  assumes L: "fund_laws L E v blocked d" and "0 \<le> fv_module w"
    and "StringToBytes (tn_AuthCodec E) accountStr = Ok a" and "\<not> blocked a"
  shows "runs v (fund_account E [\<lparr>denom = d, amount = 1000000000\<rparr>] accountStr) w ()
    (paid a 1000000000 (minted 1000000000 w))"
proof -
  let ?c = "[\<lparr>denom = d, amount = 1000000000\<rparr>]"
  have m: "runs v (tn_MintCoins E (tn_MintModuleName E) ?c) w () (minted 1000000000 w)"
    using L unfolding fund_laws_def by (metis zero_less_numeral)
  have "(1000000000 :: int) \<le> fv_module (minted 1000000000 w)" using assms(2) by (simp add: minted_def)
  then have s: "runs v (tn_SendCoinsFromModuleToAccount E (tn_MintModuleName E) a ?c)
      (minted 1000000000 w) () (paid a 1000000000 (minted 1000000000 w))"
    using L assms(4) unfolding fund_laws_def Let_def by (metis zero_less_numeral)
  show ?thesis unfolding fund_account_def
    by (rule runs_bind [OF runs_handleErr [OF m]] runs_bind [OF runs_handleErr [OF runs_lift]]
        runs_handleErr s assms(3))+
qed

text \<open>What the loop over the accounts starts with.\<close>

lemma fund_accounts_starts:
  assumes L: "fund_laws L E v blocked d"
  obtains s1 where "v s1 = v s"
    and "\<And>accounts. fund_accounts L E accounts s = for_each (fund_account E [\<lparr>denom = d, amount = 1000000000\<rparr>]) accounts s1"
proof -
  let ?c = "\<lparr>denom = d, amount = 1000000000\<rparr>"
  have b: "runs v (tn_BondDenom E) (v s) d (v s)" using L unfolding fund_laws_def by blast
  obtain s1 where s1: "handleErr E (tn_BondDenom E) s = (Ok d, s1)" "v s1 = v s"
    using runsD [OF runs_handleErr [OF b] refl] by blast
  have "NewCoin L d 1000000000 = Ok ?c" "NewCoins L [?c] = Ok [?c]" using L by (simp_all add: fund_laws_def sdk_laws_def)
  then have "fund_accounts L E accounts s = for_each (fund_account E [?c]) accounts s1" for accounts
    by (simp add: fund_accounts_def bind_step(1) [where m = "handleErr E (tn_BondDenom E)", OF s1(1)])
  with s1(2) show thesis by (rule that)
qed

lemma runs_fund_accounts:
  assumes L: "fund_laws L E v blocked d" and "0 \<le> fv_module w"
    and "\<forall>x \<in> set accounts. StringToBytes (tn_AuthCodec E) x = Ok (A x) \<and> \<not> blocked (A x)"
  shows "runs v (fund_accounts L E accounts) w () (funded (map A accounts) w)"
proof -
  let ?c = "\<lparr>denom = d, amount = 1000000000\<rparr>"
  let ?S = "\<lambda>ys. funded (map A ys) w"
  have "runs v (for_each (fund_account E [?c]) accounts) (?S []) () (?S accounts)"
  proof (rule runs_for_each)
    fix ys x zs assume x: "accounts = ys @ x # zs"
    have "StringToBytes (tn_AuthCodec E) x = Ok (A x)" "\<not> blocked (A x)" using assms(3) x by simp_all
    moreover have "0 \<le> fv_module (?S ys)" using assms(2) by (simp add: funded_def)
    ultimately show "runs v (fund_account E [?c] x) (?S ys) () (?S (ys @ [x]))"
      using runs_fund_account [OF L, of "?S ys" x "A x"] fund_step [of "A x" "map A ys" w] by simp
  qed
  moreover have "?S [] = w" by (simp add: funded_def)
  ultimately have "runs v (for_each (fund_account E [?c]) accounts) w () (funded (map A accounts) w)" by simp
  note loop = this
  show ?thesis
    unfolding runs_def
  proof (intro allI impI)
    fix s assume "v s = w"
    obtain s1 where "v s1 = v s" "\<And>as. fund_accounts L E as s = for_each (fund_account E [?c]) as s1"
      by (rule fund_accounts_starts [where s = s, OF L]) blast
    with runsD [OF loop, of s1] \<open>v s = w\<close>
    show "\<exists>s'. fund_accounts L E accounts s = (Ok (), s') \<and> v s' = funded (map A accounts) w" by simp
  qed
qed

text \<open>The first blocked account: its coins are minted and not paid, and the process ends.\<close>

lemma fund_accounts_blocked:
  assumes L: "fund_laws L E v blocked d" and "0 \<le> fv_module (v s)"
    and "\<forall>x \<in> set xs. StringToBytes (tn_AuthCodec E) x = Ok (A x) \<and> \<not> blocked (A x)"
    and x: "StringToBytes (tn_AuthCodec E) x = Ok (A x)" "blocked (A x)" and "\<And>e. leaves v (tn_PrintErr E e)"
  shows "\<exists>s'. fund_accounts L E (xs @ x # ys) s = (Exit 1, s') \<and> v s' = minted 1000000000 (funded (map A xs) (v s))"
proof -
  let ?c = "[\<lparr>denom = d, amount = 1000000000\<rparr>]" and ?w = "funded (map A xs) (v s)"
  obtain s1 where s1: "v s1 = v s" "\<And>as. fund_accounts L E as s = for_each (fund_account E ?c) as s1"
    by (rule fund_accounts_starts [where s = s, OF L]) blast
  obtain s2 where s2: "for_each (fund_account E ?c) xs s1 = (Ok (), s2)" "v s2 = ?w"
    using runsD [OF runs_fund_accounts [OF L assms(2,3)] refl] s1(2) by metis
  have "runs v (tn_MintCoins E (tn_MintModuleName E) ?c) ?w () (minted 1000000000 ?w)"
    using L unfolding fund_laws_def by (metis zero_less_numeral)
  from runs_handleErr [OF this] obtain s3 where s3: "handleErr E (tn_MintCoins E (tn_MintModuleName E) ?c) s2 = (Ok (), s3)" "v s3 = minted 1000000000 ?w"
    using s2(2) unfolding runs_def by blast
  have "1000000000 \<le> fv_module (minted 1000000000 ?w)" using assms(2) by (simp add: minted_def funded_def)
  then have "refuses v (tn_SendCoinsFromModuleToAccount E (tn_MintModuleName E) (A x) ?c) (minted 1000000000 ?w)"
    using L x(2) unfolding fund_laws_def Let_def by (metis zero_less_numeral)
  then obtain e s4 where s4: "tn_SendCoinsFromModuleToAccount E (tn_MintModuleName E) (A x) ?c s3 = (Err e, s4)"
    "v s4 = minted 1000000000 ?w"
    using s3(2) unfolding refuses_def by blast
  have "v (snd (tn_PrintErr E e s4)) = minted 1000000000 ?w"
    using assms(6) s4(2) by (simp add: leaves_def)
  moreover have "fund_account E ?c x s2 = (Exit 1, snd (tn_PrintErr E e s4))"
    unfolding fund_account_def bind_step(1) [where m = "handleErr E (tn_MintCoins E (tn_MintModuleName E) ?c)", OF s3(1)]
    by (simp add: x(1) handleErr_def bind_def s4(1))
  moreover have "for_each (fund_account E ?c) (xs @ x # ys) s1 = for_each (fund_account E ?c) (x # ys) s2"
    using s2(1) by (simp add: for_each_append bind_step(1) [where m = "for_each (fund_account E ?c) xs"])
  ultimately show ?thesis unfolding s1(2) by (simp add: bind_def)
qed

lemma bind_not_ok: "(\<And>x s. \<not> is_ok (fst (f x s))) \<Longrightarrow> \<not> is_ok (fst (bind m f s))"
  by (auto simp: bind_def split: prod.splits outcome.splits)

lemma getCommandArgs_eq_Ok:
  "getCommandArgs cast appOpts = Ok a \<longleftrightarrow>
     appOpts KeyNewValAddr = Opt_hex (newValAddr a) \<and>
     appOpts KeyUserPubKey = Opt_pubkey (newValPubKey a) \<and>
     appOpts KeyNewOpAddr = Opt_string (newOperatorAddress a) \<and>
     appOpts KeyTriggerTestnetUpgrade = Opt_string (upgradeToTrigger a) \<and>
     cast (appOpts FlagHome) = homeDir a \<and> homeDir a \<noteq> '''' \<and>
     strings_Join (accountsToFund a) (CHR '','') = cast (appOpts AccountsToFund) \<and>
     accountsToFund a = strings_Split (cast (appOpts AccountsToFund)) (CHR '','')"
  by (cases "appOpts KeyNewValAddr"; cases "appOpts KeyUserPubKey"; cases "appOpts KeyNewOpAddr";
      cases "appOpts KeyTriggerTestnetUpgrade"; cases a)
    (auto simp: getCommandArgs_def Let_def Join_Split)

section \<open>Concrete stores\<close>

text \<open>Keepers that do nothing, with the codec of the examples, then two stores built from them.\<close>

definition idle_testnet :: "('s, unit, unit) testnet_env" where
  "idle_testnet = \<lparr>tn_newApp = (\<lambda>opts. ret True), tn_PubKey_Bytes = (\<lambda>_. []), tn_NewAnyWithValue = (\<lambda>_. Ok ()),
     tn_ValidatorCodec = sample_codec, tn_AuthCodec = sample_codec,
     tn_PowerStoreIterator = ret Ended, tn_LastValidatorsIterator = ret Ended,
     tn_ValidatorsKey = [0x21], tn_ValidatorQueueKey = [0x43], tn_PrefixEndBytes = (\<lambda>p. p @ [0xff]),
     tn_StoreIterator = (\<lambda>_ _. ret Ended), tn_CloseIterator = raise (Error_text ''dropped''), tn_StoreDelete = (\<lambda>_. ret ()),
     tn_SetValidator = (\<lambda>_. ret ()), tn_SetValidatorByConsAddr = (\<lambda>_. ret ()),
     tn_SetValidatorByPowerIndex = (\<lambda>_. ret ()), tn_SetLastValidatorPower = (\<lambda>_ _. ret ()),
     tn_AfterValidatorCreated = (\<lambda>_. ret ()),
     tn_SetValidatorHistoricalRewards = (\<lambda>_ _ _. ret ()), tn_SetValidatorCurrentRewards = (\<lambda>_ _. ret ()),
     tn_SetValidatorAccumulatedCommission = (\<lambda>_. ret ()),
     tn_SetValidatorOutstandingRewards = (\<lambda>_. ret ()),
     tn_LastBlockHeight = 100, tn_ConsAddress_String = (\<lambda>_. ''''),
     tn_SetValidatorSigningInfo = (\<lambda>_ _. ret ()), tn_BondDenom = ret ''ubps'',
     tn_MintModuleName = ''mint'', tn_MintCoins = (\<lambda>_ _. ret ()),
     tn_SendCoinsFromModuleToAccount = (\<lambda>_ _ _. ret ()), tn_PrintErr = (\<lambda>_. ret ())\<rparr>"

text \<open>A store as a list of entries, and the iterator that follows it: the first entry with the prefix is next.\<close>

type_synonym entries = "(bytes \<times> bytes) list"

primrec first_key :: "bytes \<Rightarrow> nat \<Rightarrow> entries \<Rightarrow> entries cursor" where
  "first_key p 0 w = Ended"
| "first_key p (Suc n) w = (case find (\<lambda>(k, x). has_prefix p k) w of
     None \<Rightarrow> Ended | Some (k, x) \<Rightarrow> At k (first_key p n))"

definition open_at :: "bytes \<Rightarrow> (entries, entries cursor) eff" where
  "open_at p = (\<lambda>w. (Ok (first_key p (length w) w), w))"

definition key_store :: "(entries, unit, unit) testnet_env" where
  "key_store = idle_testnet\<lparr>
     tn_PowerStoreIterator := open_at [0x23], tn_LastValidatorsIterator := open_at [0x11],
     tn_StoreIterator := (\<lambda>p e. open_at p),
     tn_StoreDelete := (\<lambda>k w. (Ok (), filter (\<lambda>(k', x). k' \<noteq> k) w))\<rparr>"

lemma first_key_walks:
  "card (keys_with p (map_of w)) \<le> n \<Longrightarrow> walks map_of p (keys_with p (map_of w)) (first_key p n w)"
proof (induction n arbitrary: w)
  case 0
  have "finite (keys_with p (map_of w))" by (simp add: finite_dom_map_of)
  with 0 have "keys_with p (map_of w) = {}" by simp
  then show ?case using walks_end [of map_of p] by (simp only: first_key.simps)
next
  case (Suc n)
  show ?case
  proof (cases "find (\<lambda>(k, x). has_prefix p k) w")
    case None
    then have "keys_with p (map_of w) = {}" by (auto simp: find_None_iff dom_map_of_conv_image_fst)
    with walks_end [of map_of p] have "walks map_of p (keys_with p (map_of w)) Ended" by metis
    then show ?thesis using None by simp
  next
    case (Some e)
    obtain k x where e: "e = (k, x)" by (cases e)
    then have k: "k \<in> keys_with p (map_of w)"
      using Some by (auto simp: find_Some_iff dom_map_of_conv_image_fst) (metis fst_conv imageI nth_mem)
    have c: "card (keys_with p (map_of w) - {k}) \<le> n" using Suc.prems k by simp
    have "walks map_of p (keys_with p (map_of w) - {k}) (first_key p n w')"
      if "keys_with p (map_of w') = keys_with p (map_of w) - {k}" for w'
      using Suc.IH [of w'] c unfolding that by blast
    then show ?thesis using Some e walks_key [where v = map_of and p = p and follow = "first_key p n", OF k] by simp
  qed
qed

lemma open_at_opens: "opens map_of p (open_at p)"
proof -
  have "card (keys_with p (map_of w)) \<le> length w" for w
  proof -
    have "card (keys_with p (map_of w)) \<le> card (dom (map_of w))"
      by (intro card_mono) (auto simp: finite_dom_map_of)
    also have "\<dots> \<le> length w" by (simp add: dom_map_of_conv_image_fst) (metis card_image_le card_length le_trans finite_set length_map set_map)
    finally show ?thesis .
  qed
  then show ?thesis by (auto simp: opens_def open_at_def intro: first_key_walks)
qed

lemma map_of_filter_key: "map_of (filter (\<lambda>(k', x). k' \<noteq> k) w) = (map_of w)(k := None)"
  by (induction w) (auto simp: fun_eq_iff)

definition fund_store :: "(fund_view, unit, unit) testnet_env" where
  "fund_store = idle_testnet\<lparr>
     tn_MintCoins := (\<lambda>m cs s. (Ok (), minted (sum_list (map amount cs)) s)),
     tn_SendCoinsFromModuleToAccount := (\<lambda>m a cs s.
       if a = bytes_of_string ''mint'' then (Err (Error_text ''unauthorized''), s)
       else if sum_list (map amount cs) \<le> fv_module s then (Ok (), paid a (sum_list (map amount cs)) s)
       else (Err (Error_text ''insufficient funds''), s))\<rparr>"

lemma key_store_laws: "store_laws key_store map_of [0x23] [0x11]"
  by (simp add: store_laws_def key_store_def idle_testnet_def open_at_opens map_of_filter_key returns_or_errs_def leaves_def
      raise_def)

abbreviation mint_account :: "bytes \<Rightarrow> bool" where
  "mint_account a \<equiv> a = bytes_of_string ''mint''"

lemma fund_store_laws: "fund_laws sample_lib fund_store (\<lambda>s. s) mint_account ''ubps''"
  using sample_lib_laws
  by (simp add: fund_laws_def fund_store_def idle_testnet_def runs_def refuses_def sdk_laws_def MintHardCapDenom_def)

section \<open>Properties\<close>

text \<open>
  The testnet command removes every old validator from the staking store: after the four
  loops exactly those entries are left that belong to none of the power index, the last validators,
  the validators and the unbonding queue.
\<close>

theorem old_validators_removed:
  assumes "store_laws E v pkey lkey" and "finite (dom (v s))"
  shows "\<exists>s'. clear_validators E s = (Ok (), s')
    \<and> v s' = (\<lambda>k. if has_prefix pkey k \<or> has_prefix lkey k \<or> has_prefix (tn_ValidatorsKey E) k
        \<or> has_prefix (tn_ValidatorQueueKey E) k then None else v s k)"
  using runsD [OF runs_clear_validators [OF assms] refl] unfolding cleared_def .

theorem old_validators_removed_witness:
  "\<exists>s'. clear_validators key_store [([0x11, 1], [1]), ([0x23, 9, 1], [2]), ([0x21, 1], [3]), ([0x43], [4]), ([0x31, 1], [5])]
      = (Ok (), s')
    \<and> map_of s' [0x31, 1] = Some [5] \<and> map_of s' [0x23, 9, 1] = None"
  using old_validators_removed [OF key_store_laws finite_dom_map_of,
      of "[([0x11, 1], [1]), ([0x23, 9, 1], [2]), ([0x21, 1], [3]), ([0x43], [4]), ([0x31, 1], [5])]"]
  by (auto simp: has_prefix_def key_store_def idle_testnet_def)

text \<open>
  The arguments of the command: they are accepted exactly when the four typed options have
  their types and the home directory is not empty, the fields are the options, and the accounts
  to fund are the comma-separated parts of the flag.
\<close>

theorem getCommandArgs_accepts:
  "getCommandArgs cast appOpts = Ok a \<longleftrightarrow>
     appOpts KeyNewValAddr = Opt_hex (newValAddr a) \<and>
     appOpts KeyUserPubKey = Opt_pubkey (newValPubKey a) \<and>
     appOpts KeyNewOpAddr = Opt_string (newOperatorAddress a) \<and>
     appOpts KeyTriggerTestnetUpgrade = Opt_string (upgradeToTrigger a) \<and>
     cast (appOpts FlagHome) = homeDir a \<and> homeDir a \<noteq> '''' \<and>
     strings_Join (accountsToFund a) (CHR '','') = cast (appOpts AccountsToFund) \<and>
     accountsToFund a = strings_Split (cast (appOpts AccountsToFund)) (CHR '','')"
  by (rule getCommandArgs_eq_Ok)



text \<open>
  C35: With the default, empty \<^verbatim>\<open>--accounts-to-fund\<close> the command never comes up: the split of the
  empty text is one empty address, which does not decode, so the initialisation does not return
  normally; on working keepers the funding ends the process with code 1.
\<close>

theorem empty_accounts_flag_ends_process:
  assumes "getCommandArgs cast appOpts = Ok args" and "cast (appOpts AccountsToFund) = ''''"
    and "StringToBytes (tn_AuthCodec E) '''' = Err e"
  shows "\<not> is_ok (fst (initAppForTestnet L E args s))
    \<and> (fund_laws L E v blocked d \<longrightarrow> (\<exists>s'. fund_accounts L E (accountsToFund args) s = (Exit 1, s')))"
proof -
  have a: "accountsToFund args = ['''']"
    using assms(1,2) by (auto simp: getCommandArgs_eq_Ok)
  have f: "\<not> is_ok (fst (fund_account E cs '''' s))" for cs s
    unfolding fund_account_def by (rule bind_not_ok) (simp add: handleErr_def bind_def assms(3))
  have "\<not> is_ok (fst (for_each (fund_account E cs) [''''] s))" for cs s
    using f [of cs s] by (cases "fund_account E cs '''' s"; cases "fst (fund_account E cs '''' s)")
      (simp_all add: bind_def)
  then have "\<not> is_ok (fst (initAppForTestnet L E args s))"
    unfolding initAppForTestnet_def fund_accounts_def a Let_def by (intro bind_not_ok)
  moreover have "\<exists>s'. fund_accounts L E [''''] s = (Exit 1, s')" if "fund_laws L E v blocked d"
  proof -
    let ?c = "\<lparr>denom = d, amount = 1000000000\<rparr>"
    note F = that [unfolded fund_laws_def]
    have c: "NewCoin L d 1000000000 = Ok ?c" "NewCoins L [?c] = Ok [?c]"
      using F by (simp_all add: sdk_laws_def)
    obtain s1 where s1: "tn_BondDenom E s = (Ok d, s1)" using F unfolding runs_def by blast
    have "runs v (tn_MintCoins E (tn_MintModuleName E) [?c]) (v s1) () (minted 1000000000 (v s1))"
      using F by simp
    then obtain s2 where s2: "tn_MintCoins E (tn_MintModuleName E) [?c] s1 = (Ok (), s2)"
      unfolding runs_def by blast
    show ?thesis
      by (simp add: fund_accounts_def fund_account_def handleErr_def bind_def s1 s2 c assms(3))
  qed
  ultimately show ?thesis by (simp add: a)
qed

definition default_options :: "opt_key \<Rightarrow> unit opt_value" where
  "default_options k = (case k of
     KeyNewValAddr \<Rightarrow> Opt_hex [1, 2] | KeyUserPubKey \<Rightarrow> Opt_pubkey () | KeyNewOpAddr \<Rightarrow> Opt_string ''valoper''
   | KeyTriggerTestnetUpgrade \<Rightarrow> Opt_string '''' | AccountsToFund \<Rightarrow> Opt_string ''''
   | FlagHome \<Rightarrow> Opt_string ''/home/bps'')"

definition to_text :: "'k opt_value \<Rightarrow> string" where
  "to_text x = (case as_string x of Some s \<Rightarrow> s | None \<Rightarrow> '''')"

theorem empty_accounts_flag_ends_process_witness:
  "\<exists>args s'. getCommandArgs to_text default_options = Ok args
    \<and> fund_accounts sample_lib fund_store (accountsToFund args)
        \<lparr>fv_supply = 5, fv_module = 0, fv_balance = (\<lambda>a. 1)\<rparr> = (Exit 1, s')"
proof -
  let ?args = "\<lparr>newValAddr = [1, 2], newOperatorAddress = ''valoper'', newValPubKey = (),
      accountsToFund = [''''], upgradeToTrigger = '''', homeDir = ''/home/bps''\<rparr>"
  have a: "getCommandArgs to_text default_options = Ok ?args"
    by (simp add: getCommandArgs_def default_options_def to_text_def)
  have t: "to_text (default_options AccountsToFund) = ''''" by (simp add: default_options_def to_text_def)
  have "\<exists>e. StringToBytes (tn_AuthCodec fund_store) '''' = Err e"
    by (simp add: fund_store_def idle_testnet_def sample_codec_def)
  then obtain e where "StringToBytes (tn_AuthCodec fund_store) '''' = Err e" ..
  from empty_accounts_flag_ends_process [OF a t this, where v = "\<lambda>s. s" and L = sample_lib and d = "''ubps''"]
  show ?thesis using a fund_store_laws by blast
qed


text \<open>A \<^verbatim>\<open>newApp\<close> that reads the home directory.\<close>

definition home_store :: "(fund_view, unit, unit) testnet_env" where
  "home_store = fund_store\<lparr>tn_newApp := \<lambda>opts s. (if as_string (opts FlagHome) = None then Panic (Error_text ''home'') else Ok True, s)\<rparr>"


end
