(* ===== verification/Paths.thy ===== *)
theory Paths
  imports Go_Std
begin

text \<open>
  What the testnet command uses of Go's \<^verbatim>\<open>path/filepath\<close> on Unix (\<^verbatim>\<open>Clean\<close>, \<^verbatim>\<open>Join\<close>, \<^verbatim>\<open>Base\<close>,
  \<^verbatim>\<open>IsAbs\<close>, \<^verbatim>\<open>Abs\<close>, \<^verbatim>\<open>Rel\<close>), on the list of a path's components, and \<^verbatim>\<open>isSubDir\<close> of
  \<^verbatim>\<open>cmd/bpsd/cmd/testnet_multi_node.go\<close>.
\<close>

section \<open>The library\<close>

definition sep :: char where "sep = CHR ''/''"

definition IsAbs :: "string \<Rightarrow> bool" where
  "IsAbs path = strings_HasPrefix path [sep]"

definition components :: "string \<Rightarrow> string list" where
  "components path = filter (\<lambda>c. c \<noteq> '''') (strings_Split path sep)"

text \<open>The stack holds the components read so far, the last one first.\<close>

definition clean_step :: "bool \<Rightarrow> string list \<Rightarrow> string \<Rightarrow> string list" where
  "clean_step rooted stack c =
     (if c = ''.'' then stack
      else if c = ''..'' then
        (case stack of
           d # ds \<Rightarrow> if d = ''..'' then ''..'' # stack else ds
         | [] \<Rightarrow> if rooted then [] else [''..''])
      else c # stack)"

definition clean_components :: "bool \<Rightarrow> string list \<Rightarrow> string list" where
  "clean_components rooted cs = rev (foldl (clean_step rooted) [] cs)"

definition path_of :: "bool \<Rightarrow> string list \<Rightarrow> string" where
  "path_of rooted cs =
     (if rooted then sep # strings_Join cs sep
      else if cs = [] then ''.'' else strings_Join cs sep)"

definition Clean :: "string \<Rightarrow> string" where
  "Clean path = path_of (IsAbs path) (clean_components (IsAbs path) (components path))"

definition filepath_Join :: "string list \<Rightarrow> string" where
  "filepath_Join elems =
     (case dropWhile (\<lambda>e. e = '''') elems of [] \<Rightarrow> '''' | es \<Rightarrow> Clean (strings_Join es sep))"

definition filepath_Base :: "string \<Rightarrow> string" where
  "filepath_Base path =
     (if path = '''' then ''.''
      else case rev (components path) of c # _ \<Rightarrow> c | [] \<Rightarrow> [sep])"

text \<open>\<open>Getwd\<close> may fail; a relative path is joined to the working directory.\<close>

definition filepath_Abs :: "string outcome \<Rightarrow> string \<Rightarrow> string outcome" where
  "filepath_Abs Getwd path =
     (if IsAbs path then Ok (Clean path)
      else obind Getwd (\<lambda>wd. Ok (filepath_Join [wd, path])))"

fun strip_common :: "string list \<Rightarrow> string list \<Rightarrow> string list \<times> string list" where
  "strip_common (b # bs) (t # ts) = (if b = t then strip_common bs ts else (b # bs, t # ts))"
| "strip_common bs ts = (bs, ts)"

definition filepath_Rel :: "string \<Rightarrow> string \<Rightarrow> string outcome" where
  "filepath_Rel basepath targpath =
     (let failure = Error_text (''Rel: can't make '' @ targpath @ '' relative to '' @ basepath);
          base = clean_components (IsAbs basepath) (components basepath);
          targ = clean_components (IsAbs targpath) (components targpath) in
      if IsAbs basepath \<noteq> IsAbs targpath then Err failure
      else if base = targ then Ok ''.''
      else case strip_common base targ of
        ([], ts) \<Rightarrow> Ok (strings_Join ts sep)
      | (b # bs, ts) \<Rightarrow>
          if b = ''..'' then Err failure
          else Ok (strings_Join (map (\<lambda>_. ''..'') (b # bs) @ ts) sep))"

section \<open>isSubDir\<close>

definition isSubDir :: "string outcome \<Rightarrow> string \<Rightarrow> string \<Rightarrow> bool outcome" where
  "isSubDir Getwd src dstDir =
     obind (filepath_Abs Getwd src) (\<lambda>absSrc.
     obind (filepath_Abs Getwd dstDir) (\<lambda>absDstDir.
     obind (filepath_Rel absDstDir absSrc) (\<lambda>relativePath.
     Ok (\<not> strings_HasPrefix relativePath ''..'' \<and> \<not> IsAbs relativePath))))"

section \<open>Paths as component lists\<close>

definition plain :: "string list \<Rightarrow> bool" where
  "plain cs \<longleftrightarrow> (\<forall>c \<in> set cs. c \<noteq> '''' \<and> sep \<notin> set c \<and> c \<noteq> ''.'' \<and> c \<noteq> ''..'')"

lemma Split_no_sep: "c \<in> set (strings_Split p s) \<Longrightarrow> s \<notin> set c"
proof (induction p s arbitrary: c rule: strings_Split.induct)
  case (2 d ds s)
  show ?case
  proof (cases "d = s")
    case True
    with 2 show ?thesis by auto
  next
    case False
    with 2 show ?thesis by (cases "strings_Split ds s") auto
  qed
qed simp

lemma components_chars: "c \<in> set (components p) \<Longrightarrow> c \<noteq> '''' \<and> sep \<notin> set c"
  by (auto simp: components_def dest: Split_no_sep)

lemma components_path_of:
  assumes "plain cs"
  shows "components (path_of True cs) = cs"
proof (cases "cs = []")
  case True
  then show ?thesis by (simp add: components_def path_of_def)
next
  case False
  have "strings_Split (strings_Join cs sep) sep = cs"
    using assms False by (intro Split_Join) (auto simp: plain_def)
  moreover have "filter (\<lambda>c. c \<noteq> '''') cs = cs"
    using assms by (auto simp: plain_def filter_id_conv)
  ultimately show ?thesis by (simp add: components_def path_of_def)
qed

lemma IsAbs_path_of [simp]: "IsAbs (path_of True cs)"
  by (simp add: IsAbs_def path_of_def)

lemma foldl_clean_plain: "plain cs \<Longrightarrow> foldl (clean_step r) st cs = rev cs @ st"
  by (induction cs arbitrary: st) (auto simp: plain_def clean_step_def)

lemma clean_components_plain: "plain cs \<Longrightarrow> clean_components r cs = cs"
  by (simp add: clean_components_def foldl_clean_plain)

lemma foldl_clean_rooted:
  "plain st \<Longrightarrow> \<forall>c \<in> set cs. c \<noteq> '''' \<and> sep \<notin> set c \<Longrightarrow> plain (foldl (clean_step True) st cs)"
proof (induction cs arbitrary: st)
  case (Cons c cs)
  have "plain (clean_step True st c)"
    using Cons.prems by (cases st) (auto simp: clean_step_def plain_def)
  with Cons show ?case by simp
qed simp

lemma plain_clean: "plain (clean_components True (components p))"
proof -
  have "plain (foldl (clean_step True) [] (components p))"
    by (rule foldl_clean_rooted) (auto simp: plain_def dest: components_chars)
  then show ?thesis by (simp add: clean_components_def plain_def)
qed

lemma Clean_idem_abs:
  "IsAbs p \<Longrightarrow> Clean p = path_of True (clean_components True (components p))"
  by (simp add: Clean_def)

text \<open>Cleaning an absolute path twice is cleaning it once.\<close>

lemma clean_of_clean:
  "clean_components True (components (path_of True (clean_components True (components p))))
    = clean_components True (components p)"
  by (simp add: components_path_of plain_clean clean_components_plain)

lemma HasPrefix_Join:
  assumes "t \<noteq> ''''" and "sep \<notin> set t"
  shows "strings_HasPrefix (strings_Join (t # ts) sep) ''..'' \<longleftrightarrow> strings_HasPrefix t ''..''"
    and "\<not> IsAbs (strings_Join (t # ts) sep)"
proof -
  obtain a as where t: "t = a # as" using assms(1) by (cases t) auto
  show "strings_HasPrefix (strings_Join (t # ts) sep) ''..'' \<longleftrightarrow> strings_HasPrefix t ''..''"
    using assms(2) t by (cases ts; cases as) (auto simp: sep_def)
  show "\<not> IsAbs (strings_Join (t # ts) sep)"
    using assms(2) t by (cases ts) (auto simp: IsAbs_def)
qed

lemma strip_common_prefix: "strip_common bs (bs @ ts) = ([], ts)"
  by (induction bs) auto

lemma strip_common_spec:
  "strip_common bs ts = (bs', ts') \<Longrightarrow> \<exists>cs. bs = cs @ bs' \<and> ts = cs @ ts'"
proof (induction bs ts rule: strip_common.induct)
  case (1 b bs t ts)
  show ?case
  proof (cases "b = t")
    case True
    with 1 obtain cs where "bs = cs @ bs'" "ts = cs @ ts'" by auto
    with True show ?thesis by (intro exI [of _ "b # cs"]) simp
  qed (use 1 in simp)
qed auto

text \<open>\<open>src\<close> is \<open>dst\<close> or below it, and its first component there does not begin with two dots.\<close>

definition is_below :: "string list \<Rightarrow> string list \<Rightarrow> bool" where
  "is_below dst src \<longleftrightarrow>
     take (length dst) src = dst \<and>
     (case drop (length dst) src of [] \<Rightarrow> True | c # _ \<Rightarrow> \<not> strings_HasPrefix c ''..'')"

lemma strip_common_longer: "strip_common bs ts = (b # bs', ts') \<Longrightarrow> take (length bs) ts \<noteq> bs"
  by (induction bs ts rule: strip_common.induct) (auto split: if_splits)

lemma relative_inside:
  assumes "plain b" and "plain t"
  shows "\<exists>r. filepath_Rel (path_of True b) (path_of True t) = Ok r
    \<and> (\<not> strings_HasPrefix r ''..'' \<and> \<not> IsAbs r) = is_below b t"
proof -
  have c: "clean_components True (components (path_of True b)) = b"
    "clean_components True (components (path_of True t)) = t"
    using assms by (simp_all add: components_path_of clean_components_plain)
  show ?thesis
  proof (cases "b = t")
    case True
    then show ?thesis using c by (simp add: filepath_Rel_def is_below_def IsAbs_def sep_def)
  next
    case False
    obtain b' t' where s: "strip_common b t = (b', t')" by fastforce
    then obtain cs where cs: "b = cs @ b'" "t = cs @ t'" using strip_common_spec by blast
    show ?thesis
    proof (cases b')
      case Nil
      with cs False obtain x xs where t': "t' = x # xs" by (cases t') auto
      have "x \<noteq> ''''" "sep \<notin> set x" using assms(2) cs t' by (auto simp: plain_def)
      from HasPrefix_Join [OF this, of xs] show ?thesis
        using c False s Nil cs t' by (simp add: filepath_Rel_def is_below_def Let_def)
    next
      case (Cons x xs)
      have "x \<noteq> ''..''" using assms(1) cs Cons by (auto simp: plain_def)
      moreover have "strings_HasPrefix (strings_Join (''..'' # map (\<lambda>_. ''..'') xs @ t') sep) ''..''"
        by (subst HasPrefix_Join(1)) (simp_all add: sep_def)
      moreover have "\<not> is_below b t"
        using strip_common_longer [of b t x xs t'] s Cons by (simp add: is_below_def)
      ultimately show ?thesis using c False s Cons by (simp add: filepath_Rel_def Let_def)
    qed
  qed
qed

text \<open>The components of a path seen from the working directory.\<close>

definition resolve :: "string \<Rightarrow> string \<Rightarrow> string list" where
  "resolve wd p = clean_components True (components (if IsAbs p then p else wd @ sep # p))"

lemma Abs_resolve:
  assumes "IsAbs wd"
  shows "filepath_Abs (Ok wd) p = Ok (path_of True (resolve wd p))"
proof (cases "IsAbs p")
  case True
  then show ?thesis by (simp add: filepath_Abs_def resolve_def Clean_idem_abs)
next
  case False
  have "wd \<noteq> ''''" and "IsAbs (wd @ sep # p)" using assms by (cases wd; simp add: IsAbs_def)+
  then show ?thesis using False
    by (simp add: filepath_Abs_def filepath_Join_def resolve_def Clean_idem_abs)
qed

lemma isSubDir_components:
  assumes "IsAbs wd"
  shows "isSubDir (Ok wd) src dstDir = Ok (is_below (resolve wd dstDir) (resolve wd src))"
proof -
  have p: "plain (resolve wd q)" for q by (simp add: resolve_def plain_clean)
  obtain r where "filepath_Rel (path_of True (resolve wd dstDir)) (path_of True (resolve wd src)) = Ok r"
    "(\<not> strings_HasPrefix r ''..'' \<and> \<not> IsAbs r) = is_below (resolve wd dstDir) (resolve wd src)"
    using relative_inside [OF p p] by blast
  then show ?thesis by (simp add: isSubDir_def Abs_resolve [OF assms])
qed

section \<open>Canonical component lists\<close>

text \<open>What cleaning leaves: two-dot components first, if the path is relative, then plain ones.\<close>

definition canonical :: "bool \<Rightarrow> string list \<Rightarrow> bool" where
  "canonical r cs \<longleftrightarrow> (\<exists>k ps. cs = replicate k ''..'' @ ps \<and> plain ps \<and> (r \<longrightarrow> k = 0))"

lemma plain_append [simp]: "plain (xs @ ys) \<longleftrightarrow> plain xs \<and> plain ys"
  by (auto simp: plain_def)

lemma plain_Nil [simp]: "plain []"
  by (simp add: plain_def)

lemma canonical_append: "canonical r cs \<Longrightarrow> plain ds \<Longrightarrow> canonical r (cs @ ds)"
  unfolding canonical_def by (metis append.assoc plain_append)

lemma canonical_butlast: "canonical r (cs @ ds) \<Longrightarrow> canonical r cs"
proof (induction ds rule: rev_induct)
  case (snoc d ds)
  obtain k ps where k: "(cs @ ds) @ [d] = replicate k ''..'' @ ps" "plain ps" "r \<longrightarrow> k = 0"
    using snoc.prems unfolding canonical_def by auto
  have "canonical r (cs @ ds)"
  proof (cases ps rule: rev_exhaust)
    case Nil
    with k obtain j where "k = Suc j" by (cases k) auto
    with k Nil have "cs @ ds = replicate j ''..'' @ []" "r \<longrightarrow> j = 0"
      by (auto simp: replicate_append_same [symmetric])
    then show ?thesis unfolding canonical_def by (metis plain_Nil)
  next
    case (snoc qs q)
    with k have "cs @ ds = replicate k ''..'' @ qs" "plain qs" by auto
    with k(3) show ?thesis unfolding canonical_def by blast
  qed
  then show ?case by (rule snoc.IH)
qed simp

lemma canonical_step:
  assumes "canonical r (rev st)" and "c \<noteq> ''''" and "sep \<notin> set c"
  shows "canonical r (rev (clean_step r st c))"
proof -
  obtain k ps where k: "rev st = replicate k ''..'' @ ps" "plain ps" "r \<longrightarrow> k = 0"
    using assms(1) unfolding canonical_def by auto
  consider (dot) "c = ''.''" | (dots) "c = ''..''" | (name) "c \<noteq> ''.''" "c \<noteq> ''..''" by blast
  then show ?thesis
  proof cases
    case dot
    with assms(1) show ?thesis by (simp add: clean_step_def)
  next
    case dots
    show ?thesis
    proof (cases ps rule: rev_exhaust)
      case Nil
      with k(1) have "st = replicate k ''..''" by (metis append_Nil2 rev_replicate rev_rev_ident)
      then have "rev (clean_step r st c) = (if r then [] else replicate (Suc k) ''..'')"
        using k(3) dots by (cases k) (auto simp: clean_step_def replicate_append_same)
      then show ?thesis unfolding canonical_def by (metis append_Nil append_Nil2 plain_Nil replicate_0)
    next
      case (snoc qs q)
      then have "st = q # rev qs @ replicate k ''..''" "q \<noteq> ''..''" "plain qs"
        using k by (auto simp: plain_def rev_swap)
      then have "rev (clean_step r st c) = replicate k ''..'' @ qs" using dots by (simp add: clean_step_def)
      with k(3) \<open>plain qs\<close> show ?thesis unfolding canonical_def by blast
    qed
  next
    case name
    then have "rev (clean_step r st c) = rev st @ [c]" by (simp add: clean_step_def)
    moreover have "plain [c]" using name assms(2,3) by (simp add: plain_def)
    ultimately show ?thesis using assms(1) canonical_append by metis
  qed
qed

lemma canonical_foldl:
  "canonical r (rev st) \<Longrightarrow> \<forall>c \<in> set cs. c \<noteq> '''' \<and> sep \<notin> set c \<Longrightarrow>
   canonical r (rev (foldl (clean_step r) st cs))"
  by (induction cs arbitrary: st) (simp_all add: canonical_step)

lemma canonical_clean: "canonical r (clean_components r (components p))"
  unfolding clean_components_def
  by (rule canonical_foldl) (auto simp: canonical_def dest: components_chars intro: exI [of _ 0])

lemma foldl_dots: "\<not> r \<Longrightarrow> foldl (clean_step r) (replicate j ''..'') (replicate k ''..'') = replicate (k + j) ''..''"
proof (induction k arbitrary: j)
  case (Suc k)
  have "clean_step r (replicate j ''..'') ''..'' = replicate (Suc j) ''..''"
    using Suc.prems by (cases j) (auto simp: clean_step_def)
  with Suc.IH [of "Suc j"] Suc.prems show ?case by simp
qed simp

lemma clean_canonical: "canonical r cs \<Longrightarrow> clean_components r cs = cs"
proof -
  assume "canonical r cs"
  then obtain k ps where k: "cs = replicate k ''..'' @ ps" "plain ps" "r \<longrightarrow> k = 0"
    unfolding canonical_def by auto
  have "foldl (clean_step r) [] (replicate k ''..'') = replicate k ''..''"
    using foldl_dots [of r 0 k] k(3) by (cases r) auto
  then show ?thesis by (simp add: clean_components_def k(1) foldl_clean_plain [OF k(2)])
qed

lemma canonical_chars: "canonical r cs \<Longrightarrow> c \<in> set cs \<Longrightarrow> c \<noteq> '''' \<and> sep \<notin> set c"
proof -
  assume "canonical r cs" and c: "c \<in> set cs"
  then obtain k ps where "cs = replicate k ''..'' @ ps" "plain ps" unfolding canonical_def by blast
  with c have "c = ''..'' \<or> c \<in> set ps" by (simp split: if_splits) blast
  moreover have "c \<in> set ps \<Longrightarrow> ?thesis" using \<open>plain ps\<close> by (simp add: plain_def)
  ultimately show ?thesis by (elim disjE) (simp_all add: sep_def)
qed

lemma components_Join:
  assumes "\<forall>c \<in> set cs. c \<noteq> '''' \<and> sep \<notin> set c"
  shows "components (strings_Join cs sep) = cs"
proof (cases "cs = []")
  case False
  with assms have "strings_Split (strings_Join cs sep) sep = cs" by (intro Split_Join) auto
  moreover have "filter (\<lambda>c. c \<noteq> '''') cs = cs" using assms by (auto simp: filter_id_conv)
  ultimately show ?thesis by (simp add: components_def)
qed (simp add: components_def)

lemma IsAbs_path: "canonical r cs \<Longrightarrow> IsAbs (path_of r cs) = r"
proof (cases "r \<or> cs = []")
  case False
  assume c: "canonical r cs"
  obtain x xs where xs: "cs = x # xs" using False by (cases cs) auto
  obtain a as where "x = a # as" "a \<noteq> sep" using canonical_chars [OF c, of x] xs by (cases x) auto
  then have "hd (strings_Join cs sep) \<noteq> sep" "strings_Join cs sep \<noteq> []"
    using xs by (cases xs; simp)+
  then show ?thesis using False by (cases "strings_Join cs sep") (auto simp: IsAbs_def path_of_def)
qed (auto simp: IsAbs_def path_of_def sep_def)

lemma components_path:
  "canonical r cs \<Longrightarrow> components (path_of r cs) = (if cs = [] \<and> \<not> r then [''.''] else cs)"
  using components_Join [of cs] canonical_chars [of r cs]
  by (auto simp: path_of_def components_def sep_def)

definition path_components :: "string \<Rightarrow> string list" where
  "path_components p = clean_components (IsAbs p) (components p)"

lemma canonical_path_components [simp]: "canonical (IsAbs p) (path_components p)"
  by (simp add: path_components_def canonical_clean)

lemma path_components_path [simp]: "canonical r cs \<Longrightarrow> path_components (path_of r cs) = cs"
  by (simp add: path_components_def IsAbs_path components_path clean_canonical)
     (simp add: clean_components_def clean_step_def)

lemma Clean_path [simp]: "canonical r cs \<Longrightarrow> Clean (path_of r cs) = path_of r cs"
  using path_components_path [of r cs] by (simp add: Clean_def path_components_def IsAbs_path)

lemma path_of_inj:
  "canonical r cs \<Longrightarrow> canonical r ds \<Longrightarrow> path_of r cs = path_of r ds \<longleftrightarrow> cs = ds"
  by (metis path_components_path)

lemma Split_app: "strings_Split (a @ s # b) s = strings_Split a s @ strings_Split b s"
proof (induction a)
  case (Cons c a)
  show ?case
  proof (cases "c = s")
    case False
    with Cons show ?thesis by (cases "strings_Split a s") auto
  qed (use Cons in simp)
qed simp

lemma components_app: "components (a @ sep # b) = components a @ components b"
  by (simp add: components_def Split_app)

lemma Join_plain:
  assumes "plain cs" and "cs \<noteq> []"
  shows "filepath_Join (out # cs) = path_of (IsAbs out) (path_components out @ cs)"
proof -
  have c: "components (strings_Join cs sep) = cs" using assms(1) by (intro components_Join) (auto simp: plain_def)
  have clean: "clean_components r (xs @ cs) = clean_components r xs @ cs" for r xs
    by (simp add: clean_components_def foldl_clean_plain [OF assms(1)])
  have join: "strings_Join (x # cs) sep = x @ sep # strings_Join cs sep" for x
    using assms(2) by (cases cs) auto
  obtain y ys where y: "cs = y # ys" "y \<noteq> ''''" "sep \<notin> set y" using assms by (cases cs) (auto simp: plain_def)
  show ?thesis
  proof (cases "out = ''''")
    case True
    have "IsAbs (strings_Join cs sep) = False"
      using HasPrefix_Join(2) [OF y(2,3), of ys] y(1) by simp
    with True y assms show ?thesis
      using clean [of False "[]"] c by (auto simp: filepath_Join_def Clean_def path_components_def
          components_def clean_components_def IsAbs_def)
  next
    case False
    have "IsAbs (out @ sep # strings_Join cs sep) = IsAbs out" using False by (cases out) (auto simp: IsAbs_def)
    with False show ?thesis
      by (simp add: filepath_Join_def join Clean_def components_app c clean path_components_def)
  qed
qed

lemma Join_path:
  "canonical r cs \<Longrightarrow> plain ds \<Longrightarrow> ds \<noteq> [] \<Longrightarrow> filepath_Join (path_of r cs # ds) = path_of r (cs @ ds)"
  by (simp add: Join_plain IsAbs_path)

lemma Base_path: "canonical r (cs @ [c]) \<Longrightarrow> filepath_Base (path_of r (cs @ [c])) = c"
proof -
  assume a: "canonical r (cs @ [c])"
  then have "path_of r (cs @ [c]) \<noteq> ''''"
    using components_path [OF a] by (auto simp: components_def)
  then show ?thesis by (simp add: filepath_Base_def components_path [OF a])
qed

text \<open>A path below the working directory: what is below it stays when it is made absolute.\<close>

lemma resolve_path:
  assumes "canonical r (cs @ ds)" and "plain ds"
  shows "resolve wd (path_of r (cs @ ds)) = resolve wd (path_of r cs) @ ds"
proof -
  have c: "canonical r cs" using assms(1) by (rule canonical_butlast)
  have a: "clean_components True (xs @ ds) = clean_components True xs @ ds" for xs
    by (simp add: clean_components_def foldl_clean_plain [OF assms(2)])
  have k: "clean_components True (xs @ components (path_of r es)) = clean_components True (xs @ es)"
    if "canonical r es" for xs es
    by (simp add: components_path [OF that]) (simp add: clean_components_def clean_step_def)
  have e: "resolve wd (path_of r es)
      = clean_components True ((if r then [] else components wd) @ components (path_of r es))"
    if "canonical r es" for es
    by (simp add: resolve_def IsAbs_path [OF that] components_app)
  show ?thesis
    unfolding e [OF c] e [OF assms(1)] k [OF c] k [OF assms(1)]
    by (simp only: a append_assoc [symmetric])
qed

lemma is_below_file:
  "is_below (base @ [d, x, y]) (base @ [e, x, y, f]) \<longleftrightarrow> d = e \<and> \<not> strings_HasPrefix f ''..''"
  by (auto simp: is_below_def)

section \<open>Properties\<close>

text \<open>
  C24: \<^verbatim>\<open>isSubDir\<close> compares paths by their components after both are made absolute and clean: it
  never fails from an absolute working directory, and it says that the file lies in the
  directory exactly when the directory's components are a prefix of the file's and the next
  component does not begin with two dots.
\<close>

theorem isSubDir_is_prefix:
  assumes "IsAbs wd"
  shows "isSubDir (Ok wd) src dstDir = Ok (is_below (resolve wd dstDir) (resolve wd src))"
  by (rule isSubDir_components [OF assms])

theorem isSubDir_is_prefix_witness:
  "isSubDir (Ok ''/w'') ''out/n1/config/gentx/g.json'' ''./out//n1/x/../config/gentx'' = Ok True
   \<and> isSubDir (Ok ''/w'') ''out/n1/g.json'' ''out/n10'' = Ok False
   \<and> isSubDir (Ok ''/w'') ''out/n1/..g.json'' ''out/n1'' = Ok False"
  using isSubDir_is_prefix [of "''/w''" "''out/n1/config/gentx/g.json''" "''./out//n1/x/../config/gentx''"]
    isSubDir_is_prefix [of "''/w''" "''out/n1/g.json''" "''out/n10''"]
    isSubDir_is_prefix [of "''/w''" "''out/n1/..g.json''" "''out/n1''"]
  by (simp add: is_below_def resolve_def IsAbs_def sep_def components_def clean_components_def
      clean_step_def)

end
