(* ===== verification/Os_Files.thy ===== *)
theory Os_Files
  imports Bps_Types Paths
begin

text \<open>
  The files of a process as the testnet command sees them through Go's \<^verbatim>\<open>os\<close> and \<^verbatim>\<open>io\<close>: files
  with their contents and directories, both under their clean paths, and an oracle for the
  operations that fail for a reason outside the program (a full disk, a missing permission).
  On top of it \<^verbatim>\<open>writeFile\<close> and \<^verbatim>\<open>copyFile\<close> of \<^verbatim>\<open>cmd/bpsd/cmd/testnet_multi_node.go\<close>. The field
  \<open>rest\<close> is what else the command changes (key rings, the files the SDK writes).
\<close>

section \<open>The file system\<close>

datatype os_call = Op_MkdirAll | Op_WriteFile | Op_Open | Op_Create | Op_Copy | Op_Sync | Op_RemoveAll

record 'x world =
  fs_file :: "string \<Rightarrow> bytes option"
  fs_dir :: "string \<Rightarrow> bool"
  fs_fault :: "os_call \<Rightarrow> string \<Rightarrow> go_error option"
  rest :: 'x

definition parent :: "string \<Rightarrow> string" where
  "parent p = path_of (IsAbs p) (butlast (path_components p))"

text \<open>The path and the directories above it, without the root or the working directory.\<close>

definition ancestors :: "string \<Rightarrow> string list" where
  "ancestors p = map (\<lambda>k. path_of (IsAbs p) (take (Suc k) (path_components p)))
     [0..<length (path_components p)]"

definition is_directory :: "'x world \<Rightarrow> string \<Rightarrow> bool" where
  "is_directory w p \<longleftrightarrow> Clean p \<in> {''.'', [sep]} \<or> fs_dir w (Clean p)"

definition may_fail :: "os_call \<Rightarrow> string \<Rightarrow> ('x world, 'a) eff \<Rightarrow> ('x world, 'a) eff" where
  "may_fail op p m = (\<lambda>w. case fs_fault w op p of Some e \<Rightarrow> (Err e, w) | None \<Rightarrow> m w)"

definition os_MkdirAll :: "string \<Rightarrow> ('x world, unit) eff" where
  "os_MkdirAll p = may_fail Op_MkdirAll p (\<lambda>w.
     if \<exists>d \<in> set (ancestors p). fs_file w d \<noteq> None then (Err (Error_text ''not a directory''), w)
     else (Ok (), w\<lparr>fs_dir := (\<lambda>d. fs_dir w d \<or> d \<in> set (ancestors p))\<rparr>))"

definition os_write :: "string \<Rightarrow> bytes \<Rightarrow> ('x world, unit) eff" where
  "os_write p contents = (\<lambda>w.
     if is_directory w p then (Err (Error_text ''is a directory''), w)
     else if \<not> is_directory w (parent p) then (Err (Error_text ''no such file or directory''), w)
     else (Ok (), w\<lparr>fs_file := (fs_file w)(Clean p \<mapsto> contents)\<rparr>))"

definition os_WriteFile :: "string \<Rightarrow> bytes \<Rightarrow> ('x world, unit) eff" where
  "os_WriteFile p contents = may_fail Op_WriteFile p (os_write p contents)"

definition os_Create :: "string \<Rightarrow> ('x world, unit) eff" where
  "os_Create p = may_fail Op_Create p (os_write p [])"

definition os_Open :: "string \<Rightarrow> ('x world, unit) eff" where
  "os_Open p = may_fail Op_Open p (\<lambda>w.
     if fs_file w (Clean p) = None \<and> \<not> is_directory w p
     then (Err (Error_text ''no such file or directory''), w) else (Ok (), w))"

text \<open>
  The destination was just created and is written from its beginning. A source that is the
  destination was truncated by that creation.
\<close>

definition io_Copy :: "string \<Rightarrow> string \<Rightarrow> ('x world, int) eff" where
  "io_Copy dst src = may_fail Op_Copy dst (\<lambda>w. case fs_file w (Clean src) of
     None \<Rightarrow> (Err (Error_text ''is a directory''), w)
   | Some data \<Rightarrow> (Ok (int (length data)), w\<lparr>fs_file := (fs_file w)(Clean dst \<mapsto> data)\<rparr>))"

definition file_Sync :: "string \<Rightarrow> ('x world, unit) eff" where
  "file_Sync p = may_fail Op_Sync p (ret ())"

definition lies_under :: "string \<Rightarrow> string \<Rightarrow> bool" where
  "lies_under d p \<longleftrightarrow> IsAbs p = IsAbs d \<and>
     take (length (path_components d)) (path_components p) = path_components d"

text \<open>\<^verbatim>\<open>RemoveAll\<close> ignores the empty path and refuses one that ends with a dot component.\<close>

definition endsWithDot :: "string \<Rightarrow> bool" where
  "endsWithDot p \<longleftrightarrow> p = ''.'' \<or> (2 \<le> length p \<and> last p = CHR ''.'' \<and> p ! (length p - 2) = sep)"

definition os_RemoveAll :: "string \<Rightarrow> ('x world, unit) eff" where
  "os_RemoveAll d = may_fail Op_RemoveAll d (\<lambda>w.
     if d = '''' then (Ok (), w)
     else if endsWithDot d then (Err (Error_text ''invalid argument''), w)
     else (Ok (), w\<lparr>fs_file := (\<lambda>p. if lies_under d p then None else fs_file w p),
               fs_dir := (\<lambda>p. \<not> lies_under d p \<and> fs_dir w p)\<rparr>))"

section \<open>writeFile and copyFile\<close>

text \<open>The message quotes the directory (\<^verbatim>\<open>%q\<close>; no name in it needs an escape).\<close>

definition writeFile :: "string \<Rightarrow> string \<Rightarrow> bytes \<Rightarrow> ('x world, unit) eff" where
  "writeFile file dir contents =
     bind (map_err (\<lambda>e. Wrapped e (''could not create directory '' @ [CHR 0x22] @ dir @ [CHR 0x22])) (os_MkdirAll dir)) (\<lambda>_.
     os_WriteFile file contents)"

definition copyFile :: "string \<Rightarrow> string \<Rightarrow> ('x world, int) eff" where
  "copyFile src dstDir =
     (let fileName = filepath_Base src; dst = filepath_Join [dstDir, fileName] in
      bind (os_Open src) (\<lambda>_.
      bind (os_Create dst) (\<lambda>_.
      bind (io_Copy dst src) (\<lambda>bytesCopied.
      bind (file_Sync dst) (\<lambda>_.
      ret bytesCopied)))))"

section \<open>Lemmas\<close>

definition no_faults :: "'x world \<Rightarrow> bool" where
  "no_faults w \<longleftrightarrow> (\<forall>op p. fs_fault w op p = None)"

lemma may_fail_ok [simp]: "no_faults w \<Longrightarrow> may_fail op p m w = m w"
  by (simp add: may_fail_def no_faults_def)

lemma no_faults_update [simp]:
  "no_faults (w\<lparr>fs_file := f\<rparr>) = no_faults w" "no_faults (w\<lparr>fs_dir := d\<rparr>) = no_faults w"
  by (simp_all add: no_faults_def)

lemma is_directory_file [simp]: "is_directory (w\<lparr>fs_file := f\<rparr>) p = is_directory w p"
  by (simp add: is_directory_def)

text \<open>The effect of a copy that does not hit a fault.\<close>

lemma copyFile_effect:
  assumes "no_faults w" and "fs_file w (Clean src) = Some data"
    and "dst = filepath_Join [dstDir, filepath_Base src]"
    and "\<not> is_directory w dst" and "is_directory w (parent dst)"
  shows "copyFile src dstDir w
    = (Ok (if Clean dst = Clean src then 0 else int (length data)),
       w\<lparr>fs_file := (fs_file w)(Clean dst \<mapsto> (if Clean dst = Clean src then [] else data))\<rparr>)"
  using assms(1,2,4,5)
  by (simp add: copyFile_def Let_def assms(3) [symmetric] os_Open_def os_Create_def io_Copy_def
      file_Sync_def os_write_def bind_def)

section \<open>Canonical paths\<close>

lemma parent_path: "canonical r (cs @ [c]) \<Longrightarrow> parent (path_of r (cs @ [c])) = path_of r cs"
  by (simp add: parent_def IsAbs_path)

lemma ancestors_path:
  "canonical r cs \<Longrightarrow> ancestors (path_of r cs) = map (\<lambda>k. path_of r (take (Suc k) cs)) [0..<length cs]"
  by (simp add: ancestors_def IsAbs_path)

lemma path_not_root:
  assumes "canonical r cs" and "cs \<noteq> []"
  shows "path_of r cs \<noteq> ''.''" and "path_of r cs \<noteq> [sep]"
proof -
  have "path_components ''.'' = []" "path_components [sep] = []"
    by (simp_all add: path_components_def components_def clean_components_def clean_step_def IsAbs_def sep_def)
  with assms path_components_path show "path_of r cs \<noteq> ''.''" "path_of r cs \<noteq> [sep]" by metis+
qed

lemma is_directory_path:
  "canonical r cs \<Longrightarrow> cs \<noteq> [] \<Longrightarrow> is_directory w (path_of r cs) \<longleftrightarrow> fs_dir w (path_of r cs)"
  using path_not_root [of r cs] by (simp add: is_directory_def)

text \<open>Copying a file \<open>f\<close> between directories given by their components.\<close>

lemma copyFile_path:
  assumes "no_faults w" and "canonical r (src @ [f])" and "canonical r (dst @ [f])"
    and "src \<noteq> dst" and "dst \<noteq> []" and "f \<noteq> ''..''" and "f \<noteq> ''.''"
    and "fs_file w (path_of r (src @ [f])) = Some data"
    and "fs_dir w (path_of r dst)" and "\<not> fs_dir w (path_of r (dst @ [f]))"
  shows "copyFile (path_of r (src @ [f])) (path_of r dst) w
    = (Ok (int (length data)), w\<lparr>fs_file := (fs_file w)(path_of r (dst @ [f]) \<mapsto> data)\<rparr>)"
proof -
  have d: "canonical r dst" using assms(3) by (rule canonical_butlast)
  have p: "plain [f]" using canonical_chars [OF assms(2), of f] assms(6,7) by (simp add: plain_def)
  have j: "filepath_Join [path_of r dst, filepath_Base (path_of r (src @ [f]))] = path_of r (dst @ [f])"
    using Join_path [OF d p] by (simp add: Base_path [OF assms(2)])
  have ne: "path_of r (dst @ [f]) \<noteq> path_of r (src @ [f])"
    using assms(2-4) by (simp add: path_of_inj)
  show ?thesis
    using copyFile_effect [OF assms(1), of "path_of r (src @ [f])" data _ "path_of r dst", OF _ refl] assms ne
    by (simp add: j is_directory_path d parent_path)
qed

text \<open>Making a directory, and writing a file into a directory that is made for it.\<close>

lemma MkdirAll_path:
  assumes "no_faults w" and "canonical r cs" and "\<forall>m > 0. fs_file w (path_of r (take m cs)) = None"
  shows "os_MkdirAll (path_of r cs) w = (Ok (), w\<lparr>fs_dir := (\<lambda>d. fs_dir w d \<or> d \<in> set (ancestors (path_of r cs)))\<rparr>)"
  using assms by (auto simp: os_MkdirAll_def ancestors_path)

lemma ancestors_path_iff:
  assumes "canonical r cs"
  shows "d \<in> set (ancestors (path_of r cs)) \<longleftrightarrow> (\<exists>m > 0. m \<le> length cs \<and> d = path_of r (take m cs))"
proof
  assume "d \<in> set (ancestors (path_of r cs))"
  then obtain k where "k < length cs" "d = path_of r (take (Suc k) cs)" using assms by (auto simp: ancestors_path)
  then show "\<exists>m > 0. m \<le> length cs \<and> d = path_of r (take m cs)" by (intro exI [of _ "Suc k"]) simp
next
  assume "\<exists>m > 0. m \<le> length cs \<and> d = path_of r (take m cs)"
  then obtain m where "0 < m" "m \<le> length cs" "d = path_of r (take m cs)" by blast
  then show "d \<in> set (ancestors (path_of r cs))"
    using assms by (auto simp: ancestors_path intro!: image_eqI [of _ _ "m - 1"])
qed

lemma canonical_take: "canonical r cs \<Longrightarrow> canonical r (take m cs)"
  by (metis append_take_drop_id canonical_butlast)

lemma writeFile_path:
  assumes "no_faults w" and "canonical r (cs @ [f])" and "cs \<noteq> []"
    and "\<forall>m > 0. fs_file w (path_of r (take m cs)) = None" and "\<not> fs_dir w (path_of r (cs @ [f]))"
  shows "writeFile (path_of r (cs @ [f])) (path_of r cs) data w
    = (Ok (), w\<lparr>fs_dir := (\<lambda>d. fs_dir w d \<or> d \<in> set (ancestors (path_of r cs))),
                fs_file := (fs_file w)(path_of r (cs @ [f]) \<mapsto> data)\<rparr>)"
proof -
  have c: "canonical r cs" using assms(2) by (rule canonical_butlast)
  let ?w = "w\<lparr>fs_dir := (\<lambda>d. fs_dir w d \<or> d \<in> set (ancestors (path_of r cs)))\<rparr>"
  have "path_of r (cs @ [f]) \<notin> set (ancestors (path_of r cs))"
  proof
    assume "path_of r (cs @ [f]) \<in> set (ancestors (path_of r cs))"
    then obtain m where "path_of r (cs @ [f]) = path_of r (take m cs)" using ancestors_path_iff [OF c] by blast
    then have "cs @ [f] = take m cs" using path_of_inj [OF assms(2) canonical_take [OF c]] by blast
    then have "length (cs @ [f]) = length (take m cs)" by simp
    then show False by simp
  qed
  then have "\<not> is_directory ?w (path_of r (cs @ [f]))"
    using assms(5) by (simp add: is_directory_path [OF assms(2)])
  moreover have "path_of r cs \<in> set (ancestors (path_of r cs))"
    using assms(3) by (auto simp: ancestors_path_iff [OF c] intro!: exI [of _ "length cs"])
  then have "is_directory ?w (parent (path_of r (cs @ [f])))"
    by (simp add: parent_path [OF assms(2)] is_directory_path [OF c assms(3)])
  ultimately show ?thesis
    using MkdirAll_path [OF assms(1) c assms(4)] assms(1,2)
    by (simp add: writeFile_def map_err_def bind_def os_WriteFile_def os_write_def)
qed

section \<open>Properties\<close>

text \<open>
  Copying a file into another directory makes the copy equal to it and changes no other
  file; copying it into the directory it already lies in would empty it, which is what the
  \<^verbatim>\<open>isSubDir\<close> test before the copy prevents.
\<close>

theorem copyFile_copies_or_truncates:
  assumes "no_faults w" and "fs_file w (Clean src) = Some data"
    and "dst = filepath_Join [dstDir, filepath_Base src]"
    and "\<not> is_directory w dst" and "is_directory w (parent dst)"
  shows "\<exists>n w'. copyFile src dstDir w = (Ok n, w')
    \<and> (if Clean dst = Clean src then n = 0 \<and> fs_file w' (Clean src) = Some []
       else n = int (length data) \<and> fs_file w' (Clean dst) = Some data
         \<and> fs_file w' (Clean src) = Some data)
    \<and> (\<forall>p. p \<noteq> Clean dst \<longrightarrow> fs_file w' p = fs_file w p)"
  using copyFile_effect [OF assms] assms(2) by auto

definition sample_world :: "unit world" where
  "sample_world = \<lparr>fs_file = (\<lambda>p. if p = ''a/g.json'' then Some [1, 2, 3] else None),
     fs_dir = (\<lambda>p. p = ''a'' \<or> p = ''b''), fs_fault = (\<lambda>op p. None), rest = ()\<rparr>"

lemmas path_eval = Clean_def filepath_Join_def filepath_Base_def path_components_def parent_def
  IsAbs_def sep_def components_def clean_components_def clean_step_def path_of_def is_directory_def

theorem copyFile_copies_or_truncates_witness:
  "\<exists>n w'. copyFile ''a/g.json'' ''b'' sample_world = (Ok n, w')
    \<and> n = 3 \<and> fs_file w' ''b/g.json'' = Some [1, 2, 3]"
proof -
  have f: "fs_file sample_world (Clean ''a/g.json'') = Some [1, 2, 3]"
    by (simp add: sample_world_def path_eval)
  have d: "\<not> is_directory sample_world (filepath_Join [''b'', filepath_Base ''a/g.json''])"
    by (simp add: sample_world_def path_eval)
  have p: "is_directory sample_world (parent (filepath_Join [''b'', filepath_Base ''a/g.json'']))"
    by (simp add: sample_world_def path_eval)
  have n: "no_faults sample_world" by (simp add: no_faults_def sample_world_def)
  have c: "Clean ''a/g.json'' = ''a/g.json''"
    "Clean (filepath_Join [''b'', filepath_Base ''a/g.json'']) = ''b/g.json''"
    by (simp_all add: path_eval)
  from copyFile_copies_or_truncates [OF n f refl d p] c show ?thesis by auto
qed

end
