(* ===== verification/Testnet_Multi.thy ===== *)
theory Testnet_Multi
  imports Mint_Hardcap Os_Files
begin

text \<open>
  \<^verbatim>\<open>cmd/bpsd/cmd/testnet_multi_node.go\<close>: the command that writes the directories of a testnet of
  several nodes. Its flags, the loop that creates a node's files and its genesis transaction,
  the common genesis, the copying of the genesis transactions and the loop that collects them
  and writes the nodes' configurations.

  What the SDK and CometBFT do is the record \<open>multi_env\<close>; their values that the command only
  hands on (keys, messages, transactions, accounts) have one opaque type \<open>'v\<close>. The node
  configuration is one mutable object in the code and is passed from step to step here.
\<close>

section \<open>The command's flags\<close>

datatype flag =
    F_output_dir | F_keyring_backend | F_chain_id | F_min_gas_prices | F_node_dir_prefix
  | F_starting_ip | F_key_type | F_stake_amount | F_ports

record init_args =
  algo :: string
  chainID :: string
  keyringBackend :: string
  minGasPrices :: string
  nodeDirPrefix :: string
  numValidators :: int
  outputDir :: string
  startingIPAddress :: string
  validatorsStakesAmount :: "int \<rightharpoonup> coin"
  ports :: "int \<rightharpoonup> string"

text \<open>\<open>x, _ := m()\<close>: an error leaves the zero value.\<close>

fun or_zero :: "'a \<Rightarrow> 'a outcome \<Rightarrow> 'a" where
  "or_zero z (Ok x) = x"
| "or_zero z _ = z"

fun stakes_loop ::
  "sdk_lib \<Rightarrow> (string \<Rightarrow> int option) \<Rightarrow> string \<Rightarrow> string list \<Rightarrow> int \<Rightarrow> (int \<rightharpoonup> coin) \<Rightarrow>
   (int \<rightharpoonup> coin) outcome" where
  "stakes_loop L NewIntFromString bondDenom [] idx m = Ok m"
| "stakes_loop L NewIntFromString bondDenom (amt # others) idx m =
     (case NewIntFromString amt of
        None \<Rightarrow> stakes_loop L NewIntFromString bondDenom others idx m
      | Some a \<Rightarrow> obind (NewCoin L bondDenom a) (\<lambda>c.
          stakes_loop L NewIntFromString bondDenom others (idx + 1) (m(idx \<mapsto> c))))"

fun ports_loop :: "string list \<Rightarrow> int \<Rightarrow> (int \<rightharpoonup> string) \<Rightarrow> (int \<rightharpoonup> string)" where
  "ports_loop [] idx m = m"
| "ports_loop (port # others) idx m = ports_loop others (idx + 1) (m(idx \<mapsto> port))"

definition default_ports :: "int \<Rightarrow> string list" where
  "default_ports n = map (\<lambda>i. Itoa (26657 - 3 * int i)) [0..<nat n]"

definition multi_node_args ::
  "sdk_lib \<Rightarrow> (string \<Rightarrow> int option) \<Rightarrow> string \<Rightarrow> (flag \<Rightarrow> string outcome) \<Rightarrow> int outcome \<Rightarrow>
   init_args outcome" where
  "multi_node_args L NewIntFromString bondDenom GetString GetNumValidators =
     (let n = or_zero 0 GetNumValidators in
      obind (case GetString F_stake_amount of
               Ok s \<Rightarrow> stakes_loop L NewIntFromString bondDenom (strings_Split s (CHR '','')) 0 Map.empty
             | _ \<Rightarrow> Ok Map.empty) (\<lambda>stakes.
      Ok \<lparr>algo = or_zero '''' (GetString F_key_type),
          chainID = or_zero '''' (GetString F_chain_id),
          keyringBackend = or_zero '''' (GetString F_keyring_backend),
          minGasPrices = or_zero '''' (GetString F_min_gas_prices),
          nodeDirPrefix = or_zero '''' (GetString F_node_dir_prefix),
          numValidators = n,
          outputDir = or_zero '''' (GetString F_output_dir),
          startingIPAddress = or_zero '''' (GetString F_starting_ip),
          validatorsStakesAmount = stakes,
          ports = (case GetString F_ports of
              Ok s \<Rightarrow> if s = '''' then ports_loop (default_ports n) 0 Map.empty
                      else ports_loop (strings_Split s (CHR '','')) 0 Map.empty
            | _ \<Rightarrow> Map.empty)\<rparr>))"

section \<open>Configurations and the SDK\<close>

record node_config =
  RootDir :: string
  Moniker :: string
  RPC_ListenAddress :: string
  P2P_PersistentPeers :: string
  P2P_AllowDuplicateIP :: bool
  P2P_AddrBookStrict :: bool
  P2P_ListenAddress :: string
  ProxyApp :: string
  PrometheusListenAddr :: string
  Prometheus :: bool

text \<open>
  \<^verbatim>\<open>BaseConfig\<close> is embedded in the application configuration, so \<^verbatim>\<open>appConfig.MinGasPrices\<close> and
  \<^verbatim>\<open>appConfig.BaseConfig.MinGasPrices\<close> are one field.
\<close>

record app_config =
  MinGasPrices :: string
  API_Enable :: bool
  API_Address :: string
  GRPC_Address :: string
  EnableHostnameLabel :: bool
  Telemetry_Enabled :: bool
  PrometheusRetentionTime :: int

record balance =
  bal_Address :: string
  bal_Coins :: "coin list"

record 'v bank_genesis =
  bank_Balances :: "balance list"
  bank_Supply :: "coin list"
  bank_Rest :: 'v

record ('s, 'v) multi_env =
  tm_DefaultBondDenom :: string
  tm_DefaultConfig :: app_config
  tm_Intn :: "nat \<Rightarrow> ('s, nat) eff"
  tm_InitializeNodeValidatorFiles :: "node_config \<Rightarrow> ('s, string \<times> 'v) eff"
  tm_GenesisFile :: "node_config \<Rightarrow> string"
  tm_NewKeyring :: "string \<Rightarrow> string \<Rightarrow> ('s, 'v) eff"
  tm_NewSigningAlgo :: "'v \<Rightarrow> string \<Rightarrow> ('s, 'v) eff"
  tm_GenerateSaveCoinKey :: "'v \<Rightarrow> string \<Rightarrow> 'v \<Rightarrow> ('s, bytes \<times> string) eff"
  tm_MarshalSecret :: "string \<Rightarrow> bytes outcome"
  tm_AccString :: "bytes \<Rightarrow> string"
  tm_ValString :: "bytes \<Rightarrow> string"
  tm_TokensFromConsensusPower :: "int \<Rightarrow> int"
  tm_SortCoins :: "coin list \<Rightarrow> coin list"
  tm_NewBaseAccount :: "bytes \<Rightarrow> 'v"
  tm_NewMsgCreateValidator :: "string \<Rightarrow> 'v \<Rightarrow> coin \<Rightarrow> string \<Rightarrow> 'v outcome"
  tm_SetMsgs :: "'v \<Rightarrow> 'v outcome"
  tm_SetMemo :: "'v \<Rightarrow> string \<Rightarrow> 'v"
  tm_Sign :: "string \<Rightarrow> string \<Rightarrow> 'v \<Rightarrow> string \<Rightarrow> 'v \<Rightarrow> ('s, 'v) eff"
  tm_TxJSON :: "'v \<Rightarrow> bytes outcome"
  tm_WriteAppConfig :: "string \<Rightarrow> app_config \<Rightarrow> ('s, unit) eff"
  tm_DefaultGenesis :: "string \<rightharpoonup> bytes"
  tm_AuthModuleName :: string
  tm_BankModuleName :: string
  tm_UnmarshalAuth :: "bytes \<Rightarrow> 'v outcome"
  tm_PackAccounts :: "'v list \<Rightarrow> 'v outcome"
  tm_SetAccounts :: "'v \<Rightarrow> 'v \<Rightarrow> 'v"
  tm_MarshalAuth :: "'v \<Rightarrow> bytes outcome"
  tm_UnmarshalBank :: "bytes \<Rightarrow> 'v bank_genesis outcome"
  tm_SanitizeGenesisBalances :: "balance list \<Rightarrow> balance list"
  tm_CoinsAdd :: "coin list \<Rightarrow> coin list \<Rightarrow> coin list outcome"
  tm_MarshalBank :: "'v bank_genesis \<Rightarrow> bytes outcome"
  tm_MarshalIndent :: "(string \<rightharpoonup> bytes) \<Rightarrow> bytes outcome"
  tm_SaveGenesisDoc :: "string \<Rightarrow> string \<Rightarrow> bytes \<Rightarrow> ('s, unit) eff"
  tm_Now :: "('s, int) eff"
  tm_AppGenesisFromFile :: "string \<Rightarrow> ('s, 'v) eff"
  tm_GenAppStateFromConfig ::
    "node_config \<Rightarrow> string \<Rightarrow> string \<Rightarrow> string \<Rightarrow> 'v option \<Rightarrow> 'v \<Rightarrow> ('s, bytes option) eff"
  tm_WriteNodeConfig :: "string \<Rightarrow> node_config \<Rightarrow> ('s, unit) eff"
  tm_ExportGenesisFileWithTime :: "string \<Rightarrow> string \<Rightarrow> bytes option \<Rightarrow> int \<Rightarrow> ('s, unit) eff"
  tm_PrintErr :: "string \<Rightarrow> ('s, unit) eff"

section \<open>Helpers\<close>

definition charset :: string where
  "charset = ''abcdefghijklmnopqrstuvwxyz0123456789''"

definition out_of_range_panic :: go_error where
  "out_of_range_panic = Error_text ''runtime error: index out of range''"

fun generateRandomString :: "('s, 'v) multi_env \<Rightarrow> nat \<Rightarrow> ('s, string) eff" where
  "generateRandomString E 0 = ret ''''"
| "generateRandomString E (Suc n) =
     bind (tm_Intn E (length charset)) (\<lambda>k.
     bind (if k < length charset then ret (charset ! k) else panic out_of_range_panic) (\<lambda>c.
     bind (generateRandomString E n) (\<lambda>cs. ret (c # cs))))"

text \<open>\<open>for i := 0; i < n; i++\<close> with what the loop carries.\<close>

fun fold_m :: "(int \<Rightarrow> 'a \<Rightarrow> ('s, 'a) eff) \<Rightarrow> nat list \<Rightarrow> 'a \<Rightarrow> ('s, 'a) eff" where
  "fold_m body [] a = ret a"
| "fold_m body (i # is) a = bind (body (int i) a) (\<lambda>a. fold_m body is a)"

definition port_of :: "init_args \<Rightarrow> int \<Rightarrow> string" where
  "port_of args i = (case ports args i of Some p \<Rightarrow> p | None \<Rightarrow> '''')"

definition node_name :: "init_args \<Rightarrow> int \<Rightarrow> string" where
  "node_name args i = nodeDirPrefix args @ Itoa i"

definition node_dir :: "init_args \<Rightarrow> int \<Rightarrow> string" where
  "node_dir args i = filepath_Join [outputDir args, node_name args i]"

text \<open>\<open>if err := m(); err != nil { _ = os.RemoveAll(outputDir); return err }\<close>\<close>

definition or_remove :: "string \<Rightarrow> ('x world, 'a) eff \<Rightarrow> ('x world, 'a) eff" where
  "or_remove dir m = (\<lambda>s. case m s of
     (Err e, s') \<Rightarrow> (case discard (os_RemoveAll dir) s' of
         (Ok _, s'') \<Rightarrow> (Err e, s'')
       | (Err e', s'') \<Rightarrow> (Err e', s'')
       | (Panic e', s'') \<Rightarrow> (Panic e', s'')
       | (Exit c, s'') \<Rightarrow> (Exit c, s''))
   | r \<Rightarrow> r)"

section \<open>The files of one node\<close>

record 'v loop_state =
  ls_nodeIDs :: "string list"
  ls_valPubKeys :: "'v option list"
  ls_genAccounts :: "'v list"
  ls_genBalances :: "balance list"
  ls_genFiles :: "string list"
  ls_persistentPeers :: string
  ls_gentxsFiles :: "string list"
  ls_nodeConfig :: node_config
  ls_appConfig :: app_config

definition base_app_config :: "('s, 'v) multi_env \<Rightarrow> init_args \<Rightarrow> app_config" where
  "base_app_config E args =
     (let c = tm_DefaultConfig E;
          c = c\<lparr>MinGasPrices := minGasPrices args\<rparr>;
          c = c\<lparr>API_Enable := False\<rparr>;
          c = c\<lparr>MinGasPrices := ''0.0001'' @ tm_DefaultBondDenom E\<rparr>;
          c = c\<lparr>EnableHostnameLabel := False\<rparr>;
          c = c\<lparr>Telemetry_Enabled := False\<rparr>
      in c\<lparr>PrometheusRetentionTime := 0\<rparr>)"

definition node_memo :: "init_args \<Rightarrow> int \<Rightarrow> string \<Rightarrow> string" where
  "node_memo args i nodeID = nodeID @ ''@'' @ startingIPAddress args @ '':'' @ Itoa (26656 - 3 * i)"

definition add_peer :: "string \<Rightarrow> string \<Rightarrow> string" where
  "add_peer peers memo = (if peers = '''' then memo else peers @ '','' @ memo)"

definition genesis_coins :: "sdk_lib \<Rightarrow> ('s, 'v) multi_env \<Rightarrow> coin list outcome" where
  "genesis_coins L E =
     obind (NewCoin L ''testtoken'' (tm_TokensFromConsensusPower E 1000)) (\<lambda>test.
     obind (NewCoin L (tm_DefaultBondDenom E) (tm_TokensFromConsensusPower E 500)) (\<lambda>stake.
     Ok (tm_SortCoins E [test, stake])))"

definition stake_of :: "sdk_lib \<Rightarrow> ('s, 'v) multi_env \<Rightarrow> init_args \<Rightarrow> int \<Rightarrow> coin outcome" where
  "stake_of L E args i =
     (case validatorsStakesAmount args i of
        Some c \<Rightarrow> Ok c
      | None \<Rightarrow> NewCoin L (tm_DefaultBondDenom E) (tm_TokensFromConsensusPower E 100))"

definition create_gentx ::
  "sdk_lib \<Rightarrow> ('s, 'v) multi_env \<Rightarrow> init_args \<Rightarrow> int \<Rightarrow> 'v \<Rightarrow> bytes \<Rightarrow> 'v \<Rightarrow> string \<Rightarrow> ('s, bytes) eff" where
  "create_gentx L E args i kb addr valPubKey memo =
     bind (lift_outcome (stake_of L E args i)) (\<lambda>valTokens.
     bind (lift_outcome (tm_NewMsgCreateValidator E (tm_ValString E addr) valPubKey valTokens
             (node_name args i))) (\<lambda>createValMsg.
     bind (lift_outcome (tm_SetMsgs E createValMsg)) (\<lambda>tx.
     let tx = tm_SetMemo E tx memo in
     bind (tm_Sign E (chainID args) memo kb (node_name args i) tx) (\<lambda>tx.
     lift_outcome (tm_TxJSON E tx)))))"

definition node_app_config :: "init_args \<Rightarrow> int \<Rightarrow> app_config \<Rightarrow> app_config" where
  "node_app_config args i app = app\<lparr>
     GRPC_Address := startingIPAddress args @ '':'' @ Itoa (9090 - 2 * i),
     API_Address := ''tcp://localhost:'' @ Itoa (1317 - i)\<rparr>"

definition node_step ::
  "sdk_lib \<Rightarrow> ('x world, 'v) multi_env \<Rightarrow> init_args \<Rightarrow> int \<Rightarrow> 'v loop_state \<Rightarrow>
   ('x world, 'v loop_state) eff" where
  "node_step L E args i st =
     (let nodeDirName = node_name args i; nodeDir = node_dir args i;
          gentxsDir = filepath_Join [outputDir args, nodeDirName, ''config'', ''gentx''];
          cfg = (ls_nodeConfig st)\<lparr>RootDir := nodeDir, Moniker := nodeDirName,
            RPC_ListenAddress := ''tcp://0.0.0.0:'' @ port_of args i\<rparr> in
      bind (or_remove (outputDir args) (os_MkdirAll (filepath_Join [nodeDir, ''config'']))) (\<lambda>_.
      bind (or_remove (outputDir args) (tm_InitializeNodeValidatorFiles E cfg)) (\<lambda>(nodeID, valPubKey).
      let memo = node_memo args i nodeID in
      bind (tm_NewKeyring E (keyringBackend args) nodeDir) (\<lambda>kb.
      bind (tm_NewSigningAlgo E kb (algo args)) (\<lambda>alg.
      bind (or_remove (outputDir args) (tm_GenerateSaveCoinKey E kb nodeDirName alg)) (\<lambda>(addr, secret).
      bind (lift_outcome (tm_MarshalSecret E secret)) (\<lambda>cliPrint.
      bind (writeFile (filepath_Join [nodeDir, ''key_seed.json'']) nodeDir cliPrint) (\<lambda>_.
      bind (lift_outcome (genesis_coins L E)) (\<lambda>coins.
      bind (create_gentx L E args i kb addr valPubKey memo) (\<lambda>txBz.
      let file = filepath_Join [gentxsDir, ''gentx-'' @ nodeID @ ''.json''] in
      bind (writeFile file gentxsDir txBz) (\<lambda>_.
      let app = node_app_config args i (ls_appConfig st) in
      bind (tm_WriteAppConfig E (filepath_Join [nodeDir, ''config'', ''app.toml'']) app) (\<lambda>_.
      ret \<lparr>ls_nodeIDs = (ls_nodeIDs st)[nat i := nodeID],
           ls_valPubKeys = (ls_valPubKeys st)[nat i := Some valPubKey],
           ls_genAccounts = ls_genAccounts st @ [tm_NewBaseAccount E addr],
           ls_genBalances = ls_genBalances st @ [\<lparr>bal_Address = tm_AccString E addr, bal_Coins = coins\<rparr>],
           ls_genFiles = ls_genFiles st @ [tm_GenesisFile E cfg],
           ls_persistentPeers = add_peer (ls_persistentPeers st) memo,
           ls_gentxsFiles = ls_gentxsFiles st @ [file],
           ls_nodeConfig = cfg,
           ls_appConfig = app\<rparr>))))))))))))"

section \<open>The common genesis\<close>

definition must :: "'a outcome \<Rightarrow> ('s, 'a) eff" where
  "must r = or_panic (lift_outcome r)"

text \<open>\<open>for _, bal := range balances { supply = supply.Add(bal.Coins...) }\<close>\<close>

fun add_supply :: "('s, 'v) multi_env \<Rightarrow> balance list \<Rightarrow> coin list \<Rightarrow> coin list outcome" where
  "add_supply E [] supply_so_far = Ok supply_so_far"
| "add_supply E (bal # bals) supply_so_far =
     obind (tm_CoinsAdd E supply_so_far (bal_Coins bal)) (\<lambda>s. add_supply E bals s)"

definition raw_genesis :: "(string \<rightharpoonup> bytes) \<Rightarrow> string \<Rightarrow> bytes" where
  "raw_genesis state m = (case state m of Some b \<Rightarrow> b | None \<Rightarrow> [])"

definition save_genesis_docs ::
  "('s, 'v) multi_env \<Rightarrow> string \<Rightarrow> bytes \<Rightarrow> string list \<Rightarrow> int \<Rightarrow> ('s, unit) eff" where
  "save_genesis_docs E chain appState genFiles n =
     for_each (\<lambda>i. if i < length genFiles then tm_SaveGenesisDoc E (genFiles ! i) chain appState
                   else panic out_of_range_panic) [0..<nat n]"

definition initGenFiles ::
  "('s, 'v) multi_env \<Rightarrow> string \<Rightarrow> 'v list \<Rightarrow> balance list \<Rightarrow> string list \<Rightarrow> int \<Rightarrow> ('s, unit) eff" where
  "initGenFiles E chain genAccounts genBalances genFiles n =
     (let state = tm_DefaultGenesis E in
      bind (must (tm_UnmarshalAuth E (raw_genesis state (tm_AuthModuleName E)))) (\<lambda>authGenState.
      bind (lift_outcome (tm_PackAccounts E genAccounts)) (\<lambda>accounts.
      bind (must (tm_MarshalAuth E (tm_SetAccounts E authGenState accounts))) (\<lambda>authJSON.
      let state = state(tm_AuthModuleName E \<mapsto> authJSON) in
      bind (must (tm_UnmarshalBank E (raw_genesis state (tm_BankModuleName E)))) (\<lambda>bankGenState.
      let bankGenState = bankGenState\<lparr>bank_Balances := tm_SanitizeGenesisBalances E genBalances\<rparr> in
      bind (lift_outcome (add_supply E (bank_Balances bankGenState) (bank_Supply bankGenState))) (\<lambda>sup.
      let bankGenState = bankGenState\<lparr>bank_Supply := sup\<rparr> in
      bind (must (tm_MarshalBank E bankGenState)) (\<lambda>bankJSON.
      let state = state(tm_BankModuleName E \<mapsto> bankJSON) in
      bind (lift_outcome (tm_MarshalIndent E state)) (\<lambda>appGenStateJSON.
      save_genesis_docs E chain appGenStateJSON genFiles n))))))))"

section \<open>Copying the genesis transactions\<close>

text \<open>An error of \<^verbatim>\<open>isSubDir\<close>, like a file already in the directory, leaves the file alone.\<close>

definition copy_gentx ::
  "string outcome \<Rightarrow> init_args \<Rightarrow> int \<Rightarrow> string \<Rightarrow> ('x world, unit) eff" where
  "copy_gentx Getwd args i file =
     (let gentxsDir = filepath_Join [node_dir args i, ''config'', ''gentx''] in
      case isSubDir Getwd file gentxsDir of
        Ok yes \<Rightarrow> if yes then ret () else bind (copyFile file gentxsDir) (\<lambda>_. ret ())
      | Err e \<Rightarrow> ret ()
      | Panic e \<Rightarrow> panic e
      | Exit c \<Rightarrow> (\<lambda>s. (Exit c, s)))"

definition copy_gentxs ::
  "string outcome \<Rightarrow> init_args \<Rightarrow> string list \<Rightarrow> ('x world, unit) eff" where
  "copy_gentxs Getwd args gentxsFiles =
     for_each (\<lambda>i. for_each (copy_gentx Getwd args (int i)) gentxsFiles) [0..<nat (numValidators args)]"

section \<open>Collecting the genesis transactions\<close>

definition collected_config :: "init_args \<Rightarrow> string \<Rightarrow> int \<Rightarrow> node_config \<Rightarrow> node_config" where
  "collected_config args peers i cfg = cfg\<lparr>P2P_PersistentPeers := peers, P2P_AllowDuplicateIP := True,
     P2P_ListenAddress := ''tcp://0.0.0.0:'' @ Itoa (26656 - 3 * i),
     RPC_ListenAddress := ''tcp://127.0.0.1:'' @ port_of args i,
     ProxyApp := ''tcp://127.0.0.1:'' @ Itoa (26658 - 3 * i),
     PrometheusListenAddr := '':'' @ Itoa (26660 + i), Prometheus := True\<rparr>"

text \<open>The loop carries the configuration object and the canonical application state.\<close>

definition collect_step ::
  "('s, 'v) multi_env \<Rightarrow> init_args \<Rightarrow> string list \<Rightarrow> 'v option list \<Rightarrow> string \<Rightarrow> int \<Rightarrow> int \<Rightarrow>
   node_config \<times> bytes option \<Rightarrow> ('s, node_config \<times> bytes option) eff" where
  "collect_step E args nodeIDs valPubKeys peers genTime i acc =
     (case acc of (cfg, appState) \<Rightarrow>
      let nodeDir = node_dir args i;
          gentxsDir = filepath_Join [nodeDir, ''config'', ''gentx''];
          cfg = cfg\<lparr>Moniker := node_name args i, RootDir := nodeDir\<rparr> in
      if length nodeIDs \<le> nat i \<or> length valPubKeys \<le> nat i then panic out_of_range_panic
      else
      bind (tm_AppGenesisFromFile E (tm_GenesisFile E cfg)) (\<lambda>appGenesis.
      bind (tm_GenAppStateFromConfig E cfg (chainID args) gentxsDir (nodeIDs ! nat i)
              (valPubKeys ! nat i) appGenesis) (\<lambda>nodeAppState.
      let cfg = collected_config args peers i cfg in
      bind (tm_WriteNodeConfig E (filepath_Join [RootDir cfg, ''config'', ''config.toml'']) cfg) (\<lambda>_.
      let appState = (if appState = None then nodeAppState else appState) in
      bind (tm_ExportGenesisFileWithTime E (tm_GenesisFile E cfg) (chainID args) appState genTime) (\<lambda>_.
      ret (cfg, appState))))))"

definition collectGenFiles ::
  "('s, 'v) multi_env \<Rightarrow> init_args \<Rightarrow> node_config \<Rightarrow> string list \<Rightarrow> 'v option list \<Rightarrow> string \<Rightarrow>
   ('s, unit) eff" where
  "collectGenFiles E args cfg nodeIDs valPubKeys peers =
     bind (tm_Now E) (\<lambda>genTime.
     bind (fold_m (collect_step E args nodeIDs valPubKeys peers genTime)
             [0..<nat (numValidators args)] (cfg, None)) (\<lambda>_. ret ()))"

section \<open>The command\<close>

definition initial_loop_state ::
  "('s, 'v) multi_env \<Rightarrow> init_args \<Rightarrow> node_config \<Rightarrow> 'v loop_state" where
  "initial_loop_state E args cfg = \<lparr>
     ls_nodeIDs = replicate (nat (numValidators args)) '''',
     ls_valPubKeys = replicate (nat (numValidators args)) None,
     ls_genAccounts = [], ls_genBalances = [], ls_genFiles = [], ls_persistentPeers = '''',
     ls_gentxsFiles = [], ls_nodeConfig = cfg, ls_appConfig = base_app_config E args\<rparr>"

text \<open>What the function does once the chain id is known.\<close>

text \<open>The last steps: the genesis transactions are collected, and the user is told.\<close>

definition finish_testnet ::
  "('x world, 'v) multi_env \<Rightarrow> init_args \<Rightarrow> 'v loop_state \<Rightarrow> ('x world, unit) eff" where
  "finish_testnet E args st =
     bind (collectGenFiles E args (ls_nodeConfig st) (ls_nodeIDs st) (ls_valPubKeys st)
             (ls_persistentPeers st)) (\<lambda>_.
     discard (tm_PrintErr E (''Successfully initialized '' @ Itoa (numValidators args)
             @ '' node directories'')))"

definition write_testnet ::
  "sdk_lib \<Rightarrow> ('x world, 'v) multi_env \<Rightarrow> string outcome \<Rightarrow> node_config \<Rightarrow> init_args \<Rightarrow>
   ('x world, unit) eff" where
  "write_testnet L E Getwd nodeConfig args =
     (if numValidators args < 0 then panic (Error_text ''runtime error: makeslice: len out of range'')
      else
      bind (fold_m (node_step L E args) [0..<nat (numValidators args)]
             (initial_loop_state E args nodeConfig)) (\<lambda>st.
      bind (initGenFiles E (chainID args) (ls_genAccounts st) (ls_genBalances st) (ls_genFiles st)
             (numValidators args)) (\<lambda>_.
      bind (copy_gentxs Getwd args (ls_gentxsFiles st)) (\<lambda>_.
      finish_testnet E args st))))"

definition initTestnetFiles ::
  "sdk_lib \<Rightarrow> ('x world, 'v) multi_env \<Rightarrow> string outcome \<Rightarrow> node_config \<Rightarrow> init_args \<Rightarrow>
   ('x world, unit) eff" where
  "initTestnetFiles L E Getwd nodeConfig args =
     bind (if chainID args = '''' then
             bind (generateRandomString E 6) (\<lambda>r. ret (args\<lparr>chainID := ''chain-'' @ r\<rparr>))
           else ret args)
       (write_testnet L E Getwd nodeConfig)"

end
