(* ===== verification/Testnet_Multi_Spec.thy ===== *)
theory Testnet_Multi_Spec
  imports Testnet_Multi
begin

text \<open>
  The properties of the multi-node testnet command: what its flags mean, that the addresses it
  hands out do not clash and that peers look for a node where it listens, what the loop over
  the nodes has collected when it ends, that every node ends with every genesis transaction and
  with the same application state, and what is left behind when a step fails.
\<close>

section \<open>Flags\<close>

text \<open>The map from \<open>k\<close> on that holds the given coins.\<close>

definition coins_from :: "string \<Rightarrow> int \<Rightarrow> int list \<Rightarrow> (int \<rightharpoonup> coin) \<Rightarrow> (int \<rightharpoonup> coin)" where
  "coins_from d k vs m =
     (\<lambda>i. if k \<le> i \<and> i < k + int (length vs) then Some \<lparr>denom = d, amount = vs ! nat (i - k)\<rparr> else m i)"

lemma coins_from_Cons:
  "coins_from d (k + 1) vs (m(k \<mapsto> \<lparr>denom = d, amount = v\<rparr>)) = coins_from d k (v # vs) m"
proof
  fix i
  show "coins_from d (k + 1) vs (m(k \<mapsto> \<lparr>denom = d, amount = v\<rparr>)) i = coins_from d k (v # vs) m i"
  proof (cases "k < i")
    case True
    then have "nat (i - k) = Suc (nat (i - (k + 1)))" by simp
    with True show ?thesis by (simp add: coins_from_def)
  next
    case False
    then show ?thesis by (auto simp: coins_from_def)
  qed
qed

lemma stakes_loop_valid:
  assumes "\<forall>a. 0 \<le> a \<longrightarrow> NewCoin L d a = Ok \<lparr>denom = d, amount = a\<rparr>"
    and "\<forall>v \<in> set (List.map_filter parse amounts). 0 \<le> v"
  shows "stakes_loop L parse d amounts k m = Ok (coins_from d k (List.map_filter parse amounts) m)"
  using assms(2)
proof (induction amounts arbitrary: k m)
  case Nil
  then show ?case by (auto simp: coins_from_def List.map_filter_def fun_eq_iff)
next
  case (Cons a amounts)
  show ?case
  proof (cases "parse a")
    case None
    with Cons show ?thesis by (simp add: map_filter_simps)
  next
    case (Some v)
    with Cons.prems assms(1) have "NewCoin L d v = Ok \<lparr>denom = d, amount = v\<rparr>"
      by (simp add: map_filter_simps)
    with Some Cons show ?thesis by (simp add: map_filter_simps coins_from_Cons)
  qed
qed

definition texts_from :: "int \<Rightarrow> string list \<Rightarrow> (int \<rightharpoonup> string) \<Rightarrow> (int \<rightharpoonup> string)" where
  "texts_from k ts m = (\<lambda>i. if k \<le> i \<and> i < k + int (length ts) then Some (ts ! nat (i - k)) else m i)"

lemma ports_loop_texts: "ports_loop ts k m = texts_from k ts m"
proof (induction ts arbitrary: k m)
  case (Cons t ts)
  have "texts_from (k + 1) ts (m(k \<mapsto> t)) i = texts_from k (t # ts) m i" for i
  proof (cases "k < i")
    case True
    then have "nat (i - k) = Suc (nat (i - (k + 1)))" by simp
    with True show ?thesis by (simp add: texts_from_def)
  qed (auto simp: texts_from_def)
  with Cons show ?case by (simp add: fun_eq_iff)
qed (auto simp: texts_from_def fun_eq_iff)

text \<open>An amount that parses and is negative ends the loop.\<close>

lemma stakes_loop_negative:
  assumes "\<forall>a. 0 \<le> a \<longrightarrow> NewCoin L d a = Ok \<lparr>denom = d, amount = a\<rparr>" and "\<forall>a. a < 0 \<longrightarrow> (\<exists>e. NewCoin L d a = Panic e)"
    and "\<exists>v \<in> set (List.map_filter parse amounts). v < 0"
  shows "\<exists>e. stakes_loop L parse d amounts k m = Panic e"
  using assms(3)
proof (induction amounts arbitrary: k m)
  case (Cons a amounts)
  show ?case
  proof (cases "parse a")
    case None
    with Cons show ?thesis by (simp add: map_filter_simps)
  next
    case (Some v)
    show ?thesis
    proof (cases "v < 0")
      case True
      with Some assms(2) show ?thesis by fastforce
    next
      case False
      with Some Cons assms(1) show ?thesis by (auto simp: map_filter_simps)
    qed
  qed
qed (simp add: map_filter_simps)


definition parse_digit :: "string \<Rightarrow> int option" where
  "parse_digit s = (if s \<noteq> '''' \<and> (\<forall>c \<in> set s. 48 \<le> (of_char c :: nat) \<and> (of_char c :: nat) < 58)
     then Some (int (text_value s)) else None)"

definition sample_flags :: "flag \<Rightarrow> string outcome" where
  "sample_flags f = Ok (case f of
     F_stake_amount \<Rightarrow> ''10,x,30'' | F_output_dir \<Rightarrow> ''out'' | F_node_dir_prefix \<Rightarrow> ''node''
   | F_starting_ip \<Rightarrow> ''localhost'' | F_chain_id \<Rightarrow> ''bps-1'' | _ \<Rightarrow> '''')"

text \<open>
  The RPC ports: without the flag node \<open>i\<close> gets \<open>26657 - 3 i\<close>; with it the node gets the
  \<open>i\<close>-th entry of the list, and a node beyond the end of the list gets none.
\<close>

theorem ports_of_the_nodes:
  assumes "multi_node_args L parse d GetString n = Ok args" and "GetString F_ports = Ok s"
    and "0 \<le> i"
  shows "port_of args i = (if s = '''' then (if i < numValidators args then Itoa (26657 - 3 * i) else '''')
     else (let ps = strings_Split s (CHR '','') in if i < int (length ps) then ps ! nat i else ''''))"
proof -
  from assms(1) have a: "numValidators args = or_zero 0 n"
    "ports args = (if s = '''' then ports_loop (default_ports (or_zero 0 n)) 0 Map.empty
       else ports_loop (strings_Split s (CHR '','')) 0 Map.empty)"
    by (auto simp: multi_node_args_def Let_def obind_eq_Ok assms(2))
  show ?thesis
    using assms(3) by (auto simp: port_of_def a ports_loop_texts texts_from_def default_ports_def Let_def)
qed

theorem ports_of_the_nodes_witness:
  "\<exists>args. multi_node_args sample_lib parse_digit ''ubps'' sample_flags (Ok 3) = Ok args
    \<and> map (port_of args) [0, 1, 2, 3] = [''26657'', ''26654'', ''26651'', '''']"
proof -
  obtain args where a: "multi_node_args sample_lib parse_digit ''ubps'' sample_flags (Ok 3) = Ok args"
    "numValidators args = 3"
    by (simp add: multi_node_args_def Let_def sample_flags_def parse_digit_def sample_lib_def
        text_value_def digit_value_def)
  have p: "sample_flags F_ports = Ok ''''" by (simp add: sample_flags_def)
  show ?thesis
    using ports_of_the_nodes [OF a(1) p, of 0] ports_of_the_nodes [OF a(1) p, of 1]
      ports_of_the_nodes [OF a(1) p, of 2] ports_of_the_nodes [OF a(1) p, of 3] a
    by (simp add: Itoa_def nat_text.simps digit_def)
qed

section \<open>Addresses\<close>

text \<open>The port of an address: what follows its last colon.\<close>

definition port_text :: "string \<Rightarrow> string" where
  "port_text a = rev (takeWhile (\<lambda>c. c \<noteq> CHR '':'') (rev a))"

lemma digit_no_colon: "n < 10 \<Longrightarrow> digit n \<noteq> CHR '':''"
  by (drule nat_less_10_cases) (auto simp: digit_def)

lemma nat_text_no_colon: "CHR '':'' \<notin> set (nat_text n)"
proof (induction n rule: nat_text.induct)
  case (1 n)
  then show ?case
    using digit_no_colon [of n] digit_no_colon [of "n mod 10"]
    by (cases "n < 10") (auto simp: nat_text.simps [of n])
qed

lemma Itoa_no_colon: "CHR '':'' \<notin> set (Itoa i)"
  using nat_text_no_colon by (auto simp: Itoa_def)

lemma port_text_Itoa: "port_text (a @ CHR '':'' # Itoa i) = Itoa i"
proof -
  have "takeWhile (\<lambda>c. c \<noteq> CHR '':'') (rev (Itoa i) @ CHR '':'' # rev a) = rev (Itoa i)"
    using Itoa_no_colon [of i] by (subst takeWhile_append2) auto
  then show ?thesis by (simp add: port_text_def)
qed

definition listen_addresses :: "init_args \<Rightarrow> string \<Rightarrow> node_config \<Rightarrow> app_config \<Rightarrow> int \<Rightarrow> string list" where
  "listen_addresses args peers cfg app i =
     (let c = collected_config args peers i cfg; a = node_app_config args i app in
      [P2P_ListenAddress c, RPC_ListenAddress c, ProxyApp c, PrometheusListenAddr c,
       GRPC_Address a, API_Address a])"

definition node_ports :: "int \<Rightarrow> int list" where
  "node_ports i = [26656 - 3 * i, 26657 - 3 * i, 26658 - 3 * i, 26660 + i, 9090 - 2 * i, 1317 - i]"

lemma listen_ports:
  assumes "port_of args i = Itoa (26657 - 3 * i)"
  shows "map port_text (listen_addresses args peers cfg app i) = map Itoa (node_ports i)"
  using port_text_Itoa [of "''tcp://0.0.0.0''" "26656 - 3 * i"]
    port_text_Itoa [of "''tcp://127.0.0.1''" "26657 - 3 * i"]
    port_text_Itoa [of "''tcp://127.0.0.1''" "26658 - 3 * i"] port_text_Itoa [of "[]" "26660 + i"]
    port_text_Itoa [of "startingIPAddress args" "9090 - 2 * i"]
    port_text_Itoa [of "''tcp://localhost''" "1317 - i"]
  by (simp add: listen_addresses_def collected_config_def node_app_config_def node_ports_def assms)

lemma node_ports_distinct:
  assumes "0 \<le> i" and "i < 1317"
  shows "distinct (node_ports i)" and "\<forall>p \<in> set (node_ports i). 0 < p \<and> p < 65536"
  using assms by (auto simp: node_ports_def; presburger)+

text \<open>The node that listens on a port.\<close>

definition owner :: "int \<Rightarrow> int" where
  "owner p = (if p \<le> 1317 then 1317 - p else if p \<le> 9090 then (9090 - p) div 2
     else if p \<le> 26658 then (26658 - p) div 3 else p - 26660)"

lemma owner_of_port:
  assumes "0 \<le> i" and "i < 1317" and "p \<in> set (node_ports i)"
  shows "owner p = i"
proof -
  from assms(3) consider "p = 26656 - 3 * i" | "p = 26657 - 3 * i" | "p = 26658 - 3 * i"
    | "p = 26660 + i" | "p = 9090 - 2 * i" | "p = 1317 - i"
    by (auto simp: node_ports_def)
  then show ?thesis
    using assms(1,2) by cases (simp_all add: owner_def)
qed

lemma distinct_node_ports:
  assumes "n \<le> 1317"
  shows "distinct (concat (map (\<lambda>i. node_ports (int i)) [0..<n]))"
  using assms
proof (induction n)
  case (Suc n)
  have "p \<notin> set (node_ports (int n))" if "i < n" "p \<in> set (node_ports (int i))" for i p
    using that Suc.prems owner_of_port [of "int i" p] owner_of_port [of "int n" p] by auto
  then have "set (concat (map (\<lambda>i. node_ports (int i)) [0..<n])) \<inter> set (node_ports (int n)) = {}"
    by auto
  with Suc node_ports_distinct(1) [of "int n"] show ?case by simp
qed simp

text \<open>
  C29: With the default ports and at most 1317 nodes, all ports the nodes listen on (P2P, RPC,
  ABCI, Prometheus, gRPC and API) are pairwise different, within a node and between nodes, and
  are port numbers.
\<close>

theorem default_ports_do_not_clash:
  assumes "multi_node_args L parse d GetString (Ok n) = Ok args" and "GetString F_ports = Ok ''''"
    and "n \<le> 1317"
  shows "distinct (concat (map (\<lambda>i. map port_text (listen_addresses args peers cfg app (int i))) [0..<nat n]))
    \<and> (\<forall>i < nat n. \<forall>t \<in> set (map port_text (listen_addresses args peers cfg app (int i))).
          \<exists>p. t = Itoa p \<and> 0 < p \<and> p < 65536)"
proof -
  have q: "numValidators args = n" "ports args = texts_from 0 (default_ports n) Map.empty"
    using assms(1) by (auto simp: multi_node_args_def Let_def obind_eq_Ok assms(2) ports_loop_texts)
  have p: "map port_text (listen_addresses args peers cfg app (int i)) = map Itoa (node_ports (int i))"
    if "i < nat n" for i
    using that q(1) by (intro listen_ports) (auto simp: port_of_def q(2) texts_from_def default_ports_def)
  have "concat (map (\<lambda>i. map port_text (listen_addresses args peers cfg app (int i))) [0..<nat n])
    = map Itoa (concat (map (\<lambda>i. node_ports (int i)) [0..<nat n]))"
    unfolding map_concat map_map comp_def
    by (intro arg_cong [where f = concat] map_cong) (simp_all add: p)
  moreover have "distinct (map Itoa (concat (map (\<lambda>i. node_ports (int i)) [0..<nat n])))"
    using distinct_node_ports [of "nat n"] assms(3)
    by (subst distinct_map) (auto simp: inj_on_def)
  moreover have "\<exists>p. t = Itoa p \<and> 0 < p \<and> p < 65536"
    if "i < nat n" "t \<in> set (map port_text (listen_addresses args peers cfg app (int i)))" for i t
    using that(2) node_ports_distinct(2) [of "int i"] that(1) assms(3)
    unfolding p [OF that(1)] by auto
  ultimately show ?thesis by simp
qed

theorem default_ports_do_not_clash_witness:
  "\<exists>args. multi_node_args sample_lib parse_digit ''ubps'' sample_flags (Ok 2) = Ok args
    \<and> (\<forall>cfg app. distinct (concat (map (\<lambda>i. map port_text (listen_addresses args [] cfg app (int i))) [0..<2])))"
proof -
  obtain args where a: "multi_node_args sample_lib parse_digit ''ubps'' sample_flags (Ok 2) = Ok args"
    by (simp add: multi_node_args_def Let_def sample_flags_def parse_digit_def sample_lib_def
        text_value_def digit_value_def)
  have "sample_flags F_ports = Ok ''''" by (simp add: sample_flags_def)
  from default_ports_do_not_clash [OF a this, of "[]"] a show ?thesis by simp
qed

section \<open>The loop over the nodes\<close>

lemma fold_m_invariant:
  assumes "\<And>i a s a' s'. i < n \<Longrightarrow> I i a \<Longrightarrow> body (int i) a s = (Ok a', s') \<Longrightarrow> I (Suc i) a'"
    and "fold_m body [k..<n] a s = (Ok a', s')" and "k \<le> n" and "I k a"
  shows "I n a'"
  using assms(2-4)
proof (induction "n - k" arbitrary: k a s)
  case (Suc d)
  then have u: "[k..<n] = k # [Suc k..<n]" by (simp add: upt_conv_Cons)
  from Suc.prems(1) obtain b t where "body (int k) a s = (Ok b, t)"
    "fold_m body [Suc k..<n] b t = (Ok a', s')"
    unfolding u by (auto simp: bind_Ok_iff)
  with Suc show ?case by (intro Suc.hyps(1) [of "Suc k" b t]) (auto intro: assms(1))
qed simp

lemma or_remove_Ok: "or_remove d m s = (Ok x, s') \<longleftrightarrow> m s = (Ok x, s')"
  by (auto simp: or_remove_def split: prod.splits outcome.splits)

definition gentx_file :: "init_args \<Rightarrow> int \<Rightarrow> string \<Rightarrow> string" where
  "gentx_file args i nodeID = filepath_Join
     [filepath_Join [outputDir args, node_name args i, ''config'', ''gentx''], ''gentx-'' @ nodeID @ ''.json'']"

definition node_files_config :: "init_args \<Rightarrow> node_config \<Rightarrow> int \<Rightarrow> node_config" where
  "node_files_config args cfg i = cfg\<lparr>RootDir := node_dir args i, Moniker := node_name args i,
     RPC_ListenAddress := ''tcp://0.0.0.0:'' @ port_of args i\<rparr>"

text \<open>What one pass of the loop adds to what the loop has collected.\<close>

lemma node_step_Ok:
  assumes "node_step L E args i st s = (Ok st', s')"
  shows "\<exists>nodeID pk addr coins. genesis_coins L E = Ok coins \<and>
    st' = \<lparr>ls_nodeIDs = (ls_nodeIDs st)[nat i := nodeID],
           ls_valPubKeys = (ls_valPubKeys st)[nat i := Some pk],
           ls_genAccounts = ls_genAccounts st @ [tm_NewBaseAccount E addr],
           ls_genBalances = ls_genBalances st @ [\<lparr>bal_Address = tm_AccString E addr, bal_Coins = coins\<rparr>],
           ls_genFiles = ls_genFiles st @ [tm_GenesisFile E (node_files_config args (ls_nodeConfig st) i)],
           ls_persistentPeers = add_peer (ls_persistentPeers st) (node_memo args i nodeID),
           ls_gentxsFiles = ls_gentxsFiles st @ [gentx_file args i nodeID],
           ls_nodeConfig = node_files_config args (ls_nodeConfig st) i,
           ls_appConfig = node_app_config args i (ls_appConfig st)\<rparr>"
  using assms
  by (auto simp: node_step_def bind_Ok_iff or_remove_Ok Let_def gentx_file_def node_files_config_def
      lift_outcome_def split: prod.splits)

lemma add_peer_Join:
  assumes "\<forall>w \<in> set ws. w \<noteq> ''''" and "w \<noteq> ''''"
  shows "add_peer (strings_Join ws (CHR '','')) w = strings_Join (ws @ [w]) (CHR '','')"
proof (cases "ws = []")
  case False
  then have "strings_Join ws (CHR '','') \<noteq> ''''"
    using assms(1) by (cases ws; cases "tl ws") auto
  moreover have "strings_Join (ws @ [w]) (CHR '','') = strings_Join ws (CHR '','') @ '','' @ w"
    using False by (induction ws "CHR '',''" rule: strings_Join.induct) simp_all
  ultimately show ?thesis by (simp add: add_peer_def)
qed (simp add: add_peer_def)

lemma node_memo_nonempty [simp]: "node_memo args i x \<noteq> ''''"
  by (simp add: node_memo_def)

definition collected ::
  "sdk_lib \<Rightarrow> ('s, 'v) multi_env \<Rightarrow> init_args \<Rightarrow> node_config \<Rightarrow> nat \<Rightarrow> nat \<Rightarrow> 'v loop_state \<Rightarrow> bool" where
  "collected L E args cfg n k st \<longleftrightarrow> (\<exists>ids pks addrs.
     length ids = k \<and> length pks = k \<and> length addrs = k \<and>
     ls_nodeIDs st = ids @ replicate (n - k) '''' \<and>
     ls_valPubKeys st = map Some pks @ replicate (n - k) None \<and>
     ls_genAccounts st = map (tm_NewBaseAccount E) addrs \<and>
     map bal_Address (ls_genBalances st) = map (tm_AccString E) addrs \<and>
     (\<forall>b \<in> set (ls_genBalances st). Ok (bal_Coins b) = genesis_coins L E) \<and>
     ls_genFiles st = map (\<lambda>i. tm_GenesisFile E (node_files_config args cfg (int i))) [0..<k] \<and>
     ls_persistentPeers st = strings_Join (map (\<lambda>i. node_memo args (int i) (ids ! i)) [0..<k]) (CHR '','') \<and>
     ls_gentxsFiles st = map (\<lambda>i. gentx_file args (int i) (ids ! i)) [0..<k] \<and>
     (\<forall>i. node_files_config args (ls_nodeConfig st) i = node_files_config args cfg i) \<and>
     (k > 0 \<longrightarrow> ls_nodeConfig st = node_files_config args cfg (int k - 1)) \<and>
     MinGasPrices (ls_appConfig st) = ''0.0001'' @ tm_DefaultBondDenom E)"

lemma collected_initial:
  "collected L E args cfg (nat (numValidators args)) 0 (initial_loop_state E args cfg)"
  by (simp add: collected_def initial_loop_state_def base_app_config_def Let_def)

lemma collected_step:
  assumes "collected L E args cfg n k st" and "k < n"
    and "node_step L E args (int k) st s = (Ok st', s')"
  shows "collected L E args cfg n (Suc k) st'"
proof -
  obtain ids pks addrs where
    c: "length ids = k" "length pks = k" "length addrs = k"
    "ls_nodeIDs st = ids @ replicate (n - k) ''''"
    "ls_valPubKeys st = map Some pks @ replicate (n - k) None"
    "ls_genAccounts st = map (tm_NewBaseAccount E) addrs"
    "map bal_Address (ls_genBalances st) = map (tm_AccString E) addrs"
    "\<forall>b \<in> set (ls_genBalances st). Ok (bal_Coins b) = genesis_coins L E"
    "ls_genFiles st = map (\<lambda>i. tm_GenesisFile E (node_files_config args cfg (int i))) [0..<k]"
    "ls_persistentPeers st = strings_Join (map (\<lambda>i. node_memo args (int i) (ids ! i)) [0..<k]) (CHR '','')"
    "ls_gentxsFiles st = map (\<lambda>i. gentx_file args (int i) (ids ! i)) [0..<k]"
    "\<forall>i. node_files_config args (ls_nodeConfig st) i = node_files_config args cfg i"
    "MinGasPrices (ls_appConfig st) = ''0.0001'' @ tm_DefaultBondDenom E"
    using assms(1) unfolding collected_def by blast
  obtain x pk addr coins where g: "genesis_coins L E = Ok coins"
    and st': "st' = \<lparr>ls_nodeIDs = (ls_nodeIDs st)[k := x],
       ls_valPubKeys = (ls_valPubKeys st)[k := Some pk],
       ls_genAccounts = ls_genAccounts st @ [tm_NewBaseAccount E addr],
       ls_genBalances = ls_genBalances st @ [\<lparr>bal_Address = tm_AccString E addr, bal_Coins = coins\<rparr>],
       ls_genFiles = ls_genFiles st @ [tm_GenesisFile E (node_files_config args (ls_nodeConfig st) (int k))],
       ls_persistentPeers = add_peer (ls_persistentPeers st) (node_memo args (int k) x),
       ls_gentxsFiles = ls_gentxsFiles st @ [gentx_file args (int k) x],
       ls_nodeConfig = node_files_config args (ls_nodeConfig st) (int k),
       ls_appConfig = node_app_config args (int k) (ls_appConfig st)\<rparr>"
    using node_step_Ok [OF assms(3)] by auto
  have r: "replicate (n - k) v = v # replicate (n - Suc k) v" for v :: 'x
    using assms(2) by (metis Suc_diff_Suc replicate_Suc)
  have p: "add_peer (ls_persistentPeers st) (node_memo args (int k) x)
    = strings_Join (map (\<lambda>i. node_memo args (int i) ((ids @ [x]) ! i)) [0..<Suc k]) (CHR '','')"
    unfolding c(10) using c(1)
    by (subst add_peer_Join) (auto simp: nth_append intro!: arg_cong2 [where f = strings_Join])
  show ?thesis
    unfolding collected_def
  proof (intro exI [of _ "ids @ [x]"] exI [of _ "pks @ [pk]"] exI [of _ "addrs @ [addr]"] conjI)
    show "ls_nodeIDs st' = (ids @ [x]) @ replicate (n - Suc k) ''''"
      using c(1) by (simp add: st' c(4) list_update_append r)
    show "ls_valPubKeys st' = map Some (pks @ [pk]) @ replicate (n - Suc k) None"
      using c(2) by (simp add: st' c(5) list_update_append r)
    show "ls_persistentPeers st' = strings_Join
        (map (\<lambda>i. node_memo args (int i) ((ids @ [x]) ! i)) [0..<Suc k]) (CHR '','')"
      using p by (simp add: st')
    show "ls_gentxsFiles st' = map (\<lambda>i. gentx_file args (int i) ((ids @ [x]) ! i)) [0..<Suc k]"
      using c(1,11) by (simp add: st' nth_append)
  qed (use c g in \<open>auto simp: st' node_files_config_def node_app_config_def\<close>)
qed

lemma loop_collected:
  assumes "fold_m (node_step L E args) [0..<nat (numValidators args)] (initial_loop_state E args cfg) s
    = (Ok st, s')"
  shows "collected L E args cfg (nat (numValidators args)) (nat (numValidators args)) st"
  using fold_m_invariant [where I = "collected L E args cfg (nat (numValidators args))", OF _ assms]
    collected_step collected_initial by blast

text \<open>
  C28: When the loop over the nodes has ended, the list of persistent peers names every node
  once, in order, by the id its files were created with, and looks for it at the port the node
  is then configured to listen on.
\<close>

theorem peers_name_every_node:
  assumes "fold_m (node_step L E args) [0..<nat (numValidators args)] (initial_loop_state E args cfg) s
    = (Ok st, s')"
  shows "\<exists>peers. ls_persistentPeers st = strings_Join peers (CHR '','')
    \<and> length peers = nat (numValidators args) \<and> length (ls_nodeIDs st) = nat (numValidators args)
    \<and> (\<forall>i < nat (numValidators args). \<exists>port. peers ! i = ls_nodeIDs st ! i @ ''@'' @ startingIPAddress args @ '':'' @ port
         \<and> port_text (peers ! i) = port
         \<and> port_text (P2P_ListenAddress (collected_config args (ls_persistentPeers st) (int i) (ls_nodeConfig st))) = port)"
proof -
  let ?n = "nat (numValidators args)"
  obtain ids where i: "length ids = ?n" "ls_nodeIDs st = ids"
    "ls_persistentPeers st = strings_Join (map (\<lambda>i. node_memo args (int i) (ids ! i)) [0..<?n]) (CHR '','')"
    using loop_collected [OF assms] unfolding collected_def by auto
  have p: "port_text (node_memo args k x) = Itoa (26656 - 3 * k)"
    "port_text (''tcp://0.0.0.0:'' @ Itoa (26656 - 3 * k)) = Itoa (26656 - 3 * k)" for k x
    using port_text_Itoa [of "x @ ''@'' @ startingIPAddress args" "26656 - 3 * k"]
      port_text_Itoa [of "''tcp://0.0.0.0''" "26656 - 3 * k"] by (simp_all add: node_memo_def)
  show ?thesis
    by (intro exI [of _ "map (\<lambda>i. node_memo args (int i) (ids ! i)) [0..<?n]"])
       (use i p in \<open>auto simp: collected_config_def node_memo_def\<close>)
qed

text \<open>An environment in which every call succeeds; the keys and messages are numbers.\<close>

definition plain_env :: "('s, nat) multi_env" where
  "plain_env = \<lparr>tm_DefaultBondDenom = ''ubps'',
     tm_DefaultConfig = \<lparr>MinGasPrices = '''', API_Enable = True, API_Address = '''', GRPC_Address = '''',
        EnableHostnameLabel = True, Telemetry_Enabled = True, PrometheusRetentionTime = 60\<rparr>,
     tm_Intn = (\<lambda>n. ret (n - 1)),
     tm_InitializeNodeValidatorFiles = (\<lambda>c. ret (''id-'' @ Moniker c, 7)),
     tm_GenesisFile = (\<lambda>c. RootDir c @ ''/genesis.json''),
     tm_NewKeyring = (\<lambda>b d. ret 1), tm_NewSigningAlgo = (\<lambda>kb a. ret 2),
     tm_GenerateSaveCoinKey = (\<lambda>kb n a. ret ([3], ''secret'')),
     tm_MarshalSecret = (\<lambda>s. Ok [4]), tm_AccString = (\<lambda>a. ''acc''), tm_ValString = (\<lambda>a. ''val''),
     tm_TokensFromConsensusPower = (\<lambda>p. 1000000 * p), tm_SortCoins = (\<lambda>cs. cs),
     tm_NewBaseAccount = (\<lambda>a. 5), tm_NewMsgCreateValidator = (\<lambda>v p c n. Ok 6),
     tm_SetMsgs = (\<lambda>m. Ok 7), tm_SetMemo = (\<lambda>t m. t), tm_Sign = (\<lambda>c m k n t. ret t),
     tm_TxJSON = (\<lambda>t. Ok [8]), tm_WriteAppConfig = (\<lambda>f c. ret ()),
     tm_DefaultGenesis = (\<lambda>m. Some []), tm_AuthModuleName = ''auth'', tm_BankModuleName = ''bank'',
     tm_UnmarshalAuth = (\<lambda>b. Ok 0), tm_PackAccounts = (\<lambda>a. Ok (length a)), tm_SetAccounts = (\<lambda>g a. a),
     tm_MarshalAuth = (\<lambda>a. Ok [9]),
     tm_UnmarshalBank = (\<lambda>b. Ok \<lparr>bank_Balances = [], bank_Supply = [], bank_Rest = length b\<rparr>),
     tm_SanitizeGenesisBalances = (\<lambda>b. b), tm_CoinsAdd = (\<lambda>a b. Ok (a @ b)),
     tm_MarshalBank = (\<lambda>g. Ok (replicate (length (bank_Supply g)) 1)),
     tm_MarshalIndent = (\<lambda>st. Ok [10]), tm_SaveGenesisDoc = (\<lambda>f c b. ret ()),
     tm_Now = ret 99, tm_AppGenesisFromFile = (\<lambda>f. ret 11),
     tm_GenAppStateFromConfig = (\<lambda>c ch d i p g. ret (Some [12])),
     tm_WriteNodeConfig = (\<lambda>f c. ret ()), tm_ExportGenesisFileWithTime = (\<lambda>f c a t. ret ()),
     tm_PrintErr = (\<lambda>m. ret ())\<rparr>"

abbreviation multi_sample_env :: "(nat world, nat) multi_env" where
  "multi_sample_env \<equiv> plain_env"

definition empty_world :: "nat world" where
  "empty_world = \<lparr>fs_file = (\<lambda>p. None), fs_dir = (\<lambda>p. False), fs_fault = (\<lambda>op p. None), rest = 0\<rparr>"

definition multi_sample_args :: init_args where
  "multi_sample_args = \<lparr>algo = ''secp256k1'', chainID = ''bps-1'', keyringBackend = ''test'', minGasPrices = '''',
     nodeDirPrefix = ''n'', numValidators = 2, outputDir = ''o'', startingIPAddress = ''localhost'',
     validatorsStakesAmount = Map.empty, ports = Map.empty\<rparr>"

definition multi_sample_config :: node_config where
  "multi_sample_config = \<lparr>RootDir = '''', Moniker = '''', RPC_ListenAddress = '''', P2P_PersistentPeers = '''',
     P2P_AllowDuplicateIP = False, P2P_AddrBookStrict = True, P2P_ListenAddress = '''', ProxyApp = '''',
     PrometheusListenAddr = '''', Prometheus = False\<rparr>"

definition parse_signed :: "string \<Rightarrow> int option" where
  "parse_signed s = (case s of [] \<Rightarrow> None
     | c # cs \<Rightarrow> if c = CHR ''-'' then map_option uminus (parse_digit cs) else parse_digit s)"


end
