(* ===== verification/Chain_Config.thy ===== *)
theory Chain_Config
  imports Testnet_Multi_Spec App_Config
begin

text \<open>
  The values the chain is configured with: \<^verbatim>\<open>app/config.go\<close> (bond denomination and address
  prefixes), \<^verbatim>\<open>cmd/bpsd/cmd/config.go\<close> (the defaults of the node and of the application
  configuration), and the validation of a genesis account, \<^verbatim>\<open>app/genesis_account.go\<close>.
\<close>

section \<open>Bond denomination and address prefixes\<close>

text \<open>
  What \<^verbatim>\<open>app.go\<close> sets when the process starts: the prefix of the environment variables, and the home
  directory, which the SDK may read from such a variable.
\<close>

definition app_init :: "(string \<Rightarrow> string \<Rightarrow> ('s, string) eff) \<Rightarrow> ('s, string \<times> string) eff" where
  "app_init GetNodeHomeDirectory =
     (let EnvPrefix = Name in
      bind (or_panic (GetNodeHomeDirectory EnvPrefix (''.'' @ Name))) (\<lambda>DefaultNodeHome.
      ret (EnvPrefix, DefaultNodeHome)))"

text \<open>The SDK's package variable and its global configuration, over the state \<open>'s\<close>.\<close>

record 's config_env =
  Set_DefaultBondDenom :: "string \<Rightarrow> ('s, unit) eff"
  SetCoinType :: "nat \<Rightarrow> ('s, unit) eff"
  SetBech32PrefixForAccount :: "string \<Rightarrow> string \<Rightarrow> ('s, unit) eff"
  SetBech32PrefixForValidator :: "string \<Rightarrow> string \<Rightarrow> ('s, unit) eff"
  SetBech32PrefixForConsensusNode :: "string \<Rightarrow> string \<Rightarrow> ('s, unit) eff"
  Seal :: "('s, unit) eff"

definition config_init :: "'s config_env \<Rightarrow> ('s, unit) eff" where
  "config_init C =
     bind (Set_DefaultBondDenom C ''ubps'') (\<lambda>_.
     let accountPubKeyPrefix = AccountAddressPrefix @ ''pub'';
         validatorAddressPrefix = AccountAddressPrefix @ ''valoper'';
         validatorPubKeyPrefix = AccountAddressPrefix @ ''valoperpub'';
         consNodeAddressPrefix = AccountAddressPrefix @ ''valcons'';
         consNodePubKeyPrefix = AccountAddressPrefix @ ''valconspub'' in
     bind (SetCoinType C ChainCoinType) (\<lambda>_.
     bind (SetBech32PrefixForAccount C AccountAddressPrefix accountPubKeyPrefix) (\<lambda>_.
     bind (SetBech32PrefixForValidator C validatorAddressPrefix validatorPubKeyPrefix) (\<lambda>_.
     bind (SetBech32PrefixForConsensusNode C consNodeAddressPrefix consNodePubKeyPrefix) (\<lambda>_.
     Seal C)))))"

section \<open>Default configurations of the daemon\<close>

definition initCometBFTConfig :: "node_config \<Rightarrow> node_config" where
  "initCometBFTConfig DefaultConfig =
     (let cfg = DefaultConfig;
          cfg = cfg\<lparr>P2P_AddrBookStrict := True\<rparr>
      in cfg\<lparr>P2P_AllowDuplicateIP := False\<rparr>)"

definition initAppConfig :: "string \<Rightarrow> app_config \<Rightarrow> string \<times> app_config" where
  "initAppConfig DefaultConfigTemplate DefaultConfig =
     (let srvCfg = DefaultConfig\<lparr>MinGasPrices := ''0.0001ubps''\<rparr> in
      (DefaultConfigTemplate, srvCfg))"

section \<open>Genesis accounts\<close>

record 'b genesis_account =
  BaseAccount :: 'b
  OriginalVesting :: "coin list"
  DelegatedFree :: "coin list"
  DelegatedVesting :: "coin list"
  StartTime :: int
  EndTime :: int
  GA_ModuleName :: string
  GA_ModulePermissions :: "string list"

record 'b account_lib =
  Coins_IsZero :: "coin list \<Rightarrow> bool"
  ModuleAccount_Validate :: "'b \<Rightarrow> string \<Rightarrow> string list \<Rightarrow> unit outcome"
  BaseAccount_Validate :: "'b \<Rightarrow> unit outcome"

definition GenesisAccount_Validate :: "'b account_lib \<Rightarrow> 'b genesis_account \<Rightarrow> unit outcome" where
  "GenesisAccount_Validate A sga =
     obind (if \<not> Coins_IsZero A (OriginalVesting sga) then
              (if StartTime sga \<ge> EndTime sga
               then Err (Error_text ''vesting start-time cannot be before end-time'') else Ok ())
            else Ok ()) (\<lambda>_.
     obind (if GA_ModuleName sga \<noteq> ''''
            then ModuleAccount_Validate A (BaseAccount sga) (GA_ModuleName sga) (GA_ModulePermissions sga)
            else Ok ()) (\<lambda>_.
     BaseAccount_Validate A (BaseAccount sga)))"

section \<open>Properties\<close>

text \<open>
  A genesis account is valid exactly when its vesting period, if anything vests, begins
  before it ends, its module account, if it names a module, is valid, and its base account is.
  A period that begins when or after it ends is reported first, whatever else is wrong.
\<close>

theorem valid_genesis_accounts:
  "(GenesisAccount_Validate A sga = Ok () \<longleftrightarrow>
      (Coins_IsZero A (OriginalVesting sga) \<or> StartTime sga < EndTime sga) \<and>
      (GA_ModuleName sga = '''' \<or>
        ModuleAccount_Validate A (BaseAccount sga) (GA_ModuleName sga) (GA_ModulePermissions sga) = Ok ()) \<and>
      BaseAccount_Validate A (BaseAccount sga) = Ok ())
   \<and> (\<not> Coins_IsZero A (OriginalVesting sga) \<and> EndTime sga \<le> StartTime sga \<longrightarrow>
      GenesisAccount_Validate A sga = Err (Error_text ''vesting start-time cannot be before end-time''))"
  by (auto simp: GenesisAccount_Validate_def obind_eq_Ok)

definition sample_account_lib :: "bool account_lib" where
  "sample_account_lib = \<lparr>Coins_IsZero = list_all (\<lambda>c. amount c = 0),
     ModuleAccount_Validate = (\<lambda>b n ps. if b then Ok () else Err (Error_text ''module account'')),
     BaseAccount_Validate = (\<lambda>b. if b then Ok () else Err (Error_text ''base account''))\<rparr>"

definition sample_account :: "bool \<Rightarrow> int \<Rightarrow> int \<Rightarrow> bool genesis_account" where
  "sample_account ok b e = \<lparr>BaseAccount = ok, OriginalVesting = [\<lparr>denom = ''ubps'', amount = 5\<rparr>],
     DelegatedFree = [], DelegatedVesting = [], StartTime = b, EndTime = e, GA_ModuleName = ''gov'',
     GA_ModulePermissions = []\<rparr>"

theorem valid_genesis_accounts_witness:
  "GenesisAccount_Validate sample_account_lib (sample_account True 3 4) = Ok ()
   \<and> GenesisAccount_Validate sample_account_lib (sample_account False 4 4)
      = Err (Error_text ''vesting start-time cannot be before end-time'')"
  using valid_genesis_accounts [of sample_account_lib "sample_account True 3 4"]
    valid_genesis_accounts [of sample_account_lib "sample_account False 4 4"]
  by (simp add: sample_account_lib_def sample_account_def)

text \<open>The configuration the SDK keeps, and what it promises of the calls.\<close>

record sdk_config =
  bond_denom :: string
  coin_type :: nat
  account_prefixes :: "string \<times> string"
  validator_prefixes :: "string \<times> string"
  consensus_prefixes :: "string \<times> string"
  sealed :: bool

definition sealed_setter :: "('s \<Rightarrow> sdk_config) \<Rightarrow> ('s, unit) eff \<Rightarrow> (sdk_config \<Rightarrow> sdk_config) \<Rightarrow> bool" where
  "sealed_setter view m upd \<longleftrightarrow> (\<forall>s. \<exists>s'. if sealed (view s) then \<exists>e. m s = (Panic e, s') \<and> view s' = view s
     else m s = (Ok (), s') \<and> view s' = upd (view s))"

definition config_laws :: "'s config_env \<Rightarrow> ('s \<Rightarrow> sdk_config) \<Rightarrow> bool" where
  "config_laws C view \<longleftrightarrow>
     (\<forall>d w. runs view (Set_DefaultBondDenom C d) w () (w\<lparr>bond_denom := d\<rparr>)) \<and>
     (\<forall>t. sealed_setter view (SetCoinType C t) (\<lambda>w. w\<lparr>coin_type := t\<rparr>)) \<and>
     (\<forall>a b. sealed_setter view (SetBech32PrefixForAccount C a b) (\<lambda>w. w\<lparr>account_prefixes := (a, b)\<rparr>)) \<and>
     (\<forall>a b. sealed_setter view (SetBech32PrefixForValidator C a b) (\<lambda>w. w\<lparr>validator_prefixes := (a, b)\<rparr>)) \<and>
     (\<forall>a b. sealed_setter view (SetBech32PrefixForConsensusNode C a b) (\<lambda>w. w\<lparr>consensus_prefixes := (a, b)\<rparr>)) \<and>
     (\<forall>w. runs view (Seal C) w () (w\<lparr>sealed := True\<rparr>))"

lemma setter_runs: "sealed_setter view m upd \<Longrightarrow> \<not> sealed w \<Longrightarrow> runs view m w () (upd w)"
  unfolding sealed_setter_def runs_def by metis

lemma setter_panics: "sealed_setter view m upd \<Longrightarrow> sealed (view s) \<Longrightarrow> \<exists>e s'. m s = (Panic e, s')"
  unfolding sealed_setter_def by metis

definition all_prefixes :: "sdk_config \<Rightarrow> string list" where
  "all_prefixes w = [fst (account_prefixes w), snd (account_prefixes w), fst (validator_prefixes w),
     snd (validator_prefixes w), fst (consensus_prefixes w), snd (consensus_prefixes w)]"

lemma config_init_runs:
  assumes "config_laws C view" and "\<not> sealed w"
  shows "runs view (config_init C) w () (w\<lparr>bond_denom := ''ubps'', coin_type := 118,
    account_prefixes := (''bps'', ''bpspub''), validator_prefixes := (''bpsvaloper'', ''bpsvaloperpub''),
    consensus_prefixes := (''bpsvalcons'', ''bpsvalconspub''), sealed := True\<rparr>)"
proof -
  have l: "runs view (Set_DefaultBondDenom C d) u () (u\<lparr>bond_denom := d\<rparr>)"
    "\<not> sealed u \<Longrightarrow> runs view (SetCoinType C t) u () (u\<lparr>coin_type := t\<rparr>)"
    "\<not> sealed u \<Longrightarrow> runs view (SetBech32PrefixForAccount C a b) u () (u\<lparr>account_prefixes := (a, b)\<rparr>)"
    "\<not> sealed u \<Longrightarrow> runs view (SetBech32PrefixForValidator C a b) u () (u\<lparr>validator_prefixes := (a, b)\<rparr>)"
    "\<not> sealed u \<Longrightarrow> runs view (SetBech32PrefixForConsensusNode C a b) u () (u\<lparr>consensus_prefixes := (a, b)\<rparr>)"
    "runs view (Seal C) u () (u\<lparr>sealed := True\<rparr>)" for u d t a b
    using assms(1) setter_runs unfolding config_laws_def by blast+
  show ?thesis
    unfolding config_init_def Let_def AccountAddressPrefix_def ChainCoinType_def append.simps
    by (rule runs_bind [OF l(1)], (rule runs_bind [OF l(2)] runs_bind [OF l(3)] runs_bind [OF l(4)]
          runs_bind [OF l(5)], simp add: assms(2))+, rule l(6))
qed

text \<open>The operations that change the sealed part of the configuration.\<close>

definition config_setters :: "'s config_env \<Rightarrow> ('s, unit) eff set" where
  "config_setters C = range (SetCoinType C) \<union> {SetBech32PrefixForAccount C a b | a b. True}
     \<union> {SetBech32PrefixForValidator C a b | a b. True} \<union> {SetBech32PrefixForConsensusNode C a b | a b. True}"

lemma sealed_setters_panic:
  assumes "config_laws C view" and "sealed (view t)" and "m \<in> config_setters C"
  shows "\<exists>e t'. m t = (Panic e, t') \<and> view t' = view t"
proof -
  obtain upd where "sealed_setter view m upd"
    using assms(1,3) unfolding config_laws_def config_setters_def by blast
  then show ?thesis using assms(2) unfolding sealed_setter_def by metis
qed

lemma config_init_sealed:
  assumes "config_laws C view" and "sealed (view t)"
  shows "\<exists>e t'. config_init C t = (Panic e, t') \<and> view t' = (view t)\<lparr>bond_denom := ''ubps''\<rparr>"
proof -
  have "runs view (Set_DefaultBondDenom C ''ubps'') (view t) () ((view t)\<lparr>bond_denom := ''ubps''\<rparr>)"
    using assms(1) by (simp add: config_laws_def)
  from runsD [OF this refl] obtain u where u: "Set_DefaultBondDenom C ''ubps'' t = (Ok (), u)"
    "view u = (view t)\<lparr>bond_denom := ''ubps''\<rparr>" by blast
  then have "sealed (view u)" using assms(2) by simp
  moreover have "SetCoinType C 118 \<in> config_setters C" by (simp add: config_setters_def)
  ultimately obtain e t' where "SetCoinType C 118 u = (Panic e, t')" "view t' = view u"
    using sealed_setters_panic [OF assms(1)] by blast
  with u show ?thesis by (auto simp: config_init_def Let_def ChainCoinType_def)
qed

text \<open>
  C39: The package initialisation, on a configuration that is not sealed, returns: it sets the bond
  denomination to the one the hard cap limits and the coin type to 118, gives the six address kinds
  prefixes that begin with the chain's name and are pairwise different, and seals the
  configuration. On any sealed configuration, the one it leaves among them, every call that sets
  the coin type or the prefixes of accounts, validators or consensus nodes panics and changes
  nothing, and the initialisation itself panics, when it has set the bond denomination, a
  variable of its own that no seal protects.
\<close>

theorem chain_is_configured_once:
  assumes "config_laws C view" and "\<not> sealed (view s)"
  shows "(\<exists>s'. config_init C s = (Ok (), s') \<and> bond_denom (view s') = MintHardCapDenom
      \<and> coin_type (view s') = 118 \<and> distinct (all_prefixes (view s'))
      \<and> (\<forall>p \<in> set (all_prefixes (view s')). strings_HasPrefix p Name)
      \<and> sealed (view s'))
    \<and> (\<forall>t. sealed (view t) \<longrightarrow>
        (\<forall>m \<in> config_setters C. \<exists>e t'. m t = (Panic e, t') \<and> view t' = view t)
        \<and> (\<exists>e t'. config_init C t = (Panic e, t') \<and> view t' = (view t)\<lparr>bond_denom := MintHardCapDenom\<rparr>))"
proof (intro conjI allI impI)
  obtain s' where s': "config_init C s = (Ok (), s')" and v: "view s' = (view s)\<lparr>bond_denom := ''ubps'',
      coin_type := 118, account_prefixes := (''bps'', ''bpspub''),
      validator_prefixes := (''bpsvaloper'', ''bpsvaloperpub''),
      consensus_prefixes := (''bpsvalcons'', ''bpsvalconspub''), sealed := True\<rparr>"
    using runsD [OF config_init_runs [OF assms] refl] by blast
  then show "\<exists>s'. config_init C s = (Ok (), s') \<and> bond_denom (view s') = MintHardCapDenom
      \<and> coin_type (view s') = 118 \<and> distinct (all_prefixes (view s'))
      \<and> (\<forall>p \<in> set (all_prefixes (view s')). strings_HasPrefix p Name) \<and> sealed (view s')"
    by (intro exI [of _ s']) (auto simp: v all_prefixes_def MintHardCapDenom_def Name_def)
next
  fix t assume t: "sealed (view t)"
  show "\<forall>m \<in> config_setters C. \<exists>e t'. m t = (Panic e, t') \<and> view t' = view t"
    using sealed_setters_panic [OF assms(1) t] by blast
  show "\<exists>e t'. config_init C t = (Panic e, t') \<and> view t' = (view t)\<lparr>bond_denom := MintHardCapDenom\<rparr>"
    using config_init_sealed [OF assms(1) t] by (simp add: MintHardCapDenom_def)
qed

definition sample_setter :: "(sdk_config \<Rightarrow> sdk_config) \<Rightarrow> (sdk_config, unit) eff" where
  "sample_setter upd s = (if sealed s then (Panic (Error_text ''Config is sealed''), s) else (Ok (), upd s))"

definition sample_config_env :: "sdk_config config_env" where
  "sample_config_env = \<lparr>Set_DefaultBondDenom = (\<lambda>d s. (Ok (), s\<lparr>bond_denom := d\<rparr>)),
     SetCoinType = (\<lambda>t. sample_setter (\<lambda>w. w\<lparr>coin_type := t\<rparr>)),
     SetBech32PrefixForAccount = (\<lambda>a b. sample_setter (\<lambda>w. w\<lparr>account_prefixes := (a, b)\<rparr>)),
     SetBech32PrefixForValidator = (\<lambda>a b. sample_setter (\<lambda>w. w\<lparr>validator_prefixes := (a, b)\<rparr>)),
     SetBech32PrefixForConsensusNode = (\<lambda>a b. sample_setter (\<lambda>w. w\<lparr>consensus_prefixes := (a, b)\<rparr>)),
     Seal = (\<lambda>s. (Ok (), s\<lparr>sealed := True\<rparr>))\<rparr>"

definition default_sdk_config :: sdk_config where
  "default_sdk_config = \<lparr>bond_denom = ''stake'', coin_type = 118, account_prefixes = (''cosmos'', ''cosmospub''),
     validator_prefixes = (''cosmosvaloper'', ''cosmosvaloperpub''),
     consensus_prefixes = (''cosmosvalcons'', ''cosmosvalconspub''), sealed = False\<rparr>"

lemma sample_setter_law: "sealed_setter (\<lambda>s. s) (sample_setter upd) upd"
  unfolding sealed_setter_def
  by (intro allI, rule_tac x = "snd (sample_setter upd s)" in exI) (simp add: sample_setter_def)

lemma sample_config_laws: "config_laws sample_config_env (\<lambda>s. s)"
  by (simp add: config_laws_def sample_config_env_def runs_def sample_setter_law)

theorem chain_is_configured_once_witness:
  "\<exists>s'. config_init sample_config_env default_sdk_config = (Ok (), s') \<and> bond_denom s' = ''ubps''
    \<and> (\<exists>e. SetBech32PrefixForValidator sample_config_env ''x'' ''y'' s' = (Panic e, s'))
    \<and> (\<exists>e. config_init sample_config_env s' = (Panic e, s'))"
proof -
  have "\<not> sealed default_sdk_config" by (simp add: default_sdk_config_def)
  note once = chain_is_configured_once [OF sample_config_laws this]
  obtain s' where s': "config_init sample_config_env default_sdk_config = (Ok (), s')"
    "bond_denom s' = MintHardCapDenom" "sealed s'"
    using once by blast
  have "SetBech32PrefixForValidator sample_config_env ''x'' ''y'' \<in> config_setters sample_config_env"
    by (auto simp: config_setters_def)
  then have p: "\<exists>e. SetBech32PrefixForValidator sample_config_env ''x'' ''y'' s' = (Panic e, s')"
    using once s'(3) by blast
  have "\<exists>e. config_init sample_config_env s' = (Panic e, s'\<lparr>bond_denom := MintHardCapDenom\<rparr>)"
    using once s'(3) by blast
  moreover have "s'\<lparr>bond_denom := MintHardCapDenom\<rparr> = s'" using s'(2) by (cases s') simp
  ultimately have "\<exists>e. config_init sample_config_env s' = (Panic e, s')" by simp
  with p show ?thesis using s'(1,2) by (auto simp: MintHardCapDenom_def)
qed

text \<open>
  The minimum gas price that the daemon puts into a new \<^verbatim>\<open>app.toml\<close> and the one the multi-node
  testnet writes are the same price, once the chain is configured, whatever price the command
  was asked for.
\<close>

theorem one_minimum_gas_price:
  assumes "config_laws C view" and "\<not> sealed (view s)" and "config_init C s = (Ok (), s')"
    and "tm_DefaultBondDenom E = bond_denom (view s')"
  shows "MinGasPrices (base_app_config E args) = MinGasPrices (snd (initAppConfig T D))"
proof -
  have "bond_denom (view s') = ''ubps''"
    using runsD [OF config_init_runs [OF assms(1,2)] refl] assms(3) by auto
  then show ?thesis by (simp add: base_app_config_def Let_def assms(4) initAppConfig_def)
qed

theorem one_minimum_gas_price_witness:
  "MinGasPrices (base_app_config multi_sample_env (multi_sample_args\<lparr>minGasPrices := ''7ubps''\<rparr>)) = ''0.0001ubps''"
proof -
  have u: "\<not> sealed default_sdk_config" by (simp add: default_sdk_config_def)
  obtain s' where s': "config_init sample_config_env default_sdk_config = (Ok (), s')" "bond_denom s' = ''ubps''"
    using runsD [OF config_init_runs [OF sample_config_laws u] refl] by auto
  have "tm_DefaultBondDenom multi_sample_env = bond_denom s'" by (simp add: plain_env_def s'(2))
  from one_minimum_gas_price [OF sample_config_laws u s'(1) this,
      of "multi_sample_args\<lparr>minGasPrices := ''7ubps''\<rparr>" T D]
  show ?thesis by (simp add: initAppConfig_def)
qed

end
