(* ===== verification/Testnet_Gentx.thy ===== *)
theory Testnet_Gentx
  imports Testnet_Multi_Spec
begin

text \<open>
  The files of the multi-node testnet: where \<^verbatim>\<open>initTestnetFiles\<close> puts the directories of the nodes,
  and that after its copying loop every node's \<^verbatim>\<open>gentx\<close> directory holds every genesis transaction.
\<close>

section \<open>The directories\<close>

definition out_components :: "init_args \<Rightarrow> string list" where
  "out_components args = path_components (outputDir args)"

definition gentx_dir_components :: "init_args \<Rightarrow> int \<Rightarrow> string list" where
  "gentx_dir_components args i = out_components args @ [node_name args i, ''config'', ''gentx'']"

definition gentx_name :: "string \<Rightarrow> string" where
  "gentx_name nodeID = ''gentx-'' @ nodeID @ ''.json''"

definition out_path :: "init_args \<Rightarrow> string list \<Rightarrow> string" where
  "out_path args cs = path_of (IsAbs (outputDir args)) cs"

lemma digit_plain: "n < 10 \<Longrightarrow> digit n \<noteq> sep \<and> digit n \<noteq> CHR ''.''"
  by (drule nat_less_10_cases) (auto simp: digit_def sep_def)

lemma nat_text_plain: "c \<in> set (nat_text n) \<Longrightarrow> c \<noteq> sep \<and> c \<noteq> CHR ''.''"
proof (induction n rule: nat_text.induct)
  case (1 n)
  then show ?case
    using digit_plain [of n] digit_plain [of "n mod 10"] by (cases "n < 10") (auto simp: nat_text.simps [of n])
qed

lemma Itoa_plain: "c \<in> set (Itoa i) \<Longrightarrow> c \<noteq> sep \<and> c \<noteq> CHR ''.''"
  by (auto simp: Itoa_def sep_def dest: nat_text_plain split: if_splits)

lemma Itoa_nonempty: "Itoa i \<noteq> ''''"
  by (simp add: Itoa_def)

text \<open>A node's name is one component of a path when the prefix has no separator.\<close>

lemma node_name_plain: "sep \<notin> set (nodeDirPrefix args) \<Longrightarrow> plain [node_name args i]"
proof -
  assume p: "sep \<notin> set (nodeDirPrefix args)"
  obtain c where "c \<in> set (Itoa i)" "c \<noteq> CHR ''.''"
    using Itoa_nonempty [of i] Itoa_plain [of _ i] by (metis last_in_set)
  then have "\<exists>c \<in> set (node_name args i). c \<noteq> CHR ''.''" by (auto simp: node_name_def)
  then have "node_name args i \<noteq> ''.''" "node_name args i \<noteq> ''..''" by auto
  then show ?thesis using p Itoa_plain [of _ i] Itoa_nonempty [of i] by (auto simp: plain_def node_name_def)
qed

lemma node_name_inj [simp]: "node_name args i = node_name args j \<longleftrightarrow> i = j"
  by (simp add: node_name_def)

lemma gentx_name_plain: "sep \<notin> set x \<Longrightarrow> plain [gentx_name x]"
  by (auto simp: plain_def gentx_name_def sep_def)

lemma gentx_name_inj [simp]: "gentx_name x = gentx_name y \<longleftrightarrow> x = y"
  by (simp add: gentx_name_def)

lemma config_plain [simp]: "plain (''config'' # cs) = plain cs" "plain (''gentx'' # cs) = plain cs"
  by (simp_all add: plain_def sep_def)

lemma plain_Cons: "plain (c # d # cs) \<longleftrightarrow> plain [c] \<and> plain (d # cs)"
  by (auto simp: plain_def)

lemma out_canonical: "plain cs \<Longrightarrow> canonical (IsAbs (outputDir args)) (out_components args @ cs)"
  unfolding out_components_def by (intro canonical_append) simp_all

lemma out_Join: "plain cs \<Longrightarrow> cs \<noteq> [] \<Longrightarrow> filepath_Join (outputDir args # cs) = out_path args (out_components args @ cs)"
  by (simp add: Join_plain out_path_def out_components_def)

lemma out_Join_path:
  "plain cs \<Longrightarrow> plain ds \<Longrightarrow> ds \<noteq> [] \<Longrightarrow>
   filepath_Join (out_path args (out_components args @ cs) # ds) = out_path args (out_components args @ cs @ ds)"
  using Join_path [OF out_canonical, of cs ds args] by (simp add: out_path_def)

lemma node_dir_path:
  "sep \<notin> set (nodeDirPrefix args) \<Longrightarrow> node_dir args i = out_path args (out_components args @ [node_name args i])"
  by (simp add: node_dir_def out_Join node_name_plain)

lemma gentx_dir_path:
  assumes "sep \<notin> set (nodeDirPrefix args)"
  shows "filepath_Join [node_dir args i, ''config'', ''gentx''] = out_path args (gentx_dir_components args i)"
    and "filepath_Join [outputDir args, node_name args i, ''config'', ''gentx''] = out_path args (gentx_dir_components args i)"
  using out_Join_path [OF node_name_plain [OF assms], of "[''config'', ''gentx'']" args i]
    out_Join [of "[node_name args i, ''config'', ''gentx'']" args] node_name_plain [OF assms, of i]
  by (simp_all add: node_dir_path [OF assms] gentx_dir_components_def plain_Cons)

lemma gentx_dir_plain:
  "sep \<notin> set (nodeDirPrefix args) \<Longrightarrow> plain [node_name args i, ''config'', ''gentx'']"
  using node_name_plain [of args i] by (simp add: plain_Cons)

lemma gentx_file_path:
  assumes "sep \<notin> set (nodeDirPrefix args)" and "sep \<notin> set x"
  shows "gentx_file args i x = out_path args (gentx_dir_components args i @ [gentx_name x])"
  using out_Join_path [OF gentx_dir_plain [OF assms(1)] gentx_name_plain [OF assms(2)], of args i]
  by (simp add: gentx_file_def gentx_dir_path(2) [OF assms(1)] gentx_dir_components_def gentx_name_def)

lemma gentx_file_canonical:
  assumes "sep \<notin> set (nodeDirPrefix args)" and "sep \<notin> set x"
  shows "canonical (IsAbs (outputDir args)) (gentx_dir_components args i @ [gentx_name x])"
  using out_canonical [of "[node_name args i, ''config'', ''gentx''] @ [gentx_name x]" args]
    node_name_plain [OF assms(1), of i] gentx_name_plain [OF assms(2)]
  by (simp add: gentx_dir_components_def plain_Cons)

lemma gentx_file_inj:
  assumes "sep \<notin> set (nodeDirPrefix args)" and "sep \<notin> set x" and "sep \<notin> set y"
  shows "gentx_file args i x = gentx_file args j y \<longleftrightarrow> i = j \<and> x = y"
  using gentx_file_canonical [OF assms(1,2), of i] gentx_file_canonical [OF assms(1,3), of j]
  by (simp add: gentx_file_path assms out_path_def path_of_inj gentx_dir_components_def)

section \<open>Copying\<close>

text \<open>A node's own transaction is skipped, another node's is copied.\<close>

lemma copy_gentx_cases:
  assumes "IsAbs wd" and "sep \<notin> set (nodeDirPrefix args)" and "sep \<notin> set x"
  shows "copy_gentx (Ok wd) args i (gentx_file args j x) =
    (if i = j then ret () else bind (copyFile (gentx_file args j x) (out_path args (gentx_dir_components args i))) (\<lambda>_. ret ()))"
proof -
  let ?r = "IsAbs (outputDir args)"
  have p: "plain [node_name args i, ''config'', ''gentx'']" "plain [node_name args j, ''config'', ''gentx'', gentx_name x]"
    using gentx_dir_plain [OF assms(2), of i] node_name_plain [OF assms(2), of j] gentx_name_plain [OF assms(3)]
    by (simp_all add: plain_Cons)
  have "isSubDir (Ok wd) (gentx_file args j x) (out_path args (gentx_dir_components args i))
      = Ok (is_below (resolve wd (path_of ?r (out_components args @ [node_name args i, ''config'', ''gentx''])))
        (resolve wd (path_of ?r (out_components args @ [node_name args j, ''config'', ''gentx'', gentx_name x]))))"
    by (simp add: isSubDir_components [OF assms(1)] gentx_file_path [OF assms(2,3)] gentx_dir_components_def out_path_def)
  also have "\<dots> = Ok (i = j)"
    unfolding resolve_path [OF out_canonical [OF p(1)] p(1)] resolve_path [OF out_canonical [OF p(2)] p(2)]
    by (simp add: is_below_file) (simp add: gentx_name_def)
  finally show ?thesis by (simp add: copy_gentx_def gentx_dir_path(1) [OF assms(2)])
qed

text \<open>
  The situation after the loop over the nodes: the \<^verbatim>\<open>gentx\<close> directories exist, each node has its
  own genesis transaction in its own one, and no directory has the name of such a file.
\<close>

definition gentx_ready :: "init_args \<Rightarrow> nat \<Rightarrow> string list \<Rightarrow> (nat \<Rightarrow> bytes) \<Rightarrow> 'x world \<Rightarrow> bool" where
  "gentx_ready args n ids txs w \<longleftrightarrow> no_faults w \<and>
     (\<forall>i < n. fs_dir w (out_path args (gentx_dir_components args (int i)))) \<and>
     (\<forall>i < n. \<forall>j < n. \<not> fs_dir w (gentx_file args (int i) (ids ! j))) \<and>
     (\<forall>j < n. fs_file w (gentx_file args (int j) (ids ! j)) = Some (txs j))"

definition has_gentx :: "init_args \<Rightarrow> nat \<Rightarrow> string list \<Rightarrow> (nat \<Rightarrow> bytes) \<Rightarrow> nat \<Rightarrow> nat \<Rightarrow> 'x world \<Rightarrow> bool" where
  "has_gentx args n ids txs i j w \<longleftrightarrow>
     i < n \<and> j < n \<and> fs_file w (gentx_file args (int i) (ids ! j)) = Some (txs j)"

lemma copy_one_gentx:
  assumes "IsAbs wd" and "sep \<notin> set (nodeDirPrefix args)" and "length ids = n" and "distinct ids"
    and "\<forall>x \<in> set ids. sep \<notin> set x" and "gentx_ready args n ids txs w" and "i < n" and "j < n"
  shows "\<exists>w'. copy_gentx (Ok wd) args (int i) (gentx_file args (int j) (ids ! j)) w = (Ok (), w')
    \<and> gentx_ready args n ids txs w' \<and> has_gentx args n ids txs i j w'
    \<and> (\<forall>k l. has_gentx args n ids txs k l w \<longrightarrow> has_gentx args n ids txs k l w')"
proof (cases "i = j")
  case True
  then show ?thesis
    using assms(6-8) by (auto simp: copy_gentx_cases assms(1-3,5) has_gentx_def gentx_ready_def)
next
  case False
  let ?x = "ids ! j" and ?r = "IsAbs (outputDir args)"
  let ?dst = "gentx_file args (int i) ?x"
  have s: "sep \<notin> set ?x" and sk: "\<And>k. k < n \<Longrightarrow> sep \<notin> set (ids ! k)" using assms(3,5,8) by auto
  note path = gentx_file_path [OF assms(2) s] and can = gentx_file_canonical [OF assms(2) s]
  have f: "no_faults w" "fs_file w (gentx_file args (int j) ?x) = Some (txs j)"
    "fs_dir w (out_path args (gentx_dir_components args (int i)))" "\<not> fs_dir w ?dst"
    using assms(6-8) unfolding gentx_ready_def by blast+
  have ne: "gentx_dir_components args (int j) \<noteq> gentx_dir_components args (int i)"
    "gentx_dir_components args (int i) \<noteq> []" "gentx_name ?x \<noteq> ''..''" "gentx_name ?x \<noteq> ''.''"
    using False by (simp_all add: gentx_dir_components_def gentx_name_def)
  let ?w = "w\<lparr>fs_file := (fs_file w)(?dst \<mapsto> txs j)\<rparr>"
  have "copyFile (gentx_file args (int j) ?x) (out_path args (gentx_dir_components args (int i))) w
    = (Ok (int (length (txs j))), ?w)"
    using copyFile_path [OF f(1) can [of "int j"] can [of "int i"] ne] f
    by (simp add: path out_path_def)
  then have c: "copy_gentx (Ok wd) args (int i) (gentx_file args (int j) ?x) w = (Ok (), ?w)"
    using False by (simp add: copy_gentx_cases [OF assms(1,2) s])
  have keep: "fs_file ?w (gentx_file args (int k) (ids ! l)) = Some (txs l)"
    if "k < n" "l < n" "fs_file w (gentx_file args (int k) (ids ! l)) = Some (txs l)" for k l
    using that gentx_file_inj [OF assms(2) sk [OF that(2)] s, of "int k" "int i"]
      nth_eq_iff_index_eq [OF assms(4), of l j] assms(3,8) by auto
  have "gentx_ready args n ids txs ?w"
    using assms(6) keep unfolding gentx_ready_def by simp
  moreover have "has_gentx args n ids txs i j ?w" using assms(7,8) by (simp add: has_gentx_def)
  moreover have "\<forall>k l. has_gentx args n ids txs k l w \<longrightarrow> has_gentx args n ids txs k l ?w"
    using keep unfolding has_gentx_def by blast
  ultimately show ?thesis using c by blast
qed

lemma copies_all:
  assumes "IsAbs wd" and "sep \<notin> set (nodeDirPrefix args)" and "length ids = n" and "distinct ids"
    and "\<forall>x \<in> set ids. sep \<notin> set x" and "n = nat (numValidators args)"
    and "gentx_ready args n ids txs w"
  shows "\<exists>w'. copy_gentxs (Ok wd) args (map (\<lambda>j. gentx_file args (int j) (ids ! j)) [0..<n]) w = (Ok (), w')
    \<and> (\<forall>i < n. \<forall>j < n. fs_file w' (gentx_file args (int i) (ids ! j)) = Some (txs j))"
proof -
  let ?body = "\<lambda>(i, j). copy_gentx (Ok wd) args (int i) (gentx_file args (int j) (ids ! j))"
  let ?pairs = "List.product [0..<n] [0..<n]"
  have "\<exists>w'. for_each ?body ?pairs w = (Ok (), w') \<and> gentx_ready args n ids txs w'
      \<and> (\<forall>p \<in> set ?pairs. has_gentx args n ids txs (fst p) (snd p) w')
      \<and> (\<forall>p. has_gentx args n ids txs (fst p) (snd p) w \<longrightarrow> has_gentx args n ids txs (fst p) (snd p) w')"
    using assms(7) by (intro for_each_establish) (auto intro!: copy_one_gentx [OF assms(1-5)])
  then obtain w' where w': "for_each ?body ?pairs w = (Ok (), w')"
    "\<forall>p \<in> set ?pairs. has_gentx args n ids txs (fst p) (snd p) w'" by blast
  have "copy_gentxs (Ok wd) args (map (\<lambda>j. gentx_file args (int j) (ids ! j)) [0..<n]) w = for_each ?body ?pairs w"
    by (simp add: copy_gentxs_def assms(6) for_each_map for_each_nested)
  with w' show ?thesis by (intro exI [of _ w']) (auto simp: has_gentx_def)
qed

text \<open>
  C13: After the copying loop every node's \<^verbatim>\<open>gentx\<close> directory holds the genesis transaction of
  every node, unchanged: the loop copies each transaction to the other nodes and leaves each
  node's own file alone (copying it onto itself would empty it). The node ids must be different,
  for the file names are made from them.
\<close>

theorem every_node_gets_every_gentx:
  assumes "IsAbs wd" and "sep \<notin> set (nodeDirPrefix args)" and "length ids = n" and "distinct ids"
    and "\<forall>x \<in> set ids. sep \<notin> set x" and "n = nat (numValidators args)"
    and "gentx_ready args n ids txs w"
  shows "\<exists>w'. copy_gentxs (Ok wd) args (map (\<lambda>j. gentx_file args (int j) (ids ! j)) [0..<n]) w = (Ok (), w')
    \<and> (\<forall>i < n. \<forall>j < n. fs_file w' (gentx_file args (int i) (ids ! j)) = Some (txs j))"
  by (rule copies_all [OF assms])

definition sample_gentx_world :: "unit world" where
  "sample_gentx_world = \<lparr>
     fs_file = [''o/n0/config/gentx/gentx-a.json'' \<mapsto> [1], ''o/n1/config/gentx/gentx-b.json'' \<mapsto> [2]],
     fs_dir = (\<lambda>p. p \<in> {''o/n0/config/gentx'', ''o/n1/config/gentx''}),
     fs_fault = (\<lambda>op p. None), rest = ()\<rparr>"

lemma sample_paths:
  "gentx_file multi_sample_args 0 ''a'' = ''o/n0/config/gentx/gentx-a.json''"
  "gentx_file multi_sample_args 0 ''b'' = ''o/n0/config/gentx/gentx-b.json''"
  "gentx_file multi_sample_args 1 ''a'' = ''o/n1/config/gentx/gentx-a.json''"
  "gentx_file multi_sample_args 1 ''b'' = ''o/n1/config/gentx/gentx-b.json''"
  "out_path multi_sample_args (gentx_dir_components multi_sample_args 0) = ''o/n0/config/gentx''"
  "out_path multi_sample_args (gentx_dir_components multi_sample_args 1) = ''o/n1/config/gentx''"
  by code_simp+

theorem every_node_gets_every_gentx_witness:
  "\<exists>w'. copy_gentxs (Ok ''/w'') multi_sample_args
      [''o/n0/config/gentx/gentx-a.json'', ''o/n1/config/gentx/gentx-b.json''] sample_gentx_world = (Ok (), w')
    \<and> fs_file w' ''o/n1/config/gentx/gentx-a.json'' = Some [1] \<and> fs_file w' ''o/n0/config/gentx/gentx-a.json'' = Some [1]
    \<and> fs_file w' ''o/n0/config/gentx/gentx-b.json'' = Some [2]"
proof -
  let ?txs = "\<lambda>j :: nat. if j = 0 then [1] else [2]"
  have u: "\<And>P. (\<forall>i < 2. P i) \<longleftrightarrow> P 0 \<and> P (1 :: nat)" by (auto simp: less_2_cases_iff)
  have r: "gentx_ready multi_sample_args 2 [''a'', ''b''] ?txs sample_gentx_world"
    by (simp add: gentx_ready_def u sample_paths sample_gentx_world_def no_faults_def)
  have a: "IsAbs ''/w''" "sep \<notin> set (nodeDirPrefix multi_sample_args)"
    "(2 :: nat) = nat (numValidators multi_sample_args)" "\<forall>x \<in> set [''a'', ''b'']. sep \<notin> set x"
    by (simp_all add: IsAbs_def sep_def multi_sample_args_def)
  have l: "[0..<2] = [0, 1 :: nat]" by (simp add: upt_rec)
  from every_node_gets_every_gentx [OF a(1,2) _ _ a(4,3) r]
  show ?thesis by (auto simp: l u sample_paths)
qed

end
