(* ===== verification/Testnet_Run.thy ===== *)
theory Testnet_Run
  imports Testnet_Gentx
begin

text \<open>
  That the multi-node testnet command completes: in an environment whose calls succeed, keep away
  from the directories the command makes and give the nodes different ids, and on a file system
  without faults and without a file in the way, \<^verbatim>\<open>initTestnetFiles\<close> returns, and then every
  node's directory holds every genesis transaction.
\<close>

section \<open>The command's own paths\<close>

definition dir_path :: "init_args \<Rightarrow> nat \<Rightarrow> int \<Rightarrow> string" where
  "dir_path args m i = out_path args (take m (gentx_dir_components args i))"

definition seed_path :: "init_args \<Rightarrow> int \<Rightarrow> string" where
  "seed_path args i = out_path args (out_components args @ [node_name args i, ''key_seed.json''])"

text \<open>What the command relies on: its own directories, key seeds and genesis transactions.\<close>

definition own_paths :: "init_args \<Rightarrow> string set" where
  "own_paths args = {dir_path args m i | m i. True} \<union> range (seed_path args)
     \<union> {gentx_file args i x | i x. sep \<notin> set x}"

definition own_files :: "init_args \<Rightarrow> 'x world \<Rightarrow> (string \<Rightarrow> bytes option) \<times> (string \<Rightarrow> bool) \<times> (os_call \<Rightarrow> string \<Rightarrow> go_error option)" where
  "own_files args w = ((\<lambda>p. if p \<in> own_paths args then fs_file w p else None),
     (\<lambda>p. p \<in> own_paths args \<and> fs_dir w p), fs_fault w)"

text \<open>
  Nothing is in the way, and the nodes below \<open>k\<close> have their \<^verbatim>\<open>gentx\<close> directory and their genesis
  transaction; \<open>idf\<close> gives a node's id from its name.
\<close>

definition files_ok :: "init_args \<Rightarrow> (string \<Rightarrow> string) \<Rightarrow> nat \<Rightarrow> 'x world \<Rightarrow> bool" where
  "files_ok args idf k w \<longleftrightarrow> no_faults w \<and>
     (\<forall>m i. 0 < m \<longrightarrow> fs_file w (dir_path args m i) = None) \<and>
     (\<forall>i. \<not> fs_dir w (seed_path args i)) \<and>
     (\<forall>i x. sep \<notin> set x \<longrightarrow> \<not> fs_dir w (gentx_file args i x)) \<and>
     (\<forall>j < k. fs_dir w (out_path args (gentx_dir_components args (int j))) \<and>
        fs_file w (gentx_file args (int j) (idf (node_name args (int j)))) \<noteq> None)"

lemma own_filesD:
  "own_files args w = own_files args w' \<Longrightarrow> p \<in> own_paths args \<Longrightarrow> fs_file w p = fs_file w' p \<and> fs_dir w p = fs_dir w' p"
  unfolding own_files_def by (simp add: fun_eq_iff) metis

lemma own_paths_mem:
  "dir_path args m i \<in> own_paths args" "seed_path args i \<in> own_paths args"
  "sep \<notin> set x \<Longrightarrow> gentx_file args i x \<in> own_paths args"
  by (auto simp: own_paths_def)

lemma full_dir: "out_path args (gentx_dir_components args i) = dir_path args (length (gentx_dir_components args i)) i"
  by (simp add: dir_path_def)

lemma files_ok_cong:
  assumes "own_files args w = own_files args w'" and "\<forall>i. sep \<notin> set (idf (node_name args i))"
  shows "files_ok args idf k w = files_ok args idf k w'"
proof -
  have "fs_fault w = fs_fault w'" using assms(1) by (simp add: own_files_def)
  moreover have "fs_file w p = fs_file w' p" "fs_dir w p = fs_dir w' p" if "p \<in> own_paths args" for p
    using own_filesD [OF assms(1) that] by auto
  ultimately show ?thesis
    using assms(2) by (simp add: files_ok_def no_faults_def full_dir own_paths_mem)
qed

lemma gentx_dir_canonical:
  assumes "sep \<notin> set (nodeDirPrefix args)"
  shows "canonical (IsAbs (outputDir args)) (take m (gentx_dir_components args i))"
  using canonical_take [OF out_canonical [OF gentx_dir_plain [OF assms]]]
  by (simp add: gentx_dir_components_def)

lemma seed_canonical:
  assumes "sep \<notin> set (nodeDirPrefix args)"
  shows "canonical (IsAbs (outputDir args)) (out_components args @ [node_name args i, ''key_seed.json''])"
  using out_canonical [of "[node_name args i, ''key_seed.json'']" args] node_name_plain [OF assms, of i]
  by (simp add: plain_Cons) (simp add: plain_def sep_def)

lemma own_paths_distinct:
  assumes "sep \<notin> set (nodeDirPrefix args)" and "sep \<notin> set x"
  shows "dir_path args m i \<noteq> seed_path args j" and "dir_path args m i \<noteq> gentx_file args j x"
    and "seed_path args j \<noteq> gentx_file args i x"
proof -
  have k: "take m (out_components args @ xs) = out_components args @ ys \<Longrightarrow> take (m - length (out_components args)) xs = ys" for xs ys
  proof -
    assume a: "take m (out_components args @ xs) = out_components args @ ys"
    then have "length (out_components args) \<le> length (take m (out_components args @ xs))" by simp
    then have "length (out_components args) \<le> m" by simp
    with a show ?thesis by simp
  qed
  have t: "take n [a, ''config'', ''gentx''] \<noteq> [b, ''key_seed.json'']"
    "take n [a, ''config'', ''gentx''] \<noteq> [b, c, d, e]" for n a b c d e
  proof -
    have "length (take n [a, ''config'', ''gentx'']) \<le> 3" by simp
    moreover have "length [b, c, d, e] = 4" by simp
    ultimately show "take n [a, ''config'', ''gentx''] \<noteq> [b, c, d, e]" by (metis numeral_le_iff semiring_norm(69) semiring_norm(72))
    show "take n [a, ''config'', ''gentx''] \<noteq> [b, ''key_seed.json'']"
      by (cases n; cases "n - 1"; cases "n - 2") (auto simp: take_Cons split: nat.splits)
  qed
  show "dir_path args m i \<noteq> seed_path args j"
    using k [of "[node_name args i, ''config'', ''gentx'']" "[node_name args j, ''key_seed.json'']"] t(1)
    unfolding dir_path_def seed_path_def out_path_def
      path_of_inj [OF gentx_dir_canonical [OF assms(1)] seed_canonical [OF assms(1)]]
    by (auto simp: gentx_dir_components_def)
  show "dir_path args m i \<noteq> gentx_file args j x"
    using k [of "[node_name args i, ''config'', ''gentx'']" "[node_name args j, ''config'', ''gentx'', gentx_name x]"] t(2)
    unfolding gentx_file_path [OF assms] dir_path_def out_path_def
      path_of_inj [OF gentx_dir_canonical [OF assms(1)] gentx_file_canonical [OF assms]]
    by (auto simp: gentx_dir_components_def)
  show "seed_path args j \<noteq> gentx_file args i x"
    unfolding gentx_file_path [OF assms] seed_path_def out_path_def
      path_of_inj [OF seed_canonical [OF assms(1)] gentx_file_canonical [OF assms]]
    by (simp add: gentx_dir_components_def)
qed

section \<open>The command's own writes\<close>

lemma or_remove_works [works_rules]: "works P m Q \<Longrightarrow> works P (or_remove d m) Q"
  unfolding works_def by (metis or_remove_Ok)

lemma works_own:
  "quiet (own_files args) m \<Longrightarrow> \<forall>i. sep \<notin> set (idf (node_name args i)) \<Longrightarrow>
   works (files_ok args idf k) m (\<lambda>_. files_ok args idf k)"
  by (rule works_quiet) (use files_ok_cong in blast)+

lemma files_ok_dirs:
  assumes "sep \<notin> set (nodeDirPrefix args)" and "files_ok args idf k w"
    and "A \<subseteq> {dir_path args m i | m i. True}"
  shows "files_ok args idf k (w\<lparr>fs_dir := (\<lambda>d. fs_dir w d \<or> d \<in> A)\<rparr>)"
proof -
  have d: "p \<in> A \<Longrightarrow> \<exists>m j. p = dir_path args m j" for p using assms(3) by blast
  have "seed_path args i \<notin> A" for i
    using d [of "seed_path args i"] own_paths_distinct(1) [OF assms(1), of "[]" _ _ i]
    by (metis empty_iff list.set(1))
  moreover have "gentx_file args i x \<notin> A" if "sep \<notin> set x" for i x
    using d [of "gentx_file args i x"] own_paths_distinct(2) [OF assms(1) that, of _ _ i] by metis
  ultimately show ?thesis using assms(2) by (simp add: files_ok_def)
qed

lemma ancestors_dir:
  assumes "sep \<notin> set (nodeDirPrefix args)"
  shows "set (ancestors (dir_path args m i)) \<subseteq> {dir_path args m i | m i. True}"
proof
  fix d assume "d \<in> set (ancestors (dir_path args m i))"
  then obtain l where "d = out_path args (take l (take m (gentx_dir_components args i)))"
    using ancestors_path_iff [OF gentx_dir_canonical [OF assms]] by (auto simp: dir_path_def out_path_def)
  then show "d \<in> {dir_path args m i | m i. True}" by (auto simp: dir_path_def)
qed

lemma no_file_on_the_way:
  assumes "files_ok args idf k w" and "0 < m"
  shows "fs_file w (out_path args (take l (take m (gentx_dir_components args i)))) = None \<or> l = 0"
proof (cases l)
  case (Suc l')
  with assms show ?thesis unfolding files_ok_def by (auto simp: dir_path_def [symmetric])
qed simp

lemma MkdirAll_works:
  assumes "sep \<notin> set (nodeDirPrefix args)"
  shows "works (files_ok args idf k) (os_MkdirAll (dir_path args m i)) (\<lambda>_. files_ok args idf k)"
proof (rule worksI)
  fix w assume w: "files_ok args idf k w"
  show "\<exists>x s'. os_MkdirAll (dir_path args m i) w = (Ok x, s') \<and> files_ok args idf k s'"
  proof (cases "m = 0")
    case True
    have "canonical (IsAbs (outputDir args)) []" by (simp add: canonical_def)
    with True w show ?thesis
      using files_ok_dirs [OF assms w, of "{}"]
      by (auto simp: dir_path_def out_path_def os_MkdirAll_def ancestors_path files_ok_def)
  next
    case False
    have n: "no_faults w" using w by (simp add: files_ok_def)
    have "\<forall>l > 0. fs_file w (path_of (IsAbs (outputDir args)) (take l (take m (gentx_dir_components args i)))) = None"
      using no_file_on_the_way [OF w, of m _ i] False by (auto simp: out_path_def)
    from MkdirAll_path [OF n gentx_dir_canonical [OF assms] this] files_ok_dirs [OF assms w ancestors_dir [OF assms]]
    show ?thesis by (auto simp: dir_path_def out_path_def)
  qed
qed

text \<open>A file written below a directory of the command.\<close>

lemma writeFile_run:
  assumes "sep \<notin> set (nodeDirPrefix args)" and "files_ok args idf k w" and "0 < m"
    and "canonical (IsAbs (outputDir args)) (take m (gentx_dir_components args i) @ [f])"
    and "p = out_path args (take m (gentx_dir_components args i) @ [f])" and "\<not> fs_dir w p"
  shows "\<exists>A. A \<subseteq> {dir_path args m i | m i. True} \<and> dir_path args m i \<in> A \<and>
    writeFile p (dir_path args m i) data w
    = (Ok (), w\<lparr>fs_dir := (\<lambda>d. fs_dir w d \<or> d \<in> A), fs_file := (fs_file w)(p \<mapsto> data)\<rparr>)"
proof (intro exI conjI)
  let ?r = "IsAbs (outputDir args)" and ?D = "take m (gentx_dir_components args i)"
  let ?A = "set (ancestors (dir_path args m i))"
  have n: "no_faults w" "?D \<noteq> []" using assms(2,3) by (auto simp: files_ok_def gentx_dir_components_def)
  have "\<forall>l > 0. fs_file w (path_of ?r (take l ?D)) = None"
    using no_file_on_the_way [OF assms(2,3), of _ i] by (auto simp: out_path_def)
  from writeFile_path [OF n(1) assms(4) n(2) this, of data] assms(5,6)
  show "writeFile p (dir_path args m i) data w
    = (Ok (), w\<lparr>fs_dir := (\<lambda>d. fs_dir w d \<or> d \<in> ?A), fs_file := (fs_file w)(p \<mapsto> data)\<rparr>)"
    by (simp add: dir_path_def out_path_def)
  show "?A \<subseteq> {dir_path args m i | m i. True}" by (rule ancestors_dir [OF assms(1)])
  have "path_of ?r ?D \<in> set (ancestors (path_of ?r ?D))"
    unfolding ancestors_path_iff [OF gentx_dir_canonical [OF assms(1)]]
    using n(2) by (metis length_greater_0_conv order_refl take_all)
  then show "dir_path args m i \<in> ?A" by (simp add: dir_path_def out_path_def)
qed

lemma files_ok_file:
  assumes "files_ok args idf k w" and "\<And>m i. p \<noteq> dir_path args m i"
  shows "files_ok args idf k (w\<lparr>fs_file := (fs_file w)(p \<mapsto> data)\<rparr>)"
  using assms(1) assms(2) [symmetric] by (auto simp: files_ok_def)

lemma write_seed_works:
  assumes "sep \<notin> set (nodeDirPrefix args)"
  shows "works (files_ok args idf k) (writeFile (seed_path args i) (dir_path args (Suc (length (out_components args))) i) data)
    (\<lambda>_. files_ok args idf k)"
proof (rule worksI)
  fix w assume w: "files_ok args idf k w"
  have t: "take (Suc (length (out_components args))) (gentx_dir_components args i) @ [''key_seed.json'']
      = out_components args @ [node_name args i, ''key_seed.json'']"
    by (simp add: gentx_dir_components_def)
  have c: "canonical (IsAbs (outputDir args)) (take (Suc (length (out_components args))) (gentx_dir_components args i) @ [''key_seed.json''])"
    "seed_path args i = out_path args (take (Suc (length (out_components args))) (gentx_dir_components args i) @ [''key_seed.json''])"
    unfolding t by (simp_all add: seed_canonical [OF assms] seed_path_def)
  have "\<not> fs_dir w (seed_path args i)" using w by (simp add: files_ok_def)
  from writeFile_run [OF assms w zero_less_Suc c this, of data]
  obtain A where A: "A \<subseteq> {dir_path args m i | m i. True}"
    "writeFile (seed_path args i) (dir_path args (Suc (length (out_components args))) i) data w
      = (Ok (), w\<lparr>fs_dir := (\<lambda>d. fs_dir w d \<or> d \<in> A), fs_file := (fs_file w)(seed_path args i \<mapsto> data)\<rparr>)"
    by blast
  have "files_ok args idf k (w\<lparr>fs_dir := (\<lambda>d. fs_dir w d \<or> d \<in> A), fs_file := (fs_file w)(seed_path args i \<mapsto> data)\<rparr>)"
    using files_ok_file [OF files_ok_dirs [OF assms w A(1)], of "seed_path args i"]
      own_paths_distinct(1) [OF assms, of "[]" _ _ i] by (simp add: eq_commute)
  with A(2) show "\<exists>x s'. writeFile (seed_path args i) (dir_path args (Suc (length (out_components args))) i) data w
      = (Ok x, s') \<and> files_ok args idf k s'" by auto
qed

lemma write_gentx_works:
  assumes "sep \<notin> set (nodeDirPrefix args)" and "\<forall>i. sep \<notin> set (idf (node_name args i))" and "x = idf (node_name args (int k))"
  shows "works (files_ok args idf k)
    (writeFile (gentx_file args (int k) x) (out_path args (gentx_dir_components args (int k))) data)
    (\<lambda>_. files_ok args idf (Suc k))"
proof (rule worksI)
  fix w assume w: "files_ok args idf k w"
  let ?D = "gentx_dir_components args (int k)" and ?f = "gentx_file args (int k) x"
  have s: "sep \<notin> set x" using assms(2,3) by simp
  have l: "0 < length ?D" and d: "dir_path args (length ?D) (int k) = out_path args ?D"
    by (simp_all add: gentx_dir_components_def dir_path_def)
  have c: "canonical (IsAbs (outputDir args)) (take (length ?D) ?D @ [gentx_name x])"
    "?f = out_path args (take (length ?D) ?D @ [gentx_name x])"
    using gentx_file_canonical [OF assms(1) s, of "int k"] by (simp_all add: gentx_file_path [OF assms(1) s])
  have "\<not> fs_dir w ?f" using w s by (simp add: files_ok_def)
  from writeFile_run [OF assms(1) w l c this, of data]
  obtain A where A: "A \<subseteq> {dir_path args m i | m i. True}" "out_path args ?D \<in> A"
    "writeFile ?f (out_path args ?D) data w
      = (Ok (), w\<lparr>fs_dir := (\<lambda>d. fs_dir w d \<or> d \<in> A), fs_file := (fs_file w)(?f \<mapsto> data)\<rparr>)"
    unfolding d by blast
  have "files_ok args idf k (w\<lparr>fs_dir := (\<lambda>d. fs_dir w d \<or> d \<in> A), fs_file := (fs_file w)(?f \<mapsto> data)\<rparr>)"
    using files_ok_file [OF files_ok_dirs [OF assms(1) w A(1)], of ?f]
      own_paths_distinct(2) [OF assms(1) s, of _ _ "int k"] by (simp add: eq_commute)
  then have "files_ok args idf (Suc k) (w\<lparr>fs_dir := (\<lambda>d. fs_dir w d \<or> d \<in> A), fs_file := (fs_file w)(?f \<mapsto> data)\<rparr>)"
    using A(2) assms(3) by (simp add: files_ok_def less_Suc_eq all_conj_distrib)
  with A(3) show "\<exists>y s'. writeFile ?f (out_path args ?D) data w = (Ok y, s') \<and> files_ok args idf (Suc k) s'"
    by auto
qed

section \<open>The environment\<close>

text \<open>
  Every call returns; the node ids come from the nodes' names, are different and can stand in a
  file name; and what the SDK writes keeps away from the command's own paths.
\<close>

definition multi_env_ok ::
  "sdk_lib \<Rightarrow> ('x world, 'v) multi_env \<Rightarrow> init_args \<Rightarrow> (string \<Rightarrow> string) \<Rightarrow> bool" where
  "multi_env_ok L E args idf \<longleftrightarrow>
     inj idf \<and> (\<forall>i. sep \<notin> set (idf (node_name args i))) \<and>
     is_ok (genesis_coins L E) \<and> (\<forall>i. is_ok (stake_of L E args i)) \<and>
     (\<forall>c s. \<exists>pk s'. tm_InitializeNodeValidatorFiles E c s = (Ok (idf (Moniker c), pk), s')
        \<and> own_files args s' = own_files args s) \<and>
     (\<forall>b d. quiet (own_files args) (tm_NewKeyring E b d)) \<and>
     (\<forall>kb a. quiet (own_files args) (tm_NewSigningAlgo E kb a)) \<and>
     (\<forall>kb n a. quiet (own_files args) (tm_GenerateSaveCoinKey E kb n a)) \<and>
     (\<forall>s. is_ok (tm_MarshalSecret E s)) \<and> (\<forall>v p c n. is_ok (tm_NewMsgCreateValidator E v p c n)) \<and>
     (\<forall>m. is_ok (tm_SetMsgs E m)) \<and> (\<forall>c m kb n t. quiet (own_files args) (tm_Sign E c m kb n t)) \<and>
     (\<forall>t. is_ok (tm_TxJSON E t)) \<and> (\<forall>f c. quiet (own_files args) (tm_WriteAppConfig E f c)) \<and>
     (\<forall>b. is_ok (tm_UnmarshalAuth E b)) \<and> (\<forall>as. is_ok (tm_PackAccounts E as)) \<and>
     (\<forall>g. is_ok (tm_MarshalAuth E g)) \<and> (\<forall>b. is_ok (tm_UnmarshalBank E b)) \<and>
     (\<forall>a b. is_ok (tm_CoinsAdd E a b)) \<and> (\<forall>g. is_ok (tm_MarshalBank E g)) \<and>
     (\<forall>st. is_ok (tm_MarshalIndent E st)) \<and> (\<forall>f c b. quiet (own_files args) (tm_SaveGenesisDoc E f c b)) \<and>
     quiet (own_files args) (tm_Now E) \<and> (\<forall>f. quiet (own_files args) (tm_AppGenesisFromFile E f)) \<and>
     (\<forall>c ch d i p g. quiet (own_files args) (tm_GenAppStateFromConfig E c ch d i p g)) \<and>
     (\<forall>f c. quiet (own_files args) (tm_WriteNodeConfig E f c)) \<and>
     (\<forall>f c a t. quiet (own_files args) (tm_ExportGenesisFileWithTime E f c a t)) \<and>
     (\<forall>m. quiet (own_files args) (tm_PrintErr E m))"

lemma multi_env_okD:
  assumes "multi_env_ok L E args idf"
  shows "\<forall>i. sep \<notin> set (idf (node_name args i))" and "sep \<notin> set (idf (node_name args i))" and "inj idf"
    and "is_ok (genesis_coins L E)" and "is_ok (stake_of L E args i)"
    and "is_ok (tm_MarshalSecret E secret)" and "is_ok (tm_NewMsgCreateValidator E v p c n)"
    and "is_ok (tm_SetMsgs E m)" and "is_ok (tm_TxJSON E tx)"
    and "is_ok (tm_UnmarshalAuth E b)" and "is_ok (tm_PackAccounts E as)" and "is_ok (tm_MarshalAuth E g)"
    and "is_ok (tm_UnmarshalBank E b)" and "is_ok (tm_CoinsAdd E cs ds)" and "is_ok (tm_MarshalBank E bg)"
    and "is_ok (tm_MarshalIndent E st)"
  using assms by (simp_all add: multi_env_ok_def)

lemma multi_env_init:
  assumes "multi_env_ok L E args idf"
  shows "\<exists>pk s'. tm_InitializeNodeValidatorFiles E c s = (Ok (idf (Moniker c), pk), s') \<and> own_files args s' = own_files args s"
  using assms by (simp add: multi_env_ok_def)

lemma multi_env_quiet:
  assumes "multi_env_ok L E args idf"
  shows "quiet (own_files args) (tm_NewKeyring E b d)" and "quiet (own_files args) (tm_NewSigningAlgo E kb a)"
    and "quiet (own_files args) (tm_GenerateSaveCoinKey E kb n alg)" and "quiet (own_files args) (tm_Sign E c m kb n tx)"
    and "quiet (own_files args) (tm_WriteAppConfig E f app)" and "quiet (own_files args) (tm_SaveGenesisDoc E f c bs)"
    and "quiet (own_files args) (tm_Now E)" and "quiet (own_files args) (tm_AppGenesisFromFile E f)"
    and "quiet (own_files args) (tm_GenAppStateFromConfig E cfg ch dir i pk g)"
    and "quiet (own_files args) (tm_WriteNodeConfig E f cfg)"
    and "quiet (own_files args) (tm_ExportGenesisFileWithTime E f c st t)" and "quiet (own_files args) (tm_PrintErr E m)"
  using assms by (simp_all add: multi_env_ok_def)

lemma env_works:
  assumes E: "multi_env_ok L E args idf"
  shows "works (files_ok args idf k) (tm_NewKeyring E b d) (\<lambda>_. files_ok args idf k)"
    and "works (files_ok args idf k) (tm_NewSigningAlgo E kb a) (\<lambda>_. files_ok args idf k)"
    and "works (files_ok args idf k) (tm_GenerateSaveCoinKey E kb n alg) (\<lambda>_. files_ok args idf k)"
    and "works (files_ok args idf k) (tm_Sign E c m kb n tx) (\<lambda>_. files_ok args idf k)"
    and "works (files_ok args idf k) (tm_WriteAppConfig E f app) (\<lambda>_. files_ok args idf k)"
    and "works (files_ok args idf k) (tm_SaveGenesisDoc E f c bs) (\<lambda>_. files_ok args idf k)"
    and "works (files_ok args idf k) (tm_Now E) (\<lambda>_. files_ok args idf k)"
    and "works (files_ok args idf k) (tm_AppGenesisFromFile E f) (\<lambda>_. files_ok args idf k)"
    and "works (files_ok args idf k) (tm_GenAppStateFromConfig E cfg ch dir i pk g) (\<lambda>_. files_ok args idf k)"
    and "works (files_ok args idf k) (tm_WriteNodeConfig E f cfg) (\<lambda>_. files_ok args idf k)"
    and "works (files_ok args idf k) (tm_ExportGenesisFileWithTime E f c st t) (\<lambda>_. files_ok args idf k)"
    and "works (files_ok args idf k) (tm_PrintErr E m) (\<lambda>_. files_ok args idf k)"
  by (intro works_own multi_env_quiet [OF E] multi_env_okD(1) [OF E])+

section \<open>One node\<close>

definition node_files :: "init_args \<Rightarrow> (string \<Rightarrow> string) \<Rightarrow> nat \<Rightarrow> string list" where
  "node_files args idf k = map (\<lambda>j. gentx_file args (int j) (idf (node_name args (int j)))) [0..<k]"

definition node_ids :: "init_args \<Rightarrow> (string \<Rightarrow> string) \<Rightarrow> nat \<Rightarrow> string list" where
  "node_ids args idf k = map (\<lambda>j. idf (node_name args (int j))) [0..<k]"

lemma create_gentx_works:
  assumes E: "multi_env_ok L E args idf"
  shows "works (files_ok args idf k) (create_gentx L E args i kb addr pk memo) (\<lambda>_. files_ok args idf k)"
  unfolding create_gentx_def Let_def
  by (intro works_rules env_works [OF E] multi_env_okD [OF E])

lemma node_step_works:
  fixes E :: "('x world, 'v) multi_env"
  assumes "multi_env_ok L E args idf" and "sep \<notin> set (nodeDirPrefix args)"
  shows "works (files_ok args idf k) (node_step L E args (int k) st)
    (\<lambda>st' w. files_ok args idf (Suc k) w \<and> ls_nodeIDs st' = (ls_nodeIDs st)[k := idf (node_name args (int k))])"
proof -
  let ?P = "files_ok args idf k :: 'x world \<Rightarrow> bool" and ?id = "idf (node_name args (int k))"
  have d: "filepath_Join [node_dir args (int k), ''config''] = dir_path args (Suc (Suc (length (out_components args)))) (int k)"
    "node_dir args (int k) = dir_path args (Suc (length (out_components args))) (int k)"
    "filepath_Join [node_dir args (int k), ''key_seed.json''] = seed_path args (int k)"
    "filepath_Join [outputDir args, node_name args (int k), ''config'', ''gentx''] = out_path args (gentx_dir_components args (int k))"
    using out_Join_path [OF node_name_plain [OF assms(2)], of "[''config'']" args "int k"]
      out_Join_path [OF node_name_plain [OF assms(2)], of "[''key_seed.json'']" args "int k"]
    by (simp_all add: node_dir_path [OF assms(2)] dir_path_def seed_path_def gentx_dir_components_def
        gentx_dir_path(2) [OF assms(2)]) (simp_all add: plain_def sep_def)
  have g: "filepath_Join [out_path args (gentx_dir_components args (int k)), ''gentx-'' @ x @ ''.json''] = gentx_file args (int k) x" for x
    by (simp add: gentx_file_def gentx_dir_path(2) [OF assms(2)])
  have init': "works ?P (tm_InitializeNodeValidatorFiles E (c\<lparr>RootDir := r, Moniker := m, RPC_ListenAddress := l\<rparr>))
      (\<lambda>(x, pk) s. ?P s \<and> x = idf m)" for c r m l
  proof (rule worksI)
    fix s assume s: "?P s"
    obtain pk s' where "tm_InitializeNodeValidatorFiles E (c\<lparr>RootDir := r, Moniker := m, RPC_ListenAddress := l\<rparr>) s
        = (Ok (idf m, pk), s')" "own_files args s' = own_files args s"
      using multi_env_init [OF assms(1), of "c\<lparr>RootDir := r, Moniker := m, RPC_ListenAddress := l\<rparr>" s] by auto
    with s files_ok_cong [OF _ multi_env_okD(1) [OF assms(1)], of s' s k] show "\<exists>x s'. tm_InitializeNodeValidatorFiles E (c\<lparr>RootDir := r, Moniker := m, RPC_ListenAddress := l\<rparr>) s
        = (Ok x, s') \<and> (case x of (x, pk) \<Rightarrow> \<lambda>s. ?P s \<and> x = idf m) s'" by auto
  qed
  show ?thesis
    unfolding node_step_def Let_def
    unfolding d(1) d(3) d(4) g
    unfolding d(2)
    apply (rule works_step, intro works_rules MkdirAll_works assms(2), rule works_bind, rule or_remove_works,
      rule init', unfold split_beta, rule works_pure)
    apply (rule works_step, rule env_works [OF assms(1)])
    apply (rule works_step, rule env_works [OF assms(1)])
    apply (rule works_step, rule or_remove_works, rule env_works [OF assms(1)])
    apply (rule works_step, rule works_lift, rule multi_env_okD [OF assms(1)])
    apply (rule works_step, rule write_seed_works [OF assms(2)])
    apply (rule works_step, rule works_lift, rule multi_env_okD [OF assms(1)])
    apply (rule works_step, rule create_gentx_works [OF assms(1)])
    apply (rule works_bind, rule write_gentx_works [OF assms(2) multi_env_okD(1) [OF assms(1)]], assumption)
    apply (rule works_step, rule env_works [OF assms(1)])
    apply (rule works_ret, simp)
    done
qed

section \<open>The whole command\<close>

lemma fold_m_works:
  assumes "\<And>i a. i < n \<Longrightarrow> works (I i a) (body (int i) a) (I (Suc i))" and "k \<le> n"
  shows "works (I k a) (fold_m body [k..<n] a) (I n)"
  using assms(2)
proof (induction "n - k" arbitrary: k a)
  case (Suc d)
  then have u: "[k..<n] = k # [Suc k..<n]" by (simp add: upt_conv_Cons)
  show ?case
    unfolding u fold_m.simps using Suc by (intro works_bind [OF assms(1)]) auto
qed (simp add: works_ret)

lemma node_loop_works:
  fixes E :: "('x world, 'v) multi_env"
  assumes "multi_env_ok L E args idf" and "sep \<notin> set (nodeDirPrefix args)" and "n = nat (numValidators args)"
  shows "works (files_ok args idf 0)
    (fold_m (node_step L E args) [0..<n] (initial_loop_state E args cfg))
    (\<lambda>st w. files_ok args idf n w \<and> ls_nodeIDs st = node_ids args idf n)"
proof -
  let ?I = "\<lambda>k (st :: 'v loop_state) (w :: 'x world). files_ok args idf k w \<and> ls_nodeIDs st = node_ids args idf k @ replicate (n - k) ''''"
  have step: "works (?I i a) (node_step L E args (int i) a) (?I (Suc i))" if "i < n" for i a
  proof (rule works_pure, rule works_weaken, rule node_step_works [OF assms(1,2)])
    fix st' :: "'v loop_state" and w :: "'x world"
    assume a: "ls_nodeIDs a = node_ids args idf i @ replicate (n - i) ''''"
      and "files_ok args idf (Suc i) w \<and> ls_nodeIDs st' = (ls_nodeIDs a)[i := idf (node_name args (int i))]"
    moreover have "(replicate (n - i) '''')[0 := x] = x # replicate (n - Suc i) ''''" for x
      using that by (metis Suc_diff_Suc replicate_Suc list_update_code(2))
    ultimately show "?I (Suc i) st' w" by (simp add: node_ids_def list_update_append)
  qed
  have "works (?I 0 (initial_loop_state E args cfg)) (fold_m (node_step L E args) [0..<n] (initial_loop_state E args cfg)) (?I n)"
    by (rule fold_m_works [where I = ?I]) (use step in simp_all)
  then show ?thesis
    by (simp add: node_ids_def initial_loop_state_def assms(3))
qed

lemma add_supply_ok:
  assumes "\<And>a b. is_ok (tm_CoinsAdd E a b)"
  shows "is_ok (add_supply E bals s)"
proof (induction bals arbitrary: s)
  case (Cons b bals)
  obtain c where "tm_CoinsAdd E s (bal_Coins b) = Ok c" using assms [of s "bal_Coins b"] by (auto simp: is_ok_iff)
  with Cons show ?case by simp
qed simp

lemma initGenFiles_works:
  assumes E: "multi_env_ok L E args idf" and "length genFiles = nat n"
  shows "works (files_ok args idf k) (initGenFiles E chain accs bals genFiles n) (\<lambda>_. files_ok args idf k)"
  unfolding initGenFiles_def Let_def must_def save_genesis_docs_def
  by (intro works_rules multi_env_okD [OF E] add_supply_ok) (use assms(2) env_works(6) [OF E] in auto)

text \<open>Every node has every genesis transaction.\<close>

definition all_gentxs :: "init_args \<Rightarrow> (string \<Rightarrow> string) \<Rightarrow> nat \<Rightarrow> 'x world \<Rightarrow> bool" where
  "all_gentxs args idf n w \<longleftrightarrow> (\<forall>i < n. \<forall>j < n.
     fs_file w (gentx_file args (int i) (idf (node_name args (int j)))) \<noteq> None)"

lemma copy_gentxs_works:
  assumes E: "multi_env_ok L (E :: ('x world, 'v) multi_env) args idf" and "sep \<notin> set (nodeDirPrefix args)" and "IsAbs wd"
    and "n = nat (numValidators args)"
  shows "works (files_ok args idf n :: 'x world \<Rightarrow> bool) (copy_gentxs (Ok wd) args (node_files args idf n)) (\<lambda>_. all_gentxs args idf n)"
proof (rule worksI)
  fix w :: "'x world" assume w: "files_ok args idf n w"
  define ids where "ids = node_ids args idf n"
  have i: "length ids = n" "distinct ids" "\<forall>x \<in> set ids. sep \<notin> set x"
    "\<And>j. j < n \<Longrightarrow> ids ! j = idf (node_name args (int j))"
    using multi_env_okD(1) [OF E] injD [OF multi_env_okD(3) [OF E]]
    by (auto simp: ids_def node_ids_def distinct_map intro!: inj_onI dest!: injD [OF multi_env_okD(3) [OF E]])
  define txs where "txs = (\<lambda>j. the (fs_file w (gentx_file args (int j) (ids ! j))))"
  have "gentx_ready args n ids txs w"
    using w i(3,4) multi_env_okD(1) [OF E] by (auto simp: gentx_ready_def files_ok_def txs_def)
  from copies_all [OF assms(3,2) i(1-3) assms(4) this]
  obtain w' where "copy_gentxs (Ok wd) args (map (\<lambda>j. gentx_file args (int j) (ids ! j)) [0..<n]) w = (Ok (), w')"
    "\<forall>k < n. \<forall>j < n. fs_file w' (gentx_file args (int k) (ids ! j)) = Some (txs j)" by blast
  moreover have "map (\<lambda>j. gentx_file args (int j) (ids ! j)) [0..<n] = node_files args idf n"
    using i(4) by (simp add: node_files_def)
  ultimately show "\<exists>x s'. copy_gentxs (Ok wd) args (node_files args idf n) w = (Ok x, s') \<and> all_gentxs args idf n s'"
    using i(4) by (auto simp: all_gentxs_def)
qed

lemma all_gentxs_quiet:
  assumes "quiet (own_files args) m" and "\<forall>i. sep \<notin> set (idf (node_name args i))"
  shows "works (all_gentxs args idf n) m (\<lambda>_. all_gentxs args idf n)"
proof (rule works_quiet [OF assms(1)])
  fix s s' :: "'a world" assume "own_files args s' = own_files args s" "all_gentxs args idf n s"
  then show "all_gentxs args idf n s'"
    using own_filesD own_paths_mem(3) assms(2) unfolding all_gentxs_def by metis
qed

lemma collect_works:
  assumes E: "multi_env_ok L E args idf" and "length ids = nat (numValidators args)" and "length pks = nat (numValidators args)"
  shows "works (all_gentxs args idf n) (collectGenFiles E args cfg ids pks peers) (\<lambda>_. all_gentxs args idf n)"
proof -
  note q = multi_env_quiet [OF E, THEN all_gentxs_quiet, OF multi_env_okD(1) [OF E]]
  have step: "works (all_gentxs args idf n) (collect_step E args ids pks peers t (int i) a) (\<lambda>_. all_gentxs args idf n)"
    if "i < nat (numValidators args)" for i a t
    using that assms(2,3) unfolding collect_step_def Let_def
    by (cases a) (simp, intro works_step q works_ret, assumption)
  show ?thesis
    unfolding collectGenFiles_def
    by (intro works_step q fold_m_works [where I = "\<lambda>_ _. all_gentxs args idf n"] step works_ret) simp_all
qed

lemma write_testnet_completes:
  assumes "multi_env_ok L E args idf" and "sep \<notin> set (nodeDirPrefix args)" and "IsAbs wd"
    and "0 \<le> numValidators args" and "files_ok args idf 0 w"
  shows "\<exists>w'. write_testnet L E (Ok wd) cfg args w = (Ok (), w')
    \<and> (\<forall>i < numValidators args. \<forall>j < numValidators args. 0 \<le> i \<longrightarrow> 0 \<le> j \<longrightarrow>
         fs_file w' (gentx_file args i (idf (node_name args j))) \<noteq> None)"
proof -
  let ?n = "nat (numValidators args)"
  obtain st w1 where w1: "fold_m (node_step L E args) [0..<?n] (initial_loop_state E args cfg) w = (Ok st, w1)"
    "files_ok args idf ?n w1" "ls_nodeIDs st = node_ids args idf ?n"
    using worksD [OF node_loop_works [OF assms(1,2) refl, of cfg] assms(5)] by blast
  have c: "length (ls_valPubKeys st) = ?n" "length (ls_genFiles st) = ?n" "length (ls_nodeIDs st) = ?n"
    "ls_gentxsFiles st = node_files args idf ?n"
    using loop_collected [OF w1(1)] w1(3) by (auto simp: collected_def node_files_def node_ids_def)
  obtain w2 where w2: "initGenFiles E (chainID args) (ls_genAccounts st) (ls_genBalances st) (ls_genFiles st)
      (numValidators args) w1 = (Ok (), w2)" "files_ok args idf ?n w2"
    using worksD [OF initGenFiles_works [OF assms(1) c(2), where chain = "chainID args" and
        accs = "ls_genAccounts st" and bals = "ls_genBalances st"]
      w1(2)] by auto
  obtain w3 where w3: "copy_gentxs (Ok wd) args (ls_gentxsFiles st) w2 = (Ok (), w3)" "all_gentxs args idf ?n w3"
    using worksD [OF copy_gentxs_works [OF assms(1-3) refl] w2(2)] unfolding c(4) by auto
  obtain w4 where w4: "collectGenFiles E args (ls_nodeConfig st) (ls_nodeIDs st) (ls_valPubKeys st)
      (ls_persistentPeers st) w3 = (Ok (), w4)" "all_gentxs args idf ?n w4"
    using worksD [OF collect_works [OF assms(1) c(3,1)] w3(2)] by auto
  have "works (all_gentxs args idf ?n) (discard (tm_PrintErr E (''Successfully initialized '' @ Itoa (numValidators args)
      @ '' node directories''))) (\<lambda>_. all_gentxs args idf ?n)"
    by (intro works_discard all_gentxs_quiet multi_env_quiet [OF assms(1)] multi_env_okD(1) [OF assms(1)])
  from worksD [OF this w4(2)] obtain w5 where w5: "discard (tm_PrintErr E (''Successfully initialized '' @ Itoa (numValidators args)
      @ '' node directories'')) w4 = (Ok (), w5)" "all_gentxs args idf ?n w5" by auto
  have "write_testnet L E (Ok wd) cfg args w = (Ok (), w5)"
    using assms(4) w5(1) by (simp add: write_testnet_def finish_testnet_def w1(1) w2(1) w3(1) w4(1))
  moreover have "fs_file w5 (gentx_file args i (idf (node_name args j))) \<noteq> None"
    if "0 \<le> i" "i < numValidators args" "0 \<le> j" "j < numValidators args" for i j
    using w5(2) [unfolded all_gentxs_def, rule_format, of "nat i" "nat j"] that by simp
  ultimately show ?thesis by blast
qed


definition sample_id :: "string \<Rightarrow> string" where
  "sample_id t = ''id-'' @ t"

lemma multi_sample_env_ok: "multi_env_ok sample_lib multi_sample_env multi_sample_args sample_id"
proof -
  have "sep \<notin> set (nodeDirPrefix multi_sample_args)" by (simp add: multi_sample_args_def sep_def)
  then have "sep \<notin> set (sample_id (node_name multi_sample_args i))" for i
    using node_name_plain [of multi_sample_args i] by (simp add: plain_def sep_def sample_id_def)
  then show ?thesis
    by (simp add: multi_env_ok_def inj_def sample_id_def genesis_coins_def stake_of_def sample_lib_def quiet_ret)
       (simp add: plain_env_def multi_sample_args_def quiet_ret)
qed


end
