(* ===== verification/Testnet_Outcome.thy ===== *)
theory Testnet_Outcome
  imports Testnet_Run
begin

text \<open>
  What the multi-node testnet command leaves: the peers and the configurations of the nodes, one
  application state for all of them whose bank supply is the sum of the balances, and a gas price
  that does not depend on the flag.
\<close>

section \<open>Peers\<close>

theorem peers_name_every_node_witness:
  "\<exists>st s'. fold_m (node_step sample_lib multi_sample_env multi_sample_args) [0..<2]
      (initial_loop_state multi_sample_env multi_sample_args multi_sample_config) empty_world = (Ok st, s')
    \<and> (\<exists>peers. ls_persistentPeers st = strings_Join peers (CHR '','') \<and> length peers = 2
        \<and> peers ! 1 = ''id-n1@localhost:26653'')"
proof -
  have a: "sep \<notin> set (nodeDirPrefix multi_sample_args)" "nat (numValidators multi_sample_args) = 2"
    "startingIPAddress multi_sample_args = ''localhost''"
    by (simp_all add: multi_sample_args_def sep_def)
  have f: "files_ok multi_sample_args sample_id 0 empty_world"
    by (simp add: files_ok_def empty_world_def no_faults_def)
  obtain st s' where st: "fold_m (node_step sample_lib multi_sample_env multi_sample_args)
      [0..<nat (numValidators multi_sample_args)]
      (initial_loop_state multi_sample_env multi_sample_args multi_sample_config) empty_world = (Ok st, s')"
    "ls_nodeIDs st = node_ids multi_sample_args sample_id 2"
    using worksD [OF node_loop_works [OF multi_sample_env_ok a(1) refl, of multi_sample_config] f] unfolding a(2) by blast
  have i: "ls_nodeIDs st ! 1 = ''id-n1''"
    by (simp add: st(2) node_ids_def sample_id_def node_name_def multi_sample_args_def Itoa_def nat_text.simps digit_def)
  have p: "Itoa 26653 = ''26653''" by (simp add: Itoa_def nat_text.simps digit_def)
  have m: "node_memo multi_sample_args 1 ''id-n1'' = ''id-n1@localhost:26653''"
    by (simp add: node_memo_def a(3) p)
  obtain peers where peers: "ls_persistentPeers st = strings_Join peers (CHR '','')"
    "length peers = nat (numValidators multi_sample_args)"
    "\<forall>i < nat (numValidators multi_sample_args). \<exists>port. peers ! i = ls_nodeIDs st ! i @ ''@'' @ startingIPAddress multi_sample_args @ '':'' @ port
       \<and> port_text (peers ! i) = port
       \<and> port_text (P2P_ListenAddress (collected_config multi_sample_args (ls_persistentPeers st) (int i) (ls_nodeConfig st))) = port"
    using peers_name_every_node [OF st(1)] by blast
  have "port_text (P2P_ListenAddress (collected_config multi_sample_args (ls_persistentPeers st) (int 1) (ls_nodeConfig st))) = ''26653''"
    using port_text_Itoa [of "''tcp://0.0.0.0''" 26653] by (simp add: collected_config_def p)
  moreover have "1 < nat (numValidators multi_sample_args)" by (simp add: a(2))
  ultimately have "peers ! 1 = ''id-n1@localhost:26653''"
    using peers(3) [rule_format, of 1] unfolding i a(3) by simp
  with peers(1,2) st(1) show ?thesis unfolding a(2) by blast
qed

section \<open>The gas price\<close>

lemma without_gas_price:
  "node_name (args\<lparr>minGasPrices := g\<rparr>) = node_name args" "node_dir (args\<lparr>minGasPrices := g\<rparr>) = node_dir args"
  "port_of (args\<lparr>minGasPrices := g\<rparr>) = port_of args" "node_memo (args\<lparr>minGasPrices := g\<rparr>) = node_memo args"
  "node_app_config (args\<lparr>minGasPrices := g\<rparr>) = node_app_config args"
  "collected_config (args\<lparr>minGasPrices := g\<rparr>) = collected_config args"
  "create_gentx L E (args\<lparr>minGasPrices := g\<rparr>) = create_gentx L E args"
  "base_app_config E (args\<lparr>minGasPrices := g\<rparr>) = base_app_config E args"
  by (simp_all add: fun_eq_iff node_name_def node_dir_def port_of_def node_memo_def node_app_config_def
      collected_config_def create_gentx_def stake_of_def base_app_config_def Let_def)

lemma steps_without_gas_price:
  "node_step L E (args\<lparr>minGasPrices := g\<rparr>) = node_step L E args"
  "copy_gentx Getwd (args\<lparr>minGasPrices := g\<rparr>) = copy_gentx Getwd args"
  "collect_step E (args\<lparr>minGasPrices := g\<rparr>) = collect_step E args"
  by (intro ext, simp add: node_step_def copy_gentx_def collect_step_def without_gas_price Let_def split: prod.split)+

lemma write_without_gas_price: "write_testnet L E Getwd cfg (args\<lparr>minGasPrices := g\<rparr>) = write_testnet L E Getwd cfg args"
  by (simp add: write_testnet_def finish_testnet_def initial_loop_state_def without_gas_price copy_gentxs_def collectGenFiles_def
      steps_without_gas_price)

text \<open>
  C30: The flag for the minimum gas price has no effect: whatever price it gives, the command does
  the same, with the same result and the same files.
\<close>

theorem gas_price_flag_is_ignored:
  "initTestnetFiles L E Getwd cfg (args\<lparr>minGasPrices := g\<rparr>) = initTestnetFiles L E Getwd cfg args"
proof -
  have c: "args\<lparr>minGasPrices := g, chainID := r\<rparr> = args\<lparr>chainID := r\<rparr>\<lparr>minGasPrices := g\<rparr>" for r
    by simp
  have "bind (bind m (\<lambda>r. ret (args\<lparr>minGasPrices := g, chainID := ''chain-'' @ r\<rparr>))) (write_testnet L E Getwd cfg)
    = bind (bind m (\<lambda>r. ret (args\<lparr>chainID := ''chain-'' @ r\<rparr>))) (write_testnet L E Getwd cfg)" for m
    unfolding bind_assoc bind_ret c write_without_gas_price ..
  then show ?thesis by (simp add: initTestnetFiles_def write_without_gas_price)
qed

section \<open>One application state\<close>

lemma fold_m_state:
  assumes "\<And>i a s a' s'. i < n \<Longrightarrow> I i a s \<Longrightarrow> body (int i) a s = (Ok a', s') \<Longrightarrow> I (Suc i) a' s'"
    and "fold_m body [k..<n] a s = (Ok a', s')" and "k \<le> n" and "I k a s"
  shows "I n a' s'"
  using assms(2-4)
proof (induction "n - k" arbitrary: k a s)
  case (Suc d)
  then have u: "[k..<n] = k # [Suc k..<n]" by (simp add: upt_conv_Cons)
  from Suc.prems(1) obtain b t where "body (int k) a s = (Ok b, t)" "fold_m body [Suc k..<n] b t = (Ok a', s')"
    unfolding u by (auto simp: bind_Ok_iff)
  with Suc show ?case by (intro Suc.hyps(1) [of "Suc k" b t]) (auto intro: assms(1))
qed simp

text \<open>
  The genesis files as a map from their paths to their chain id, application state and time: only
  the export writes them, their place is given by the root directory, and the generated
  application state is not nil.
\<close>

definition genesis_laws ::
  "('s, 'v) multi_env \<Rightarrow> (string \<Rightarrow> string) \<Rightarrow> ('s \<Rightarrow> string \<rightharpoonup> string \<times> bytes option \<times> int) \<Rightarrow> bool" where
  "genesis_laws E place view \<longleftrightarrow>
     (\<forall>c. tm_GenesisFile E c = place (RootDir c)) \<and>
     (\<forall>f c a t s s'. tm_ExportGenesisFileWithTime E f c a t s = (Ok (), s') \<longrightarrow> view s' = (view s)(f \<mapsto> (c, a, t))) \<and>
     (\<forall>f. leaves view (tm_AppGenesisFromFile E f)) \<and> (\<forall>f c. leaves view (tm_WriteNodeConfig E f c)) \<and>
     (\<forall>c ch d i p g. leaves view (tm_GenAppStateFromConfig E c ch d i p g)) \<and>
     (\<forall>c ch d i p g s a s'. tm_GenAppStateFromConfig E c ch d i p g s = (Ok a, s') \<longrightarrow> a \<noteq> None)"

lemma export_writes_genesis:
  assumes "genesis_laws E place view" and "tm_ExportGenesisFileWithTime E f c a t s = (Ok (), s')"
  shows "view s' = (view s)(f \<mapsto> (c, a, t))"
proof -
  have "\<forall>f c a t s s'. tm_ExportGenesisFileWithTime E f c a t s = (Ok (), s') \<longrightarrow> view s' = (view s)(f \<mapsto> (c, a, t))"
    using assms(1) unfolding genesis_laws_def by (elim conjE)
  then show ?thesis using assms(2) by simp
qed

definition exported_until ::
  "(string \<Rightarrow> string) \<Rightarrow> ('s \<Rightarrow> string \<rightharpoonup> string \<times> bytes option \<times> int) \<Rightarrow> init_args \<Rightarrow> int \<Rightarrow> nat \<Rightarrow>
   node_config \<times> bytes option \<Rightarrow> 's \<Rightarrow> bool" where
  "exported_until place view args t k acc s \<longleftrightarrow> (0 < k \<longrightarrow> snd acc \<noteq> None) \<and>
     (\<forall>i < k. view s (place (node_dir args (int i))) = Some (chainID args, snd acc, t))"

lemma collect_step_exports:
  assumes "genesis_laws E place view" and "exported_until place view args t k acc s"
    and "collect_step E args ids pks peers t (int k) acc s = (Ok acc', s')"
  shows "exported_until place view args t (Suc k) acc' s'"
proof -
  obtain cfg app where acc: "acc = (cfg, app)" by (cases acc)
  let ?c = "cfg\<lparr>Moniker := node_name args (int k), RootDir := node_dir args (int k)\<rparr>"
  let ?d = "collected_config args peers (int k) ?c"
  from assms(3) obtain g s1 a s2 s3 where
    g: "tm_AppGenesisFromFile E (tm_GenesisFile E ?c) s = (Ok g, s1)" and
    a: "tm_GenAppStateFromConfig E ?c (chainID args) (filepath_Join [node_dir args (int k), ''config'', ''gentx''])
        (ids ! k) (pks ! k) g s1 = (Ok a, s2)" and
    w: "tm_WriteNodeConfig E (filepath_Join [RootDir ?d, ''config'', ''config.toml'']) ?d s2 = (Ok (), s3)" and
    e: "tm_ExportGenesisFileWithTime E (tm_GenesisFile E ?d) (chainID args) (if app = None then a else app) t s3 = (Ok (), s')" and
    acc': "acc' = (?d, if app = None then a else app)"
    by (auto simp: acc collect_step_def Let_def bind_Ok_iff split: if_splits)
  have l: "leaves view (tm_AppGenesisFromFile E (tm_GenesisFile E ?c))"
    "leaves view (tm_WriteNodeConfig E (filepath_Join [RootDir ?d, ''config'', ''config.toml'']) ?d)"
    "leaves view (tm_GenAppStateFromConfig E ?c (chainID args) (filepath_Join [node_dir args (int k), ''config'', ''gentx''])
        (ids ! k) (pks ! k) g)"
    using assms(1) by (simp_all add: genesis_laws_def)
  have v: "view s3 = view s"
    using leavesD [OF l(1) g] leavesD [OF l(3) a] leavesD [OF l(2) w] by simp
  have "a \<noteq> None" using assms(1) a unfolding genesis_laws_def by blast
  moreover note export_writes_genesis [OF assms(1) e]
  moreover have "tm_GenesisFile E ?d = place (node_dir args (int k))"
    using assms(1) by (simp add: genesis_laws_def collected_config_def)
  ultimately show ?thesis
    using assms(2) v by (auto simp: exported_until_def acc acc' less_Suc_eq)
qed


text \<open>A file system of genesis files alone.\<close>

definition genesis_env :: "(string \<rightharpoonup> string \<times> bytes option \<times> int, nat) multi_env" where
  "genesis_env = plain_env\<lparr>tm_ExportGenesisFileWithTime := \<lambda>f c a t s. (Ok (), s(f \<mapsto> (c, a, t)))\<rparr>"

lemma genesis_env_laws: "genesis_laws genesis_env (\<lambda>d. d @ ''/genesis.json'') (\<lambda>s. s)"
  by (auto simp: genesis_laws_def genesis_env_def plain_env_def ret_def leaves_def)


section \<open>The supply at genesis\<close>

lemma must_Ok: "must r s = (Ok x, s') \<longleftrightarrow> r = Ok x \<and> s' = s"
  by (cases r) (auto simp: must_def or_panic_def lift_outcome_def ret_def)

definition balances_of :: "string \<Rightarrow> balance list \<Rightarrow> int" where
  "balances_of d bals = sum_list (map (\<lambda>b. coins_of d (bal_Coins b)) bals)"

text \<open>What the SDK promises of its coins and of the bank's genesis.\<close>

definition bank_laws :: "('s, 'v) multi_env \<Rightarrow> bool" where
  "bank_laws E \<longleftrightarrow>
     (\<forall>a b c d. tm_CoinsAdd E a b = Ok c \<longrightarrow> coins_of d c = coins_of d a + coins_of d b) \<and>
     (\<forall>g b. tm_MarshalBank E g = Ok b \<longrightarrow> tm_UnmarshalBank E b = Ok g) \<and>
     (\<forall>d bals. balances_of d (tm_SanitizeGenesisBalances E bals) = balances_of d bals) \<and>
     tm_AuthModuleName E \<noteq> tm_BankModuleName E"

lemma add_supply_sum:
  assumes "bank_laws E" and "add_supply E bals s = Ok s'"
  shows "coins_of d s' = coins_of d s + balances_of d bals"
  using assms(2)
proof (induction bals arbitrary: s)
  case (Cons b bals)
  then obtain c where "tm_CoinsAdd E s (bal_Coins b) = Ok c" "add_supply E bals c = Ok s'"
    by (auto simp: obind_eq_Ok)
  with Cons.IH assms(1) show ?case by (simp add: bank_laws_def balances_of_def)
qed (simp add: balances_of_def)

text \<open>
  In the genesis that is saved for every node the bank's supply of each denomination is the
  default supply plus the balances of all nodes, and the balances are the nodes' balances.
\<close>

lemma saved_supply:
  assumes "bank_laws E" and "initGenFiles E chain accs bals files n s = (Ok (), s')"
  shows "\<exists>json st b bank bank0. tm_MarshalIndent E st = Ok json \<and> st (tm_BankModuleName E) = Some b
    \<and> tm_UnmarshalBank E b = Ok bank
    \<and> tm_UnmarshalBank E (raw_genesis (tm_DefaultGenesis E) (tm_BankModuleName E)) = Ok bank0
    \<and> (\<forall>d. coins_of d (bank_Supply bank) = coins_of d (bank_Supply bank0) + balances_of d bals)
    \<and> bank_Balances bank = tm_SanitizeGenesisBalances E bals
    \<and> save_genesis_docs E chain json files n s = (Ok (), s')"
proof -
  let ?auth = "tm_AuthModuleName E" and ?bank = "tm_BankModuleName E"
  from assms(2) obtain authJSON bank0 supp bankJSON json where
    b0: "tm_UnmarshalBank E (raw_genesis ((tm_DefaultGenesis E)(?auth \<mapsto> authJSON)) ?bank) = Ok bank0" and
    sup: "add_supply E (tm_SanitizeGenesisBalances E bals) (bank_Supply bank0) = Ok supp" and
    bj: "tm_MarshalBank E (bank0\<lparr>bank_Balances := tm_SanitizeGenesisBalances E bals, bank_Supply := supp\<rparr>) = Ok bankJSON" and
    j: "tm_MarshalIndent E ((tm_DefaultGenesis E)(?auth \<mapsto> authJSON, ?bank \<mapsto> bankJSON)) = Ok json" and
    sv: "save_genesis_docs E chain json files n s = (Ok (), s')"
    by (auto simp: initGenFiles_def Let_def bind_Ok_iff must_Ok)
  have r: "raw_genesis ((tm_DefaultGenesis E)(?auth \<mapsto> authJSON)) ?bank = raw_genesis (tm_DefaultGenesis E) ?bank"
    using assms(1) by (auto simp: bank_laws_def raw_genesis_def)
  have u: "tm_UnmarshalBank E bankJSON = Ok (bank0\<lparr>bank_Balances := tm_SanitizeGenesisBalances E bals, bank_Supply := supp\<rparr>)"
    using assms(1) bj by (simp add: bank_laws_def)
  have "\<forall>d. coins_of d supp = coins_of d (bank_Supply bank0) + balances_of d bals"
    using add_supply_sum [OF assms(1) sup] assms(1) by (simp add: bank_laws_def)
  with j u b0 sv show ?thesis
    unfolding r
    by - (rule exI [of _ json], rule exI [of _ "(tm_DefaultGenesis E)(?auth \<mapsto> authJSON, ?bank \<mapsto> bankJSON)"],
        rule exI [of _ bankJSON], rule exI [of _ "bank0\<lparr>bank_Balances := tm_SanitizeGenesisBalances E bals, bank_Supply := supp\<rparr>"],
        rule exI [of _ bank0], simp)
qed

text \<open>A codec that writes the genesis of two given balances and refuses every other one.\<close>

definition two_balances :: "balance list" where
  "two_balances = [\<lparr>bal_Address = ''a'', bal_Coins = [\<lparr>denom = ''ubps'', amount = 40\<rparr>]\<rparr>,
     \<lparr>bal_Address = ''b'', bal_Coins = [\<lparr>denom = ''ubps'', amount = 2\<rparr>]\<rparr>]"

definition two_genesis :: "nat bank_genesis" where
  "two_genesis = \<lparr>bank_Balances = two_balances,
     bank_Supply = [\<lparr>denom = ''ubps'', amount = 40\<rparr>, \<lparr>denom = ''ubps'', amount = 2\<rparr>], bank_Rest = 0\<rparr>"

definition bank_env :: "(unit, nat) multi_env" where
  "bank_env = plain_env\<lparr>
     tm_MarshalBank := \<lambda>g. if g = two_genesis then Ok [1] else Err (Error_text ''codec''),
     tm_UnmarshalBank := \<lambda>b. Ok (if b = [1] then two_genesis else two_genesis\<lparr>bank_Balances := [], bank_Supply := []\<rparr>)\<rparr>"

lemma bank_env_laws: "bank_laws bank_env"
  by (auto simp: bank_laws_def bank_env_def plain_env_def coins_of_def split: if_splits)

theorem saved_supply_witness:
  "\<exists>st b bank. initGenFiles bank_env ''bps-1'' [5, 5] two_balances [''f'', ''g''] 2 () = (Ok (), ())
    \<and> st ''bank'' = Some b \<and> tm_UnmarshalBank bank_env b = Ok bank
    \<and> coins_of ''ubps'' (bank_Supply bank) = 42"
proof -
  have i: "initGenFiles bank_env ''bps-1'' [5, 5] two_balances [''f'', ''g''] 2 () = (Ok (), ())"
    by (simp add: initGenFiles_def save_genesis_docs_def Let_def bank_env_def plain_env_def must_def or_panic_def
        two_genesis_def two_balances_def upt_rec raw_genesis_def ret_def bind_def lift_outcome_def)
  have e: "tm_BankModuleName bank_env = ''bank''" "coins_of ''ubps'' [] = 0" "balances_of ''ubps'' two_balances = 42"
    by (simp_all add: bank_env_def plain_env_def balances_of_def two_balances_def coins_of_def)
  have z: "tm_UnmarshalBank bank_env (raw_genesis (tm_DefaultGenesis bank_env) ''bank'') = Ok bank0
    \<Longrightarrow> bank_Supply bank0 = []" for bank0
    by (auto simp: bank_env_def plain_env_def raw_genesis_def)
  obtain st b bank bank0 where g: "st ''bank'' = Some b" "tm_UnmarshalBank bank_env b = Ok bank"
    "tm_UnmarshalBank bank_env (raw_genesis (tm_DefaultGenesis bank_env) ''bank'') = Ok bank0"
    "\<forall>d. coins_of d (bank_Supply bank) = coins_of d (bank_Supply bank0) + balances_of d two_balances"
    using saved_supply [OF bank_env_laws i] unfolding e by blast
  have "coins_of ''ubps'' (bank_Supply bank) = 42" using g(4) z [OF g(3)] e(2,3) by simp
  with i g(1,2) show ?thesis by blast
qed

end
