(* ===== verification/Testnet_Takeover.thy ===== *)
theory Testnet_Takeover
  imports Testnet_InPlace
begin

text \<open>
  The in-place testnet command as a whole: what the initialisation leaves of the staking store
  and of the bank, seen side by side.
\<close>

section \<open>Two views at once\<close>

lemma runs_left:
  assumes "runs v m w x w'" and "leaves f m"
  shows "runs (\<lambda>s. (v s, f s)) m (w, b) x (w', b)"
  unfolding runs_def
proof (intro allI impI)
  fix s assume "(v s, f s) = (w, b)"
  then obtain s' where s': "m s = (Ok x, s')" "v s' = w'" and b: "f s = b"
    using runsD [OF assms(1), of s] by auto
  moreover have "f s' = f s" using leavesD [OF assms(2) s'(1)] .
  ultimately show "\<exists>s'. m s = (Ok x, s') \<and> (v s', f s') = (w', b)" by simp
qed

lemma runs_right:
  assumes "runs f m b x b'" and "leaves v m"
  shows "runs (\<lambda>s. (v s, f s)) m (w, b) x (w, b')"
  unfolding runs_def
proof (intro allI impI)
  fix s assume "(v s, f s) = (w, b)"
  then obtain s' where s': "m s = (Ok x, s')" "f s' = b'" and w: "v s = w"
    using runsD [OF assms(1), of s] by auto
  moreover have "v s' = v s" using leavesD [OF assms(2) s'(1)] .
  ultimately show "\<exists>s'. m s = (Ok x, s') \<and> (v s', f s') = (w, b')" by simp
qed

section \<open>What the keepers promise\<close>

text \<open>
  Where and how the staking store keeps a validator: its record by operator address, its operator by
  consensus address, its entry in the power index and its last power. The calls that write them write
  nothing else there. They work for a validator whose operator address decodes; the entry by consensus
  address needs a public key that can be read, the power index takes no jailed validator, and the hook
  needs the record that was stored.
\<close>

record 'any validator_keys =
  by_operator :: "bytes \<Rightarrow> bytes"
  by_consensus :: "bytes \<Rightarrow> bytes"
  by_power :: "'any new_validator \<Rightarrow> bytes"
  as_last :: "bytes \<Rightarrow> bytes"
  record_bytes :: "'any new_validator \<Rightarrow> bytes"
  power_bytes :: "int \<Rightarrow> bytes"
  cons_address :: "'any \<Rightarrow> bytes option"

definition setter_laws ::
  "('s, 'k, 'any) testnet_env \<Rightarrow> ('s \<Rightarrow> bytes \<rightharpoonup> bytes) \<Rightarrow> 'any validator_keys \<Rightarrow> bool" where
  "setter_laws E v K \<longleftrightarrow>
     (\<forall>nv a w. StringToBytes (tn_ValidatorCodec E) (nv_OperatorAddress nv) = Ok a \<longrightarrow>
        runs v (tn_SetValidator E nv) w () (w(by_operator K a \<mapsto> record_bytes K nv)) \<and>
        (\<forall>c. cons_address K (nv_ConsensusPubkey nv) = Some c \<longrightarrow>
           runs v (tn_SetValidatorByConsAddr E nv) w () (w(by_consensus K c \<mapsto> a))) \<and>
        (\<not> nv_Jailed nv \<longrightarrow> runs v (tn_SetValidatorByPowerIndex E nv) w () (w(by_power K nv \<mapsto> a)))) \<and>
     (\<forall>a p w. runs v (tn_SetLastValidatorPower E a p) w () (w(as_last K a \<mapsto> power_bytes K p))) \<and>
     (\<forall>a nv w. w (by_operator K a) = Some (record_bytes K nv) \<and> cons_address K (nv_ConsensusPubkey nv) \<noteq> None \<longrightarrow>
        runs v (tn_AfterValidatorCreated E a) w () w) \<and>
     (\<forall>a n m. quiet v (tn_SetValidatorHistoricalRewards E a n m)) \<and>
     (\<forall>a n. quiet v (tn_SetValidatorCurrentRewards E a n)) \<and>
     (\<forall>a. quiet v (tn_SetValidatorAccumulatedCommission E a)) \<and>
     (\<forall>a. quiet v (tn_SetValidatorOutstandingRewards E a))"

text \<open>
  The bank is not touched by the staking store's operations, nor the store by the bank's. Setting
  the signing info may fail: its error is dropped. It does not panic.
\<close>

definition untouched_bank :: "('s, 'k, 'any) testnet_env \<Rightarrow> ('s \<Rightarrow> fund_view) \<Rightarrow> bool" where
  "untouched_bank E f \<longleftrightarrow>
     leaves f (tn_PowerStoreIterator E) \<and> leaves f (tn_LastValidatorsIterator E) \<and>
     (\<forall>p q. leaves f (tn_StoreIterator E p q)) \<and> (\<forall>k. leaves f (tn_StoreDelete E k)) \<and>
     leaves f (tn_CloseIterator E) \<and>
     (\<forall>nv. leaves f (tn_SetValidator E nv)) \<and> (\<forall>nv. leaves f (tn_SetValidatorByConsAddr E nv)) \<and>
     (\<forall>nv. leaves f (tn_SetValidatorByPowerIndex E nv)) \<and>
     (\<forall>a p. leaves f (tn_SetLastValidatorPower E a p)) \<and>
     (\<forall>a. leaves f (tn_AfterValidatorCreated E a)) \<and>
     (\<forall>a n m. leaves f (tn_SetValidatorHistoricalRewards E a n m)) \<and>
     (\<forall>a n. leaves f (tn_SetValidatorCurrentRewards E a n)) \<and>
     (\<forall>a. leaves f (tn_SetValidatorAccumulatedCommission E a)) \<and>
     (\<forall>a. leaves f (tn_SetValidatorOutstandingRewards E a)) \<and>
     (\<forall>a i. leaves f (tn_SetValidatorSigningInfo E a i)) \<and> (\<forall>e. leaves f (tn_PrintErr E e))"

definition untouched_store :: "('s, 'k, 'any) testnet_env \<Rightarrow> ('s \<Rightarrow> bytes \<rightharpoonup> bytes) \<Rightarrow> bool" where
  "untouched_store E v \<longleftrightarrow>
     leaves v (tn_BondDenom E) \<and> (\<forall>m cs. leaves v (tn_MintCoins E m cs)) \<and>
     (\<forall>m a cs. leaves v (tn_SendCoinsFromModuleToAccount E m a cs)) \<and>
     (\<forall>a i. leaves v (tn_SetValidatorSigningInfo E a i)) \<and> (\<forall>e. leaves v (tn_PrintErr E e))"

text \<open>No key lies in two of the four spaces, and the entry by consensus address in none.\<close>

definition spaces_apart ::
  "('s, 'k, 'any) testnet_env \<Rightarrow> 'any validator_keys \<Rightarrow> bytes \<Rightarrow> bytes \<Rightarrow> bool" where
  "spaces_apart E K pkey lkey \<longleftrightarrow>
     (let S = [pkey, lkey, tn_ValidatorsKey E, tn_ValidatorQueueKey E] in
      (\<forall>i < 4. \<forall>j < 4. \<forall>k. has_prefix (S ! i) k \<longrightarrow> has_prefix (S ! j) k \<longrightarrow> i = j) \<and>
      (\<forall>nv. has_prefix pkey (by_power K nv)) \<and>
      (\<forall>c. \<forall>p \<in> set S. \<not> has_prefix p (by_consensus K c)) \<and>
      (\<forall>a. has_prefix lkey (as_last K a) \<and> has_prefix (tn_ValidatorsKey E) (by_operator K a)))"

section \<open>The initialisation\<close>

lemma leaves_handleErr:
  assumes "leaves f m" and "\<And>e. leaves f (tn_PrintErr E e)"
  shows "leaves f (handleErr E m)"
proof (rule leavesI)
  fix s r s' assume "handleErr E m s = (r, s')"
  then show "f s' = f s"
    using leavesD [OF assms(1)] leavesD [OF assms(2)]
    by (cases "m s"; cases "fst (m s)") (auto simp: handleErr_def, metis surjective_pairing)
qed

lemma leaves_delete_loop:
  assumes "\<And>k. leaves f (tn_StoreDelete E k)"
  shows "leaves f (delete_loop E c)"
proof (induction c)
  case Ended
  show ?case by (simp add: leaves_def)
next
  case (At key follow)
  have "leaves f (\<lambda>s. delete_loop E (follow s) s)"
    by (rule leavesI) (rule leavesD [OF At.IH], auto)
  then show ?case using assms by (auto intro: leaves_rules)
qed

lemma clear_leaves_bank: "untouched_bank E f \<Longrightarrow> leaves f (clear_validators E)"
  unfolding clear_validators_def delete_keys_def untouched_bank_def
  by (intro leaves_rules leaves_handleErr leaves_delete_loop) auto

lemma add_leaves_bank: "untouched_bank E f \<Longrightarrow> leaves f (add_validator E nv a)"
  unfolding add_validator_def untouched_bank_def by (intro leaves_rules leaves_handleErr) auto

lemma fund_leaves_store: "untouched_store E v \<Longrightarrow> leaves v (fund_accounts L E accounts)"
  unfolding fund_accounts_def fund_account_def untouched_store_def
  by (intro leaves_rules leaves_handleErr) auto

lemma runs_add_validator:
  assumes "setter_laws E v K" and "StringToBytes (tn_ValidatorCodec E) (nv_OperatorAddress nv) = Ok a"
    and "cons_address K (nv_ConsensusPubkey nv) = Some c" and "\<not> nv_Jailed nv"
    and "by_operator K a \<notin> {by_consensus K c, by_power K nv, as_last K a}"
  shows "runs v (add_validator E nv a) w ()
    (w(by_operator K a \<mapsto> record_bytes K nv, by_consensus K c \<mapsto> a, by_power K nv \<mapsto> a, as_last K a \<mapsto> power_bytes K 0))"
proof -
  note L = assms(1) [unfolded setter_laws_def]
  have s: "runs v (tn_SetValidator E nv) w () (w(by_operator K a \<mapsto> record_bytes K nv))"
    "runs v (tn_SetValidatorByConsAddr E nv) w () (w(by_consensus K c \<mapsto> a))"
    "runs v (tn_SetValidatorByPowerIndex E nv) w () (w(by_power K nv \<mapsto> a))"
    "runs v (tn_SetLastValidatorPower E a p) w () (w(as_last K a \<mapsto> power_bytes K p))" for w p
    using L [THEN conjunct1, rule_format, OF assms(2)] assms(3,4) L by blast+
  have h: "runs v (tn_AfterValidatorCreated E a) w () w" if "w (by_operator K a) = Some (record_bytes K nv)" for w
    using L that assms(3) by (metis option.distinct(1))
  have q: "runs v (tn_SetValidatorHistoricalRewards E a n m) w () w"
    "runs v (tn_SetValidatorCurrentRewards E a n) w () w"
    "runs v (tn_SetValidatorAccumulatedCommission E a) w () w"
    "runs v (tn_SetValidatorOutstandingRewards E a) w () w" for w n m
    using L by (blast intro: runs_quiet)+
  show ?thesis
    unfolding add_validator_def
    by (rule runs_bind [OF runs_handleErr [OF s(1)]] runs_bind [OF runs_handleErr [OF s(2)]]
        runs_bind [OF runs_handleErr [OF s(3)]] runs_bind [OF runs_handleErr [OF s(4)]]
        runs_bind [OF runs_handleErr [OF h]] runs_bind [OF runs_handleErr [OF q(1)]] runs_bind [OF runs_handleErr [OF q(2)]]
        runs_bind [OF runs_handleErr [OF q(3)]] runs_handleErr [OF q(4)] | use assms(5) in simp)+
qed

lemma runs_set_signing_info:
  assumes "\<And>a i. leaves g (tn_SetValidatorSigningInfo E a i)"
    and "\<And>a i. returns_or_errs (tn_SetValidatorSigningInfo E a i)"
  shows "runs g (set_signing_info E args) w () w"
  unfolding set_signing_info_def Let_def by (rule runs_dropped [OF assms(2,1)])

lemma runs_initApp:
  assumes "store_laws E v pkey lkey" and "fund_laws L E f blocked d" and "setter_laws E v K"
    and "untouched_bank E f" and "untouched_store E v"
    and "\<And>a i. returns_or_errs (tn_SetValidatorSigningInfo E a i)"
    and any: "tn_NewAnyWithValue E (tn_PubKey_Bytes E (newValPubKey args)) = Ok pk"
    and op: "StringToBytes (tn_ValidatorCodec E) (newOperatorAddress args) = Ok a"
    and "cons_address K pk = Some c"
    and "\<forall>x \<in> set (accountsToFund args). StringToBytes (tn_AuthCodec E) x = Ok (A x) \<and> \<not> blocked (A x)"
    and "0 \<le> fv_module b" and "finite (dom w)" and nv: "nv = new_testnet_validator (newOperatorAddress args) pk"
    and "by_operator K a \<notin> {by_consensus K c, by_power K nv, as_last K a}"
  shows "runs (\<lambda>s. (v s, f s)) (initAppForTestnet L E args) (w, b) ()
    ((cleared E pkey lkey w)(by_operator K a \<mapsto> record_bytes K nv, by_consensus K c \<mapsto> a, by_power K nv \<mapsto> a,
        as_last K a \<mapsto> power_bytes K 0),
     funded (map A (accountsToFund args)) b)"
proof -
  let ?v = "\<lambda>s. (v s, f s)"
  have o': "nv_OperatorAddress nv = newOperatorAddress args" "nv_ConsensusPubkey nv = pk" "\<not> nv_Jailed nv"
    by (simp_all add: nv new_testnet_validator_def)
  have si: "leaves ?v (tn_SetValidatorSigningInfo E a i)" for a i
    using assms(4,5) by (auto simp: untouched_bank_def untouched_store_def leaves_def)
  note c = runs_left [OF runs_clear_validators [OF assms(1,12)] clear_leaves_bank [OF assms(4)]]
  have n: "runs ?v (add_validator E nv a) (w, b) ()
      (w(by_operator K a \<mapsto> record_bytes K nv, by_consensus K c \<mapsto> a, by_power K nv \<mapsto> a, as_last K a \<mapsto> power_bytes K 0), b)" for w b
    using runs_left [OF runs_add_validator [OF assms(3), of nv a c] add_leaves_bank [OF assms(4)]] op assms(9,14) o' by simp
  note g = runs_right [OF runs_fund_accounts [OF assms(2,11,10)] fund_leaves_store [OF assms(5)]]
  show ?thesis
    unfolding initAppForTestnet_def Let_def nv [symmetric]
    by (rule runs_bind [OF runs_handleErr [OF runs_lift [OF any]]]
        runs_bind [OF runs_handleErr [OF runs_lift]] runs_bind [OF c] runs_bind [OF n]
        runs_bind [OF runs_set_signing_info [OF si assms(6)]] g
      | simp only: o' op flip: nv)+
qed

lemma in_space:
  assumes "spaces_apart E K pkey lkey"
  shows "has_prefix pkey (by_power K nv)" "has_prefix (tn_ValidatorsKey E) (by_operator K a)"
    "has_prefix lkey (as_last K a)" "\<not> has_prefix pkey (by_consensus K c)"
    "\<not> has_prefix lkey (by_consensus K c)" "\<not> has_prefix (tn_ValidatorsKey E) (by_consensus K c)"
    "\<not> has_prefix (tn_ValidatorQueueKey E) (by_consensus K c)"
    "has_prefix pkey k \<Longrightarrow> \<not> has_prefix lkey k" "has_prefix pkey k \<Longrightarrow> \<not> has_prefix (tn_ValidatorsKey E) k"
    "has_prefix pkey k \<Longrightarrow> \<not> has_prefix (tn_ValidatorQueueKey E) k"
    "has_prefix lkey k \<Longrightarrow> \<not> has_prefix (tn_ValidatorsKey E) k"
    "has_prefix lkey k \<Longrightarrow> \<not> has_prefix (tn_ValidatorQueueKey E) k"
    "has_prefix (tn_ValidatorsKey E) k \<Longrightarrow> \<not> has_prefix (tn_ValidatorQueueKey E) k"
proof -
  let ?S = "[pkey, lkey, tn_ValidatorsKey E, tn_ValidatorQueueKey E]"
  have a: "has_prefix (?S ! i) k \<Longrightarrow> has_prefix (?S ! j) k \<Longrightarrow> i < 4 \<Longrightarrow> j < 4 \<Longrightarrow> i = j" for i j k
    using assms unfolding spaces_apart_def Let_def by blast
  show "has_prefix pkey k \<Longrightarrow> \<not> has_prefix lkey k" "has_prefix pkey k \<Longrightarrow> \<not> has_prefix (tn_ValidatorsKey E) k"
    "has_prefix pkey k \<Longrightarrow> \<not> has_prefix (tn_ValidatorQueueKey E) k"
    "has_prefix lkey k \<Longrightarrow> \<not> has_prefix (tn_ValidatorsKey E) k"
    "has_prefix lkey k \<Longrightarrow> \<not> has_prefix (tn_ValidatorQueueKey E) k"
    "has_prefix (tn_ValidatorsKey E) k \<Longrightarrow> \<not> has_prefix (tn_ValidatorQueueKey E) k"
    using a [of 0 k 1] a [of 0 k 2] a [of 0 k 3] a [of 1 k 2] a [of 1 k 3] a [of 2 k 3] by auto
qed (use assms in \<open>auto simp: spaces_apart_def Let_def\<close>)


section \<open>A store of keys and a bank\<close>

text \<open>The entries of a staking store beside a bank, with an iterator that follows the store.\<close>

primrec follow_key :: "bytes \<Rightarrow> nat \<Rightarrow> entries \<times> fund_view \<Rightarrow> (entries \<times> fund_view) cursor" where
  "follow_key p 0 s = Ended"
| "follow_key p (Suc n) s = (case find (\<lambda>(k, x). has_prefix p k) (fst s) of
     None \<Rightarrow> Ended | Some (k, x) \<Rightarrow> At k (follow_key p n))"

definition iterate_over :: "bytes \<Rightarrow> (entries \<times> fund_view, (entries \<times> fund_view) cursor) eff" where
  "iterate_over p = (\<lambda>s. (Ok (follow_key p (length (fst s)) s), s))"

lemma follow_key_walks:
  "walks map_of p K (first_key p n w) \<Longrightarrow> K = keys_with p (map_of w) \<Longrightarrow> walks (\<lambda>s. map_of (fst s)) p K (follow_key p n (w, b))"
proof (induction n arbitrary: K w b)
  case 0
  then have "K = {}" by (auto elim: walks.cases)
  then show ?case by (simp add: walks_end)
next
  case (Suc n)
  show ?case
  proof (cases "find (\<lambda>(k, x). has_prefix p k) w")
    case None
    with Suc.prems have "K = {}" by (auto elim: walks.cases)
    with None show ?thesis by (simp add: walks_end)
  next
    case (Some e)
    obtain k x where e: "e = (k, x)" by (cases e)
    from Suc.prems(1) Some e have k: "k \<in> K"
      "\<And>w. keys_with p (map_of w) = K - {k} \<Longrightarrow> walks map_of p (K - {k}) (first_key p n w)"
      by (auto elim: walks.cases)
    have "walks (\<lambda>s. map_of (fst s)) p (K - {k}) (follow_key p n s)" if "keys_with p (map_of (fst s)) = K - {k}" for s
      using Suc.IH [OF k(2) [OF that] that [symmetric], of "snd s"] by simp
    then show ?thesis using Some e walks_key [where v = "\<lambda>s. map_of (fst s)" and follow = "follow_key p n", OF k(1)] by simp
  qed
qed

lemma iterate_over_opens: "opens (\<lambda>s. map_of (fst s)) p (iterate_over p)"
  unfolding opens_def
proof (intro allI impI)
  fix s :: "entries \<times> fund_view"
  have "walks map_of p (keys_with p (map_of (fst s))) (first_key p (length (fst s)) (fst s))"
    using open_at_opens [of p] by (auto simp: opens_def open_at_def finite_dom_map_of)
  from follow_key_walks [OF this refl, of "snd s"]
  show "\<exists>c s'. iterate_over p s = (Ok c, s') \<and> map_of (fst s') = map_of (fst s)
      \<and> walks (\<lambda>s. map_of (fst s)) p (keys_with p (map_of (fst s))) c"
    by (simp add: iterate_over_def)
qed

abbreviation put_entry :: "bytes \<Rightarrow> bytes \<Rightarrow> entries \<times> fund_view \<Rightarrow> unit outcome \<times> (entries \<times> fund_view)" where
  "put_entry k x s \<equiv> (Ok (), ((k, x) # fst s, snd s))"

definition takeover_store :: "(entries \<times> fund_view, unit, unit) testnet_env" where
  "takeover_store = idle_testnet\<lparr>
     tn_PowerStoreIterator := iterate_over [0x23], tn_LastValidatorsIterator := iterate_over [0x11],
     tn_StoreIterator := (\<lambda>p e. iterate_over p),
     tn_StoreDelete := (\<lambda>k s. (Ok (), (filter (\<lambda>(k', x). k' \<noteq> k) (fst s), snd s))),
     tn_SetValidator := (\<lambda>nv s. if nv_OperatorAddress nv = '''' then (Err (Error_text ''empty address''), s)
       else put_entry (0x21 # bytes_of_string (nv_OperatorAddress nv)) [1] s),
     tn_SetValidatorByConsAddr := (\<lambda>nv. put_entry [0x22] (bytes_of_string (nv_OperatorAddress nv))),
     tn_SetValidatorByPowerIndex := (\<lambda>nv s. if nv_Jailed nv then (Ok (), s)
       else put_entry (0x23 # bytes_of_string (nv_OperatorAddress nv)) (bytes_of_string (nv_OperatorAddress nv)) s),
     tn_SetLastValidatorPower := (\<lambda>a p. put_entry (0x11 # a) [0]),
     tn_AfterValidatorCreated := (\<lambda>a s. if map_of (fst s) (0x21 # a) = None then (Err (Error_text ''no validator''), s) else (Ok (), s)),
     tn_SetValidatorSigningInfo := (\<lambda>a i. raise (Error_text ''dropped'')),
     tn_MintCoins := (\<lambda>m cs s. (Ok (), (fst s, minted (sum_list (map amount cs)) (snd s)))),
     tn_SendCoinsFromModuleToAccount := (\<lambda>m a cs s.
       if a = bytes_of_string ''mint'' then (Err (Error_text ''unauthorized''), s)
       else if sum_list (map amount cs) \<le> fv_module (snd s)
       then (Ok (), (fst s, paid a (sum_list (map amount cs)) (snd s)))
       else (Err (Error_text ''insufficient funds''), s))\<rparr>"

definition takeover_keys :: "unit validator_keys" where
  "takeover_keys = \<lparr>by_operator = \<lambda>a. 0x21 # a, by_consensus = \<lambda>c. [0x22],
     by_power = \<lambda>nv. 0x23 # bytes_of_string (nv_OperatorAddress nv), as_last = \<lambda>a. 0x11 # a,
     record_bytes = \<lambda>nv. [1], power_bytes = \<lambda>p. [0], cons_address = \<lambda>pk. Some [7]\<rparr>"

lemma takeover_store_laws: "store_laws takeover_store (\<lambda>s. map_of (fst s)) [0x23] [0x11]"
  by (simp add: store_laws_def takeover_store_def idle_testnet_def iterate_over_opens map_of_filter_key returns_or_errs_def
      leaves_def raise_def)

lemma takeover_setter_laws: "setter_laws takeover_store (\<lambda>s. map_of (fst s)) takeover_keys"
  by (auto simp: setter_laws_def takeover_store_def takeover_keys_def idle_testnet_def sample_codec_def runs_def quiet_def
      fun_eq_iff split: if_splits)

lemma takeover_laws:
  "fund_laws sample_lib takeover_store snd mint_account ''ubps''" "untouched_bank takeover_store snd"
  "untouched_store takeover_store (\<lambda>s. map_of (fst s))" "returns_or_errs (tn_SetValidatorSigningInfo takeover_store a i)"
  using sample_lib_laws
  by (auto simp: fund_laws_def refuses_def untouched_bank_def untouched_store_def returns_or_errs_def takeover_store_def
      iterate_over_def idle_testnet_def runs_def leaves_def sdk_laws_def MintHardCapDenom_def eff_defs)

lemma has_prefix_byte: "has_prefix [x] k \<longleftrightarrow> (\<exists>k'. k = x # k')"
  by (cases k) (auto simp: has_prefix_def)

lemma all_less_4: "(\<forall>i < 4. P i) \<longleftrightarrow> P 0 \<and> P 1 \<and> P 2 \<and> P (3 :: nat)"
  by (auto simp: less_Suc_eq eval_nat_numeral)

lemma takeover_spaces: "spaces_apart takeover_store takeover_keys [0x23] [0x11]"
  unfolding spaces_apart_def Let_def all_less_4
  by (auto simp: takeover_store_def takeover_keys_def idle_testnet_def has_prefix_byte)


end
