(* ===== verification/Testnet_Failure.thy ===== *)
theory Testnet_Failure
  imports Testnet_Run
begin

text \<open>
  How the multi-node testnet command starts and fails: the random chain id it takes when none is
  given, and what a node that cannot be set up leaves of the output directory.
\<close>

section \<open>The random chain id\<close>

lemma generateRandomString_chars:
  assumes "\<And>n s. 0 < n \<Longrightarrow> \<exists>k s'. tm_Intn E n s = (Ok k, s') \<and> k < n"
  shows "\<exists>r s'. generateRandomString E m s = (Ok r, s') \<and> length r = m \<and> set r \<subseteq> set charset"
proof (induction m arbitrary: s)
  case (Suc m)
  have c: "0 < length charset" by (simp add: charset_def)
  obtain k s1 where k: "tm_Intn E (length charset) s = (Ok k, s1)" "k < length charset"
    using assms [OF c] by blast
  obtain r s2 where "generateRandomString E m s1 = (Ok r, s2)" "length r = m" "set r \<subseteq> set charset"
    using Suc.IH by blast
  with k show ?case by (simp add: ret_def bind_def)
qed (simp add: ret_def)

text \<open>
  C31: Without a chain id the command makes one of \<^verbatim>\<open>chain-\<close> and six lower-case letters or digits,
  whatever numbers below the length of the character set the random source gives, and goes on as
  if this id had been given.
\<close>

theorem random_chain_id:
  assumes "\<And>n s. 0 < n \<Longrightarrow> \<exists>k s'. tm_Intn E n s = (Ok k, s') \<and> k < n" and "chainID args = ''''"
  shows "\<exists>r s1. length r = 6 \<and> (\<forall>c \<in> set r. c \<in> set ''abcdefghijklmnopqrstuvwxyz0123456789'')
    \<and> initTestnetFiles L E Getwd cfg args s = write_testnet L E Getwd cfg (args\<lparr>chainID := ''chain-'' @ r\<rparr>) s1"
proof -
  obtain r s1 where "generateRandomString E 6 s = (Ok r, s1)" "length r = 6" "set r \<subseteq> set charset"
    using generateRandomString_chars [OF assms(1)] by blast
  moreover have "\<forall>c \<in> set r. c \<in> set ''abcdefghijklmnopqrstuvwxyz0123456789''"
    using \<open>set r \<subseteq> set charset\<close> unfolding charset_def by (rule subsetD [THEN ballI])
  ultimately show ?thesis
    by - (rule exI [of _ r], rule exI [of _ s1], simp only: initTestnetFiles_def assms(2) if_True simp_thms bind_assoc
        bind_step(1) bind_ret)
qed

section \<open>A node that cannot be set up\<close>

lemma fold_m_append: "fold_m body (xs @ ys) a = bind (fold_m body xs a) (fold_m body ys)"
  by (induction xs arbitrary: a) (simp_all add: bind_assoc fun_eq_iff bind_def split: prod.splits outcome.splits)

text \<open>
  The calls of a node after whose errors the code removes the output directory, in their order:
  \<open>stage_fails\<close> says that one of them errs, after which the command stops in state \<open>t\<close>.
\<close>

definition node_config_at :: "init_args \<Rightarrow> int \<Rightarrow> node_config \<Rightarrow> node_config" where
  "node_config_at args i cfg = cfg\<lparr>RootDir := node_dir args i, Moniker := node_name args i,
     RPC_ListenAddress := ''tcp://0.0.0.0:'' @ port_of args i\<rparr>"

definition stage_fails ::
  "('x world, 'v) multi_env \<Rightarrow> init_args \<Rightarrow> int \<Rightarrow> node_config \<Rightarrow> 'x world \<Rightarrow> go_error \<Rightarrow> 'x world \<Rightarrow> bool" where
  "stage_fails E args i cfg s e t \<longleftrightarrow>
     (let dir = filepath_Join [node_dir args i, ''config'']; c = node_config_at args i cfg in
      os_MkdirAll dir s = (Err e, t) \<or>
      (\<exists>s1. os_MkdirAll dir s = (Ok (), s1) \<and>
        (tm_InitializeNodeValidatorFiles E c s1 = (Err e, t) \<or>
         (\<exists>i' k s2 kb s3 alg s4. tm_InitializeNodeValidatorFiles E c s1 = (Ok (i', k), s2) \<and>
            tm_NewKeyring E (keyringBackend args) (node_dir args i) s2 = (Ok kb, s3) \<and>
            tm_NewSigningAlgo E kb (algo args) s3 = (Ok alg, s4) \<and>
            tm_GenerateSaveCoinKey E kb (node_name args i) alg s4 = (Err e, t)))))"

text \<open>What an attempt to remove a directory leaves, whether it works or not.\<close>

definition after_removal :: "string \<Rightarrow> 'x world \<Rightarrow> 'x world" where
  "after_removal d t = snd (os_RemoveAll d t)"

lemma or_remove_bind:
  "m s = (Ok x, t) \<Longrightarrow> bind (or_remove d m) f s = f x t"
  "m s = (Err e, t) \<Longrightarrow> bind (or_remove d m) f s = (Err e, after_removal d t)"
  by (simp_all add: bind_def or_remove_def discard_def os_RemoveAll_def may_fail_def after_removal_def
      split: option.split)

lemma after_removal_eq:
  assumes "fs_fault t Op_RemoveAll d = None"
  shows "after_removal d t = (if d = '''' \<or> endsWithDot d then t
    else t\<lparr>fs_file := (\<lambda>p. if lies_under d p then None else fs_file t p), fs_dir := (\<lambda>p. \<not> lies_under d p \<and> fs_dir t p)\<rparr>)"
  using assms by (simp add: after_removal_def os_RemoveAll_def may_fail_def)

lemma node_step_cleans:
  assumes "stage_fails E args i (ls_nodeConfig st) s e t"
  shows "node_step L E args i st s = (Err e, after_removal (outputDir args) t)"
proof -
  let ?dir = "filepath_Join [node_dir args i, ''config'']" and ?c = "node_config_at args i (ls_nodeConfig st)"
  note U = node_step_def Let_def node_config_at_def [symmetric]
  from assms consider (dir) "os_MkdirAll ?dir s = (Err e, t)"
    | (init) s1 where "os_MkdirAll ?dir s = (Ok (), s1)" "tm_InitializeNodeValidatorFiles E ?c s1 = (Err e, t)"
    | (key) s1 i' k s2 kb s3 alg s4 where "os_MkdirAll ?dir s = (Ok (), s1)"
        "tm_InitializeNodeValidatorFiles E ?c s1 = (Ok (i', k), s2)"
        "tm_NewKeyring E (keyringBackend args) (node_dir args i) s2 = (Ok kb, s3)"
        "tm_NewSigningAlgo E kb (algo args) s3 = (Ok alg, s4)"
        "tm_GenerateSaveCoinKey E kb (node_name args i) alg s4 = (Err e, t)"
    unfolding stage_fails_def Let_def by blast
  then show ?thesis
  proof cases
    case dir
    show ?thesis unfolding U by (rule or_remove_bind(2) [where m = "os_MkdirAll ?dir", OF dir])
  next
    case init
    show ?thesis unfolding U or_remove_bind(1) [where m = "os_MkdirAll ?dir", OF init(1)]
      by (rule or_remove_bind(2) [where m = "tm_InitializeNodeValidatorFiles E ?c", OF init(2)])
  next
    case key
    show ?thesis
      unfolding U or_remove_bind(1) [where m = "os_MkdirAll ?dir", OF key(1)]
        or_remove_bind(1) [where m = "tm_InitializeNodeValidatorFiles E ?c", OF key(2)] prod.case 
        bind_step(1) [where m = "tm_NewKeyring E (keyringBackend args) (node_dir args i)", OF key(3)]
        bind_step(1) [where m = "tm_NewSigningAlgo E kb (algo args)", OF key(4)]
      by (rule or_remove_bind(2) [where m = "tm_GenerateSaveCoinKey E kb (node_name args i) alg", OF key(5)])
  qed
qed

text \<open>The arguments and the state with which the loop over the nodes starts: the chain id is drawn if none is given.\<close>

definition with_chain_id :: "('s, 'v) multi_env \<Rightarrow> init_args \<Rightarrow> 's \<Rightarrow> init_args \<Rightarrow> 's \<Rightarrow> bool" where
  "with_chain_id E args s args' s0 \<longleftrightarrow>
     (if chainID args = ''''
      then \<exists>r. generateRandomString E 6 s = (Ok r, s0) \<and> args' = args\<lparr>chainID := ''chain-'' @ r\<rparr>
      else args' = args \<and> s0 = s)"

lemma starts_with_chain_id:
  assumes "with_chain_id E args s args' s0"
  shows "initTestnetFiles L E Getwd cfg args s = write_testnet L E Getwd cfg args' s0"
proof (cases "chainID args = ''''")
  case True
  then obtain r where r: "generateRandomString E 6 s = (Ok r, s0)" "args' = args\<lparr>chainID := ''chain-'' @ r\<rparr>"
    using assms by (auto simp: with_chain_id_def)
  show ?thesis
    unfolding initTestnetFiles_def r(2)
    by (simp only: True if_True simp_thms bind_assoc bind_step(1) [where m = "generateRandomString E 6", OF r(1)] bind_ret)
next
  case False
  with assms show ?thesis by (simp add: with_chain_id_def initTestnetFiles_def)
qed

lemma failing_node_fails:
  assumes "with_chain_id E args s args' s0"
    and "fold_m (node_step L E args') [0..<k] (initial_loop_state E args' cfg) s0 = (Ok st, s1)"
    and "k < nat (numValidators args')" and "node_step L E args' (int k) st s1 = (Err e, t)"
  shows "initTestnetFiles L E Getwd cfg args s = (Err e, t)"
proof -
  let ?n = "nat (numValidators args')"
  have u: "[0..<?n] = [0..<k] @ k # [Suc k..<?n]"
    using assms(3) upt_add_eq_append [of 0 k "?n - k"] by (simp add: upt_conv_Cons)
  have "fold_m (node_step L E args') [0..<?n] (initial_loop_state E args' cfg) s0 = (Err e, t)"
    unfolding u fold_m_append by (simp add: assms(2,4))
  moreover have "\<not> numValidators args' < 0" using assms(3) by linarith
  ultimately show ?thesis
    by (simp add: starts_with_chain_id [OF assms(1)] write_testnet_def finish_testnet_def)
qed


definition read_only_world :: "nat world" where
  "read_only_world = \<lparr>fs_file = [''o/old'' \<mapsto> [1], ''z'' \<mapsto> [2]], fs_dir = (\<lambda>p. p = ''o''),
     fs_fault = (\<lambda>op p. if op = Op_MkdirAll then Some (Error_text ''read-only'') else None), rest = 0\<rparr>"


theorem random_chain_id_witness:
  "\<exists>r s1. length r = 6
    \<and> initTestnetFiles sample_lib multi_sample_env (Ok ''/w'') multi_sample_config (multi_sample_args\<lparr>chainID := ''''\<rparr>) empty_world
      = write_testnet sample_lib multi_sample_env (Ok ''/w'') multi_sample_config
          (multi_sample_args\<lparr>chainID := ''chain-'' @ r\<rparr>) s1"
proof -
  have i: "\<exists>k s'. tm_Intn multi_sample_env n s = (Ok k, s') \<and> k < n" if "0 < n" for n s
    using that by (simp add: plain_env_def ret_def)
  have c: "chainID (multi_sample_args\<lparr>chainID := ''''\<rparr>) = ''''" by simp
  have u: "multi_sample_args\<lparr>chainID := ''''\<rparr>\<lparr>chainID := x\<rparr> = multi_sample_args\<lparr>chainID := x\<rparr>" for x by simp
  show ?thesis
    using random_chain_id [OF i c, of sample_lib "Ok ''/w''" multi_sample_config empty_world] unfolding u by blast
qed

end
