(* ===== verification/Testnet_Command.thy ===== *)
theory Testnet_Command
  imports Testnet_Run
begin

text \<open>
  The declaration of the multi-node command (\<^verbatim>\<open>NewTestnetMultiNodeCmd\<close>, \<^verbatim>\<open>addTestnetFlagsToCmd\<close>): its
  flags with their defaults, the normalisation of their names and what the command runs; and
  what it does when it is given no flags.
\<close>

section \<open>Flags\<close>

definition flagNodeDirPrefix :: string where "flagNodeDirPrefix = ''node-dir-prefix''"
definition flagPorts :: string where "flagPorts = ''list-ports''"
definition flagNumValidators :: string where "flagNumValidators = ''v''"
definition flagOutputDir :: string where "flagOutputDir = ''output-dir''"
definition flagValidatorsStakeAmount :: string where "flagValidatorsStakeAmount = ''validators-stake-amount''"
definition flagStartingIPAddress :: string where "flagStartingIPAddress = ''starting-ip-address''"

lemmas flag_constants = flagNodeDirPrefix_def flagPorts_def flagNumValidators_def flagOutputDir_def
  flagValidatorsStakeAmount_def flagStartingIPAddress_def

text \<open>The names of the flags that the command shares with others are constants of the SDK.\<close>

record sdk_flags =
  FlagKeyringBackend :: string
  FlagChainID :: string
  FlagMinGasPrices :: string
  FlagKeyType :: string

fun flag_name :: "sdk_flags \<Rightarrow> flag \<Rightarrow> string" where
  "flag_name N F_output_dir = flagOutputDir"
| "flag_name N F_keyring_backend = FlagKeyringBackend N"
| "flag_name N F_chain_id = FlagChainID N"
| "flag_name N F_min_gas_prices = FlagMinGasPrices N"
| "flag_name N F_node_dir_prefix = flagNodeDirPrefix"
| "flag_name N F_starting_ip = flagStartingIPAddress"
| "flag_name N F_key_type = FlagKeyType N"
| "flag_name N F_stake_amount = flagValidatorsStakeAmount"
| "flag_name N F_ports = flagPorts"

text \<open>A declared flag: its name and its default.\<close>

datatype flag_decl = String_flag string string | Int_flag string int

section \<open>The command\<close>

text \<open>What the command reads of the parsed flags.\<close>

record flag_values =
  GetString :: "string \<Rightarrow> string outcome"
  GetInt :: "string \<Rightarrow> int outcome"

record 's cobra_command =
  Use :: string
  Flags :: "flag_decl list"
  NormalizeFunc :: "string \<Rightarrow> string"
  RunE :: "flag_values \<Rightarrow> ('s, unit) eff"

definition addTestnetFlagsToCmd :: "sdk_flags \<Rightarrow> string \<Rightarrow> string \<Rightarrow> 's cobra_command \<Rightarrow> 's cobra_command" where
  "addTestnetFlagsToCmd N bondDenom secp256k1Type cmd = cmd\<lparr>
     Flags := Flags cmd @
       [Int_flag flagNumValidators 4,
        String_flag flagOutputDir ''./.testnets'',
        String_flag (FlagChainID N) '''',
        String_flag (FlagMinGasPrices N) (''0.0001'' @ bondDenom),
        String_flag (FlagKeyType N) secp256k1Type],
     NormalizeFunc := (\<lambda>name. if name = ''algo'' then FlagKeyType N else name)\<rparr>"

definition multi_node_RunE ::
  "sdk_lib \<Rightarrow> ('x world, 'v) multi_env \<Rightarrow> sdk_flags \<Rightarrow> (string \<Rightarrow> int option) \<Rightarrow> ('x world, unit) eff \<Rightarrow>
   string outcome \<Rightarrow> node_config \<Rightarrow> flag_values \<Rightarrow> ('x world, unit) eff" where
  "multi_node_RunE L E N NewIntFromString GetClientQueryContext Getwd config V =
     bind GetClientQueryContext (\<lambda>_.
     bind (lift_outcome (multi_node_args L NewIntFromString (tm_DefaultBondDenom E)
             (\<lambda>f. GetString V (flag_name N f)) (GetInt V flagNumValidators))) (\<lambda>args.
     initTestnetFiles L E Getwd config args))"

definition NewTestnetMultiNodeCmd ::
  "sdk_lib \<Rightarrow> ('x world, 'v) multi_env \<Rightarrow> sdk_flags \<Rightarrow> string \<Rightarrow> (string \<Rightarrow> int option) \<Rightarrow> ('x world, unit) eff \<Rightarrow>
   string outcome \<Rightarrow> node_config \<Rightarrow> 'x world cobra_command" where
  "NewTestnetMultiNodeCmd L E N secp256k1Type NewIntFromString GetClientQueryContext Getwd config =
     (let cmd = \<lparr>Use = ''multi-node'', Flags = [], NormalizeFunc = (\<lambda>name. name),
            RunE = multi_node_RunE L E N NewIntFromString GetClientQueryContext Getwd config\<rparr>;
          cmd = addTestnetFlagsToCmd N (tm_DefaultBondDenom E) secp256k1Type cmd in
      cmd\<lparr>Flags := Flags cmd @
        [String_flag flagPorts '''',
         String_flag flagNodeDirPrefix ''validator'',
         String_flag flagValidatorsStakeAmount ''100000000,100000000,100000000,100000000'',
         String_flag flagStartingIPAddress ''localhost'',
         String_flag (FlagKeyringBackend N) ''test'']\<rparr>)"

section \<open>What was typed\<close>

text \<open>
  pflag normalises the names it is given, keeps the last value typed for a flag and otherwise
  the default, and refuses to read a flag that was not declared.
\<close>

definition typed_value :: "(string \<Rightarrow> string) \<Rightarrow> (string \<times> string) list \<Rightarrow> string \<Rightarrow> string option" where
  "typed_value norm typed n = map_of (rev (map (\<lambda>(m, v). (norm m, v)) typed)) (norm n)"

definition flags_parsed :: "'s cobra_command \<Rightarrow> (string \<times> string) list \<Rightarrow> flag_values \<Rightarrow> bool" where
  "flags_parsed cmd typed V \<longleftrightarrow>
     (\<forall>n d. String_flag n d \<in> set (Flags cmd) \<longrightarrow>
        GetString V n = Ok (case typed_value (NormalizeFunc cmd) typed n of Some v \<Rightarrow> v | None \<Rightarrow> d)) \<and>
     (\<forall>n d. Int_flag n d \<in> set (Flags cmd) \<longrightarrow> typed_value (NormalizeFunc cmd) typed n = None \<longrightarrow>
        GetInt V n = Ok d)"

text \<open>The arguments of the command without flags.\<close>

definition default_args :: "string \<Rightarrow> string \<Rightarrow> init_args" where
  "default_args bondDenom secp256k1Type = \<lparr>algo = secp256k1Type, chainID = '''', keyringBackend = ''test'',
     minGasPrices = ''0.0001'' @ bondDenom, nodeDirPrefix = ''validator'', numValidators = 4,
     outputDir = ''./.testnets'', startingIPAddress = ''localhost'',
     validatorsStakesAmount = (\<lambda>i. if 0 \<le> i \<and> i < 4 then Some \<lparr>denom = bondDenom, amount = 100000000\<rparr> else None),
     ports = (\<lambda>i. if 0 \<le> i \<and> i < 4 then Some (Itoa (26657 - 3 * i)) else None)\<rparr>"

lemma flags_default:
  assumes "flags_parsed (NewTestnetMultiNodeCmd L E N secp parse ctx Getwd cfg) [] V"
  shows "GetString V flagPorts = Ok ''''" and "GetString V flagNodeDirPrefix = Ok ''validator''"
    and "GetString V flagValidatorsStakeAmount = Ok ''100000000,100000000,100000000,100000000''"
    and "GetString V flagStartingIPAddress = Ok ''localhost''" and "GetString V (FlagKeyringBackend N) = Ok ''test''"
    and "GetInt V flagNumValidators = Ok 4" and "GetString V flagOutputDir = Ok ''./.testnets''"
    and "GetString V (FlagChainID N) = Ok ''''" and "GetString V (FlagKeyType N) = Ok secp"
    and "GetString V (FlagMinGasPrices N) = Ok (''0.0001'' @ tm_DefaultBondDenom E)"
  using assms by (simp_all add: flags_parsed_def NewTestnetMultiNodeCmd_def addTestnetFlagsToCmd_def typed_value_def Let_def)

lemma default_arguments:
  assumes "flags_parsed (NewTestnetMultiNodeCmd L E N secp parse ctx Getwd cfg) [] V"
    and "parse ''100000000'' = Some 100000000"
    and "NewCoin L (tm_DefaultBondDenom E) 100000000 = Ok \<lparr>denom = tm_DefaultBondDenom E, amount = 100000000\<rparr>"
  shows "multi_node_args L parse (tm_DefaultBondDenom E) (\<lambda>f. GetString V (flag_name N f)) (GetInt V flagNumValidators)
    = Ok (default_args (tm_DefaultBondDenom E) secp)"
proof -
  have s: "strings_Split ''100000000,100000000,100000000,100000000'' (CHR '','') = replicate 4 ''100000000''"
    by code_simp
  have i: "0 \<le> i \<and> i < 4 \<longleftrightarrow> i = 0 \<or> i = 1 \<or> i = 2 \<or> i = 3" for i :: int by arith
  have u: "[0..<nat 4] = [0, 1, 2, 3]" by code_simp
  show ?thesis
    by (simp add: multi_node_args_def Let_def flags_default [OF assms(1)] s default_args_def assms(2,3)
        default_ports_def u i numeral_eq_Suc fun_eq_iff)
qed

section \<open>The command without flags\<close>

lemma generateRandomString_works:
  assumes "\<And>n. 0 < n \<Longrightarrow> works P (tm_Intn E n) (\<lambda>k w. k < n \<and> P w)"
  shows "works P (generateRandomString E m) (\<lambda>_. P)"
proof (induction m)
  case (Suc m)
  have "works (\<lambda>w. k < length charset \<and> P w) (bind (if k < length charset then ret (charset ! k) else panic out_of_range_panic)
      (\<lambda>c. bind (generateRandomString E m) (\<lambda>cs. ret (c # cs)))) (\<lambda>_. P)" for k
    using Suc.IH by (fastforce simp: works_def ret_def bind_def)
  then show ?case
    unfolding generateRandomString.simps
    by (rule works_bind [OF assms, rotated]) (simp add: charset_def)
qed (simp add: works_def)

lemma chain_id_irrelevant:
  "own_files (args\<lparr>chainID := c\<rparr>) = own_files args"
  "multi_env_ok L E (args\<lparr>chainID := c\<rparr>) = multi_env_ok L E args"
  "files_ok (args\<lparr>chainID := c\<rparr>) = files_ok args"
  "gentx_file (args\<lparr>chainID := c\<rparr>) = gentx_file args"
proof -
  have p: "node_name (args\<lparr>chainID := c\<rparr>) = node_name args" "out_components (args\<lparr>chainID := c\<rparr>) = out_components args"
    "out_path (args\<lparr>chainID := c\<rparr>) = out_path args"
    by (simp_all add: fun_eq_iff node_name_def out_components_def out_path_def)
  show g: "gentx_file (args\<lparr>chainID := c\<rparr>) = gentx_file args"
    by (simp add: fun_eq_iff gentx_file_def p)
  have d: "dir_path (args\<lparr>chainID := c\<rparr>) = dir_path args" "seed_path (args\<lparr>chainID := c\<rparr>) = seed_path args"
    "gentx_dir_components (args\<lparr>chainID := c\<rparr>) = gentx_dir_components args"
    by (simp_all add: fun_eq_iff dir_path_def seed_path_def gentx_dir_components_def p)
  show o: "own_files (args\<lparr>chainID := c\<rparr>) = own_files args"
    unfolding own_files_def own_paths_def d g ..
  show "multi_env_ok L E (args\<lparr>chainID := c\<rparr>) = multi_env_ok L E args"
    by (simp add: fun_eq_iff multi_env_ok_def o p stake_of_def)
  show "files_ok (args\<lparr>chainID := c\<rparr>) = files_ok args"
    by (simp add: fun_eq_iff files_ok_def d g p)
qed

lemma default_gentx:
  assumes "sep \<notin> set x"
  shows "gentx_file (default_args d secp) i x
    = ''.testnets/validator'' @ Itoa i @ ''/config/gentx/gentx-'' @ x @ ''.json''"
proof -
  have o: "out_components (default_args d secp) = [''.testnets'']" "\<not> IsAbs ''./.testnets''"
    by (simp_all add: out_components_def default_args_def) code_simp+
  have "sep \<notin> set (nodeDirPrefix (default_args d secp))" by (simp add: default_args_def sep_def)
  from gentx_file_path [OF this assms, of i] show ?thesis
    by (simp add: out_path_def o gentx_dir_components_def gentx_name_def node_name_def path_of_def)
      (simp add: default_args_def o path_of_def sep_def)
qed


definition sample_sdk_flags :: sdk_flags where
  "sample_sdk_flags = \<lparr>FlagKeyringBackend = ''keyring-backend'', FlagChainID = ''chain-id'',
     FlagMinGasPrices = ''minimum-gas-prices'', FlagKeyType = ''key-type''\<rparr>"

fun default_of :: "flag_decl \<Rightarrow> (string \<times> string) list" where
  "default_of (String_flag n d) = [(n, d)]"
| "default_of (Int_flag n d) = []"

definition sample_command :: "nat world cobra_command" where
  "sample_command = NewTestnetMultiNodeCmd sample_lib multi_sample_env sample_sdk_flags ''secp256k1'' parse_digit
     (ret ()) (Ok ''/w'') multi_sample_config"

definition sample_values :: flag_values where
  "sample_values = \<lparr>GetString = (\<lambda>n. case map_of (concat (map default_of (Flags sample_command))) n of
       Some d \<Rightarrow> Ok d | None \<Rightarrow> Err (Error_text ''flag not defined'')),
     GetInt = (\<lambda>n. Ok 4)\<rparr>"

lemma sample_flags_parsed: "flags_parsed sample_command [] sample_values"
  by (auto simp: flags_parsed_def typed_value_def sample_values_def sample_command_def NewTestnetMultiNodeCmd_def
      addTestnetFlagsToCmd_def Let_def flag_constants sample_sdk_flags_def)


end
