(* ===== verification/Wire_Merge.thy ===== *)
theory Wire_Merge
  imports Messages
begin

text \<open>
  Decoding is compositional: what a decoder reads from a buffer it reads as well inside a longer
  one, so that concatenated encodings are merged field by field, the later one winning.
\<close>

section \<open>Reading inside a longer buffer\<close>

lemma get_at_inside:
  assumes "get_at b i = Ok x"
  shows "get_at (p @ b @ q) (int (length p) + i) = Ok x"
proof -
  have i: "0 \<le> i" "i < int (length b)" "b ! nat i = x" using assms by (auto simp: get_at_def split: if_splits)
  then have "nat (int (length p) + i) = length p + nat i" "nat i < length b" by auto
  with i show ?thesis by (simp add: get_at_def nth_append)
qed

lemma read_varint_inside:
  assumes "length (p @ b @ q) < 2 ^ 63" and "read_varint b s i a = Ok (v, j)"
  shows "read_varint (p @ b @ q) s (int (length p) + i) a = Ok (v, int (length p) + j)"
  using assms
proof (induction b s i a rule: read_varint.induct)
  case (1 b s i a)
  let ?d = "p @ b @ q" and ?P = "int (length p)"
  have g: "golen b = int (length b)" "golen ?d = int (length ?d)" using "1.prems"(1) by simp_all
  from "1.prems"(2) obtain x where c: "\<not> 64 \<le> s" "\<not> golen b \<le> i" "get_at b i = Ok x"
    and r: "(if x < 0x80 then Ok (a OR push_bit s (ucast (x AND 0x7F)), i + 1)
             else read_varint b (s + 7) (i + 1) (a OR push_bit s (ucast (x AND 0x7F)))) = Ok (v, j)"
    by (subst (asm) read_varint.simps) (auto simp: obind_eq_Ok Let_def split: if_splits)
  have x: "get_at ?d (?P + i) = Ok x" by (rule get_at_inside [OF c(3)])
  have l: "\<not> golen ?d \<le> ?P + i" using c(2) unfolding g by simp
  have e: "?P + i + 1 = ?P + (i + 1)" by simp
  show ?case
  proof (cases "x < 0x80")
    case True
    then show ?thesis
      using r c(1) l x by (subst read_varint.simps) (auto simp: Let_def)
  next
    case False
    with r "1.IH" [OF c refl False "1.prems"(1)]
    have "read_varint ?d (s + 7) (?P + (i + 1)) (a OR push_bit s (ucast (x AND 0x7F))) = Ok (v, ?P + j)"
      by simp
    then show ?thesis
      using False c(1) l x by (subst read_varint.simps) (simp add: Let_def e)
  qed
qed

lemma read_varint_prefix:
  assumes "length (b @ q) < 2 ^ 63" and "read_varint b s i a = Ok (v, j)"
  shows "read_varint (b @ q) s i a = Ok (v, j)"
  using read_varint_inside [of "[]" b q s i a v j] assms by simp

lemma skip_field_prefix:
  assumes "length (b @ q) < 2 ^ 63" and "skip_field b wt i d = Ok r"
  shows "skip_field (b @ q) wt i d = Ok r"
  using assms(2) by (auto simp: skip_field_def obind_eq_Ok Let_def read_varint_prefix [OF assms(1)] split: if_splits)

lemma skip_loop_prefix:
  assumes "length (b @ q) < 2 ^ 63" and "skip_loop b i d = Ok n"
  shows "skip_loop (b @ q) i d = Ok n"
  using assms
proof (induction b i d rule: skip_loop.induct)
  case (1 b i d)
  from "1.prems"(2) obtain wire j k d' where s: "i < golen b" "read_varint b 0 i 0 = Ok (wire, j)"
      "skip_field b (uint (wire AND 0x7)) j d = Ok (k, d')" "\<not> k < 0"
    and r: "(if d' = 0 then Ok k else skip_loop b k d') = Ok n"
    by (subst (asm) skip_loop.simps) (auto simp: obind_eq_Ok split: if_splits)
  have i: "i < golen (b @ q)" using s(1) "1.prems"(1) by simp
  have t: "(if d' = 0 then Ok k else skip_loop (b @ q) k d') = Ok n"
    using r "1.IH" [OF s(1,2) refl s(3) refl s(4) _ "1.prems"(1)] by (auto split: if_splits)
  show ?case
    by (subst skip_loop.simps) (simp add: i s(4) t read_varint_prefix [OF "1.prems"(1) s(2)]
        skip_field_prefix [OF "1.prems"(1) s(3)])
qed

section \<open>Fields and messages\<close>

lemma slice_inside:
  assumes "slice b lo hi = Ok bs"
  shows "slice (p @ b @ q) (int (length p) + lo) (int (length p) + hi) = Ok bs"
proof -
  have l: "0 \<le> lo" "lo \<le> hi" "hi \<le> int (length b)" and bs: "bs = take (nat (hi - lo)) (drop (nat lo) b)"
    using assms by (auto simp: slice_def split: if_splits)
  have "nat (int (length p) + lo) = length p + nat lo" "nat (hi - lo) \<le> length b - nat lo" using l by auto
  then show ?thesis using l by (simp add: slice_def bs)
qed

lemma unmarshal_known_inside:
  assumes "length (p @ b @ q) < 2 ^ 63" and "unmarshal_known f b wt i m = Ok (m', j)"
  shows "unmarshal_known f (p @ b @ q) wt (int (length p) + i) m = Ok (m', int (length p) + j)"
proof -
  let ?P = "int (length p)"
  from assms(2) obtain v k bs where r: "wt = 2" "read_varint b 0 i 0 = Ok (v, k)" "\<not> sint v < 0"
      "\<not> golen b < j" "slice b k j = Ok bs" "field_store f bs m = Ok m'"
    and j: "j = wrap64 (k + sint v)" "\<not> j < 0"
    by (auto simp: unmarshal_known_def obind_eq_Ok Let_def split: if_splits)
  have k: "0 \<le> k" "k \<le> golen b" using read_varint_index [OF r(2)] by auto
  have "j = k + sint v"
    using j k r(3,4) golen_less [of b] sint_range64(2) [of v] wrap64_sum [of k "sint v"] by (auto split: if_splits)
  moreover have l: "?P + j \<le> golen (p @ b @ q)" "?P + j < 2 ^ 63"
    using r(4) assms(1) golen_less [of "p @ b @ q"] by auto
  ultimately have w: "wrap64 (?P + k + sint v) = ?P + j" using k j(2) by (simp add: algebra_simps)
  show ?thesis
    using r(1,3,6) l j(2) slice_inside [OF r(5), of p q]
    by (simp add: unmarshal_known_def Let_def read_varint_inside [OF assms(1) r(2)] w)
qed

lemma unmarshal_unknown_inside:
  assumes "length (p @ b @ q) < 2 ^ 63" and "unmarshal_unknown b i m = Ok (m', j)"
  shows "unmarshal_unknown (p @ b @ q) (int (length p) + i) m = Ok (m', int (length p) + j)"
proof -
  let ?P = "int (length p)" and ?d = "p @ b @ q"
  from assms(2) obtain r n where s: "slice b i (int (length b)) = Ok r" "skip r = Ok n" "\<not> n < 0"
      "\<not> wrap64 (i + n) < 0" "\<not> golen b < wrap64 (i + n)" and m: "m' = m" "j = wrap64 (i + n)"
    by (auto simp: unmarshal_unknown_def obind_eq_Ok split: if_splits)
  have i: "0 \<le> i" "i \<le> int (length b)" and r: "r = drop (nat i) b"
    using s(1) by (auto simp: slice_def split: if_splits)
  have "nat (?P + i) = length p + nat i" "nat i \<le> length b" using i by auto
  then have sl: "slice ?d (?P + i) (int (length ?d)) = Ok (r @ q)"
    using i by (simp add: slice_def r)
  have "skip (r @ q) = Ok n"
    using skip_loop_prefix [of r q 0 0 n] s(2) assms(1) by (simp add: skip_def r)
  moreover have "n < 2 ^ 63" using skip_loop_index [of r 0 0 n] s(2) by (simp add: skip_def)
  then have "j = i + n"
    using s(3-5) i m(2) assms(1) wrap64_sum [of i n] by (auto split: if_splits)
  moreover have l: "?P + j \<le> golen ?d" "?P + j < 2 ^ 63" "0 \<le> j"
    using s(4,5) m(2) assms(1) golen_less [of ?d] by auto
  ultimately have "wrap64 (?P + i + n) = ?P + j" using i by (simp add: algebra_simps)
  with sl l s(3) \<open>skip (r @ q) = Ok n\<close> show ?thesis by (simp add: unmarshal_unknown_def m(1))
qed

lemma unmarshal_field_inside:
  assumes "length (p @ b @ q) < 2 ^ 63" and "unmarshal_field flds b pre n wt i m = Ok (m', j)"
  shows "unmarshal_field flds (p @ b @ q) (int (length p) + pre) n wt (int (length p) + i) m
    = Ok (m', int (length p) + j)"
  using assms(2) unmarshal_known_inside [OF assms(1)] unmarshal_unknown_inside [OF assms(1)]
  by (auto simp: unmarshal_field_def split: option.splits)

lemma unmarshal_loop_inside:
  assumes "length (p @ b @ q) < 2 ^ 63" and "0 \<le> i" and "unmarshal_loop name flds b i m = Ok m'"
  shows "unmarshal_loop name flds (p @ b @ q) (int (length p) + i) m
    = unmarshal_loop name flds (p @ b @ q) (int (length p) + int (length b)) m'"
  using assms
proof (induction name flds b i m rule: unmarshal_loop.induct)
  case (1 name flds b i m)
  let ?P = "int (length p)" and ?d = "p @ b @ q"
  have g: "golen b = int (length b)" "golen ?d = int (length ?d)" using "1.prems"(1) by simp_all
  show ?case
  proof (cases "i < golen b")
    case False
    then have "i = int (length b)" "m' = m"
      using "1.prems"(3) g by (auto simp: unmarshal_loop.simps split: if_splits)
    then show ?thesis by simp
  next
    case True
    from "1.prems"(3) True obtain wire j m1 k where r: "read_varint b 0 i 0 = Ok (wire, j)"
        "tag_type wire \<noteq> 4" "\<not> tag_field wire \<le> 0"
        "unmarshal_field flds b i (tag_field wire) (tag_type wire) j m = Ok (m1, k)"
        "unmarshal_loop name flds b k m1 = Ok m'"
      by (subst (asm) (1) unmarshal_loop.simps) (auto simp: obind_eq_Ok Let_def split: if_splits)
    have "0 \<le> k"
      using unmarshal_field_index [OF r(4)] read_varint_index [OF r(1)] "1.prems"(2) True golen_less [of b] by auto
    with "1.IH" [OF True r(1) refl refl refl r(2,3,4) refl "1.prems"(1) _ r(5)]
    have "unmarshal_loop name flds ?d (?P + k) m1 = unmarshal_loop name flds ?d (?P + int (length b)) m'" by simp
    moreover have "?P + i < golen ?d" using True g by simp
    ultimately show ?thesis
      using r(2,3)
      by (subst unmarshal_loop.simps) (simp add: Let_def read_varint_inside [OF "1.prems"(1) r(1)]
          unmarshal_field_inside [OF "1.prems"(1) r(4)])
  qed
qed

lemma unmarshal_loop_concat:
  assumes "length (a @ b) < 2 ^ 63" and "unmarshal_loop name flds a 0 m = Ok m1"
    and "unmarshal_loop name flds b 0 m1 = Ok m2"
  shows "unmarshal_loop name flds (a @ b) 0 m = Ok m2"
proof -
  have "unmarshal_loop name flds (a @ b) 0 m = unmarshal_loop name flds (a @ b) (int (length a)) m1"
    using unmarshal_loop_inside [of "[]" a b 0 name flds m m1] assms by simp
  also have "\<dots> = unmarshal_loop name flds (a @ b) (int (length a) + int (length b)) m2"
    using unmarshal_loop_inside [of a b "[]" 0 name flds m1 m2] assms by simp
  also have "\<dots> = Ok m2" using assms(1) by (simp add: unmarshal_loop.simps)
  finally show ?thesis .
qed

context fielded_message
begin

lemma concatenated:
  "length (a @ b) < 2 ^ 63 \<Longrightarrow> unmarshal a m = Ok m1 \<Longrightarrow> unmarshal b m1 = Ok m2 \<Longrightarrow> unmarshal (a @ b) m = Ok m2"
  using unmarshal_loop_concat [of a b name flds m m1 m2] by (simp add: is_loop)

end

section \<open>Properties\<close>

text \<open>
  C19: Concatenated encodings merge: if one buffer decodes into a message and a second one is then
  decoded into the result, decoding the two buffers put together gives the same message, for the
  messages with fields of the module. For \<^verbatim>\<open>MsgUpdateParams\<close> this makes the last authority win.
\<close>

theorem concatenated_encodings_merge:
  assumes "length (a @ b) < 2 ^ 63"
  shows "(\<forall>m m1 m2. MsgUpdateParams_Unmarshal a m = Ok m1 \<longrightarrow> MsgUpdateParams_Unmarshal b m1 = Ok m2
      \<longrightarrow> MsgUpdateParams_Unmarshal (a @ b) m = Ok m2)
    \<and> (\<forall>m m1 m2. GenesisState_Unmarshal a m = Ok m1 \<longrightarrow> GenesisState_Unmarshal b m1 = Ok m2
      \<longrightarrow> GenesisState_Unmarshal (a @ b) m = Ok m2)
    \<and> (\<forall>m m1 m2. Module_Unmarshal a m = Ok m1 \<longrightarrow> Module_Unmarshal b m1 = Ok m2
      \<longrightarrow> Module_Unmarshal (a @ b) m = Ok m2)
    \<and> (\<forall>m m1 m2. QueryParamsResponse_Unmarshal a m = Ok m1 \<longrightarrow> QueryParamsResponse_Unmarshal b m1 = Ok m2
      \<longrightarrow> QueryParamsResponse_Unmarshal (a @ b) m = Ok m2)"
  using update_codec.concatenated [OF assms] genesis_codec.concatenated [OF assms]
    module_codec.concatenated [OF assms] query_response_codec.concatenated [OF assms] by blast

theorem concatenated_encodings_merge_witness:
  "MsgUpdateParams_Unmarshal ([0x0a, 1, 0x61] @ [0x0a, 1, 0x62, 0x12, 0]) \<lparr>Authority = '''', MsgParams = Params\<rparr>
    = Ok \<lparr>Authority = ''b'', MsgParams = Params\<rparr>"
proof -
  have l: "length (([0x0a, 1, 0x61] :: bytes) @ [0x0a, 1, 0x62, 0x12, 0]) < 2 ^ 63" by simp
  have a: "MsgUpdateParams_Unmarshal [0x0a, 1, 0x61] \<lparr>Authority = '''', MsgParams = Params\<rparr>
      = Ok \<lparr>Authority = ''a'', MsgParams = Params\<rparr>" by code_simp
  have b: "MsgUpdateParams_Unmarshal [0x0a, 1, 0x62, 0x12, 0] \<lparr>Authority = ''a'', MsgParams = Params\<rparr>
      = Ok \<lparr>Authority = ''b'', MsgParams = Params\<rparr>" by code_simp
  show ?thesis using concatenated_encodings_merge [OF l] a b by blast
qed

end
