(* ===== verification/Root_Command.thy ===== *)
theory Root_Command
  imports Chain_Config "HOL-Library.Multiset"
begin

text \<open>
  The command line: \<^verbatim>\<open>cmd/root.go\<close> (the root command, its hook and the client context),
  \<^verbatim>\<open>cmd/commands.go\<close> (the tree of commands), the in-place testnet command of \<^verbatim>\<open>cmd/testnet.go\<close>,
  \<^verbatim>\<open>app/ibc.go\<close>'s \<^verbatim>\<open>RegisterIBC\<close> and \<^verbatim>\<open>main.go\<close>. The SDK's calls are the record \<open>root_env\<close> over the
  state \<open>'s\<close>, with client contexts \<open>'c\<close>, modules \<open>'m\<close>, transaction configurations \<open>'t\<close> and other
  values of the SDK (codecs, registries, loggers) \<open>'p\<close>.
\<close>

section \<open>Commands\<close>

text \<open>
  A command is known by the function that makes it with the arguments of the call, by what this
  code then sets, in order, and by the children it adds. A function that is passed or set is
  named; \<^verbatim>\<open>&cobra.Command{...}\<close> is a command made by \<open>cobra.Command\<close>.
\<close>

datatype ('m, 't) arg = Manager "string \<rightharpoonup> 'm" | Home string | Tx_config 't | Function string | Value string

datatype setting =
    Set_Use string
  | Set_Aliases "string list"
  | Set_Short string
  | Set_Long string
  | Set_Example string
  | Set_DisableFlagParsing bool
  | Set_SuggestionsMinimumDistance int
  | Set_SilenceErrors bool
  | Set_RunE string
  | Set_PersistentPreRunE string
  | Flags_String string string string

datatype ('m, 't) cmd = Command string "('m, 't) arg list" "setting list" "('m, 't) cmd list"

fun AddCommand :: "('m, 't) cmd list \<Rightarrow> ('m, 't) cmd \<Rightarrow> ('m, 't) cmd" where
  "AddCommand cs (Command maker args settings subs) = Command maker args settings (subs @ cs)"

fun change :: "setting \<Rightarrow> ('m, 't) cmd \<Rightarrow> ('m, 't) cmd" where
  "change x (Command maker args settings subs) = Command maker args (settings @ [x]) subs"

definition made_by :: "string \<Rightarrow> ('m, 't) arg list \<Rightarrow> ('m, 't) cmd" where
  "made_by maker args = Command maker args [] []"

definition cobra_Command :: "setting list \<Rightarrow> ('m, 't) cmd" where
  "cobra_Command settings = Command ''cobra.Command'' [] settings []"

definition queryCommand :: "('m, 't) cmd" where
  "queryCommand =
     (let cmd = cobra_Command [Set_Use ''query'', Set_Aliases [''q''], Set_Short ''Querying subcommands'',
            Set_DisableFlagParsing False, Set_SuggestionsMinimumDistance 2, Set_RunE ''client.ValidateCmd'']
      in AddCommand [made_by ''rpc.WaitTxCmd'' [], made_by ''rpc.ValidatorCommand'' [],
           made_by ''server.QueryBlockCmd'' [], made_by ''authcmd.QueryTxsByEventsCmd'' [],
           made_by ''server.QueryBlocksCmd'' [], made_by ''authcmd.QueryTxCmd'' [],
           made_by ''server.QueryBlockResultsCmd'' []] cmd)"

definition txCommand :: "('m, 't) cmd" where
  "txCommand =
     (let cmd = cobra_Command [Set_Use ''tx'', Set_Short ''Transactions subcommands'',
            Set_DisableFlagParsing False, Set_SuggestionsMinimumDistance 2, Set_RunE ''client.ValidateCmd'']
      in AddCommand [made_by ''authcmd.GetSignCommand'' [], made_by ''authcmd.GetSignBatchCommand'' [],
           made_by ''authcmd.GetMultiSignCommand'' [], made_by ''authcmd.GetMultiSignBatchCmd'' [],
           made_by ''authcmd.GetValidateSignaturesCommand'' [], made_by ''flags.LineBreak'' [],
           made_by ''authcmd.GetBroadcastCommand'' [], made_by ''authcmd.GetEncodeCommand'' [],
           made_by ''authcmd.GetDecodeCommand'' [], made_by ''authcmd.GetSimulateCmd'' []] cmd)"

text \<open>The flags the start command gets in addition: none.\<close>

definition addModuleInitFlags :: "('m, 't) cmd \<Rightarrow> ('m, 't) cmd" where
  "addModuleInitFlags startCmd = startCmd"

subsection \<open>The in-place testnet command\<close>

definition flagAccountsToFund :: string where "flagAccountsToFund = ''accounts-to-fund''"

definition newline :: string where "newline = [CHR 0x0A]"
definition quoted :: "string \<Rightarrow> string" where "quoted s = CHR 0x22 # s @ [CHR 0x22]"

definition in_place_long :: string where
  "in_place_long =
     ''The test command modifies both application and consensus stores within a local mainnet node and starts the node,'' @ newline @
     ''with the aim of facilitating testing procedures. This command replaces existing validator data with updated information,'' @ newline @
     ''thereby removing the old validator set and introducing a new set suitable for local testing purposes. By altering the state extracted from the mainnet node,'' @ newline @
     ''it enables developers to configure their local environments to reflect mainnet conditions more accurately.''"

text \<open>The example names the module path twice, where the name of the daemon belongs.\<close>

definition in_place_example :: "string \<Rightarrow> string" where
  "in_place_example path =
     path @ ''d in-place-testnet testing-1 cosmosvaloper1w7f3xx7e75p4l7qdym5msqem9rd4dyc4mq79dm --home $HOME/.'' @
     path @ ''d/validator1 --validator-privkey=<base64-validator-private-key> --accounts-to-fund='' @
     quoted ''cosmos1f7twgcq4ypzg7y24wuywy06xmdet8pc4473tnq,cosmos1qvuhm5m644660nd8377d6l7yz9e9hhm9evmx3x''"

definition NewInPlaceTestnetCmd :: "('m, 't) cmd" where
  "NewInPlaceTestnetCmd =
     (let cmd = made_by ''server.InPlaceTestnetCreator'' [Function ''newTestnetApp''];
          cmd = change (Set_Short (''Updates chain'' @ [CHR 0x27] @ ''s application and consensus state with provided validator info and starts the node'')) cmd;
          cmd = change (Set_Long in_place_long) cmd;
          cmd = change (Set_Example (in_place_example ''github.com/antasena/bps'')) cmd
      in change (Flags_String flagAccountsToFund ''''
           ''Comma-separated list of account addresses that will be funded for testing purposes'') cmd)"

section \<open>The environment\<close>

datatype ibc_part = IBC_core | Transfer | Interchain_accounts | Tendermint_client | Solo_machine

record ('s, 'c, 'm, 't, 'p) root_env =
  rt_genutil_basic :: 'p
  rt_NewNopLogger :: 'p
  rt_Inject :: "(unit, 'p, unit) di_config list \<Rightarrow> ('s, (string \<rightharpoonup> 'm) \<times> (string \<rightharpoonup> 'm) \<times> 'c) eff"
  ibc_name :: "ibc_part \<Rightarrow> string"
  ibc_module :: "ibc_part \<Rightarrow> 'p \<Rightarrow> 'm"
  InterfaceRegistry_of :: "'p \<Rightarrow> 'p"
  rt_RegisterInterfaces :: "'m \<Rightarrow> 'p \<Rightarrow> ('s, unit) eff option"
  CoreAppModuleBasicAdaptor :: "string \<Rightarrow> 'm \<Rightarrow> 'm"
  AddCommandsWithStartCmdOptions ::
    "('m, 't) arg list \<Rightarrow> (('m, 't) cmd \<Rightarrow> ('m, 't) cmd) \<Rightarrow> ('m, 't) cmd \<Rightarrow> ('s, ('m, 't) cmd) eff"
  EnhanceRootCommand :: "(string \<rightharpoonup> 'm) \<Rightarrow> ('m, 't) cmd \<Rightarrow> ('s, ('m, 't) cmd) eff"
  SetOut_OutOrStdout :: "('s, unit) eff"
  SetErr_ErrOrStderr :: "('s, unit) eff"
  WithCmdContext :: "'s \<Rightarrow> 'c \<Rightarrow> 'c"
  WithCodec :: "'p \<Rightarrow> 'c \<Rightarrow> 'c"
  WithInterfaceRegistry :: "'p \<Rightarrow> 'c \<Rightarrow> 'c"
  WithLegacyAmino :: "'p \<Rightarrow> 'c \<Rightarrow> 'c"
  WithInput_Stdin :: "'c \<Rightarrow> 'c"
  WithAccountRetriever :: "'c \<Rightarrow> 'c"
  WithHomeDir :: "string \<Rightarrow> 'c \<Rightarrow> 'c"
  WithViper :: "string \<Rightarrow> 'c \<Rightarrow> 'c"
  WithTxConfig :: "'t \<Rightarrow> 'c \<Rightarrow> 'c"
  Codec_of :: "'c \<Rightarrow> 'p"
  TxConfig_of :: "'c \<Rightarrow> 't"
  ReadPersistentCommandFlags :: "'c \<Rightarrow> ('s, 'c) eff"
  ReadFromClientConfig :: "'c \<Rightarrow> ('s, 'c \<times> go_error option) eff"
  NewGRPCCoinMetadataQueryFn :: "'c \<Rightarrow> 'p"
  with_TextualCoinMetadataQueryFn :: "'p \<Rightarrow> 'p \<Rightarrow> 'p"
  NewTxConfigWithOptions :: "'p \<Rightarrow> 'p \<Rightarrow> ('s, 't) eff"
  EnvPrefix :: string
  DefaultNodeHome :: string
  SetCmdClientContextHandler :: "'c \<Rightarrow> ('s, unit) eff"
  DefaultConfigTemplate :: string
  server_DefaultConfig :: app_config
  cmt_DefaultConfig :: node_config
  InterceptConfigsPreRunHandler :: "string \<Rightarrow> app_config \<Rightarrow> node_config \<Rightarrow> ('s, unit) eff"
  Execute :: "('m, 't) cmd \<Rightarrow> string \<Rightarrow> string \<Rightarrow> ('s, unit) eff"
  Fprintln :: "go_error \<Rightarrow> ('s, unit) eff"

definition initRootCmd ::
  "('s, 'c, 'm, 't, 'p) root_env \<Rightarrow> ('m, 't) cmd \<Rightarrow> 't \<Rightarrow> (string \<rightharpoonup> 'm) \<Rightarrow> ('s, ('m, 't) cmd) eff" where
  "initRootCmd E rootCmd txConfig basicManager =
     (let home = Home (DefaultNodeHome E);
          rootCmd = AddCommand
            [made_by ''genutilcli.InitCmd'' [Manager basicManager, home],
             NewInPlaceTestnetCmd,
             made_by ''NewTestnetMultiNodeCmd'' [Manager basicManager, Value ''banktypes.GenesisBalancesIterator''],
             made_by ''debug.Cmd'' [],
             made_by ''confixcmd.ConfigCommand'' [],
             made_by ''pruning.Cmd'' [Function ''newApp'', home],
             made_by ''snapshot.Cmd'' [Function ''newApp'']] rootCmd in
      bind (AddCommandsWithStartCmdOptions E [home, Function ''newApp'', Function ''appExport'']
              addModuleInitFlags rootCmd) (\<lambda>rootCmd.
      ret (AddCommand
            [made_by ''server.StatusCommand'' [],
             made_by ''genutilcli.Commands'' [Tx_config txConfig, Manager basicManager, home],
             queryCommand, txCommand,
             made_by ''keys.Commands'' []] rootCmd)))"

section \<open>The IBC modules on the client side\<close>

definition ibc_modules :: "('s, 'c, 'm, 't, 'p) root_env \<Rightarrow> 'p \<Rightarrow> (string \<times> 'm) list" where
  "ibc_modules E cdc = map (\<lambda>p. (ibc_name E p, ibc_module E p cdc))
     [IBC_core, Transfer, Interchain_accounts, Tendermint_client, Solo_machine]"

text \<open>
  A Go map is iterated in any order: the order is an argument, a list of the keys. A module that is
  no \<^verbatim>\<open>AppModuleBasic\<close> registers nothing.
\<close>

definition register_module ::
  "('s, 'c, 'm, 't, 'p) root_env \<Rightarrow> 'p \<Rightarrow> (string \<rightharpoonup> 'm) \<Rightarrow> string \<Rightarrow> ('s, unit) eff" where
  "register_module E registry modules name =
     (case modules name of
        None \<Rightarrow> ret ()
      | Some m \<Rightarrow> (case rt_RegisterInterfaces E m registry of Some reg \<Rightarrow> reg | None \<Rightarrow> ret ()))"

definition RegisterIBC ::
  "('s, 'c, 'm, 't, 'p) root_env \<Rightarrow> string list \<Rightarrow> 'p \<Rightarrow> ('s, string \<rightharpoonup> 'm) eff" where
  "RegisterIBC E order cdc =
     (let modules = map_of (ibc_modules E cdc) in
      bind (for_each (register_module E (InterfaceRegistry_of E cdc) modules) order) (\<lambda>_. ret modules))"

definition add_ibc_module ::
  "('s, 'c, 'm, 't, 'p) root_env \<Rightarrow> (string \<rightharpoonup> 'm) \<Rightarrow> string \<Rightarrow> (string \<rightharpoonup> 'm) \<times> (string \<rightharpoonup> 'm) \<Rightarrow>
   (string \<rightharpoonup> 'm) \<times> (string \<rightharpoonup> 'm)" where
  "add_ibc_module E modules name acc =
     (case (modules name, acc) of
        (None, _) \<Rightarrow> acc
      | (Some m, basic, auto) \<Rightarrow> (basic(name \<mapsto> CoreAppModuleBasicAdaptor E name m), auto(name \<mapsto> m)))"

section \<open>The root command\<close>

text \<open>What the injection of the root command is given.\<close>

definition root_container :: "('s, 'c, 'm, 't, 'p) root_env \<Rightarrow> (unit, 'p, unit) di_config list" where
  "root_container E =
     AppConfig (rt_genutil_basic E) @ [Supply_logger (rt_NewNopLogger E), Provide_function ''ProvideClientContext'']"

text \<open>\<open>order\<close> and \<open>order'\<close> are the orders of the two loops over the map.\<close>

definition NewRootCmd ::
  "('s, 'c, 'm, 't, 'p) root_env \<Rightarrow> string list \<Rightarrow> string list \<Rightarrow> ('s, ('m, 't) cmd) eff" where
  "NewRootCmd E order order' =
     bind (or_panic (rt_Inject E (root_container E))) (\<lambda>(auto, basic, clientCtx).
     let rootCmd = cobra_Command [Set_Use (Name @ ''d''), Set_Short ''bps node'', Set_SilenceErrors True,
           Set_PersistentPreRunE ''PersistentPreRunE''] in
     bind (RegisterIBC E order (Codec_of E clientCtx)) (\<lambda>ibcModules.
     let (basic, auto) = fold (add_ibc_module E ibcModules) order' (basic, auto) in
     bind (initRootCmd E rootCmd (TxConfig_of E clientCtx) basic) (\<lambda>rootCmd.
     or_panic (EnhanceRootCommand E auto rootCmd))))"

text \<open>
  The hook before a command changes the context it has captured, then shadows it: it returns the
  captured context with its result.
\<close>

definition PersistentPreRunE :: "('s, 'c, 'm, 't, 'p) root_env \<Rightarrow> ('c \<times> 's, unit) eff" where
  "PersistentPreRunE E = (\<lambda>(clientCtx, s).
     case bind (SetOut_OutOrStdout E) (\<lambda>_. SetErr_ErrOrStderr E) s of
       (Ok _, s) \<Rightarrow>
         let clientCtx = WithViper E Name (WithCmdContext E s clientCtx);
             (r, s') = bind (ReadPersistentCommandFlags E clientCtx) (\<lambda>ctx.
               bind (ReadFromClientConfig E ctx) (\<lambda>(ctx, err).
               bind (case err of Some e \<Rightarrow> raise e | None \<Rightarrow> ret ()) (\<lambda>_.
               bind (SetCmdClientContextHandler E ctx) (\<lambda>_.
               let (customAppTemplate, customAppConfig) = initAppConfig (DefaultConfigTemplate E) (server_DefaultConfig E);
                   customCMTConfig = initCometBFTConfig (cmt_DefaultConfig E) in
               InterceptConfigsPreRunHandler E customAppTemplate customAppConfig customCMTConfig)))) s
         in (r, (clientCtx, s'))
     | (r, s) \<Rightarrow> (r, (clientCtx, s)))"

text \<open>An error of reading the configuration is dropped, the context it returns is not.\<close>

definition ProvideClientContext ::
  "('s, 'c, 'm, 't, 'p) root_env \<Rightarrow> 'c \<Rightarrow> 'p \<Rightarrow> 'p \<Rightarrow> 'p \<Rightarrow> 'p \<Rightarrow> ('s, 'c) eff" where
  "ProvideClientContext E emptyContext cdc interfaceReg txConfigOpts amino =
     (let clientCtx = WithViper E Name
            (WithHomeDir E (DefaultNodeHome E)
            (WithAccountRetriever E
            (WithInput_Stdin E
            (WithLegacyAmino E amino
            (WithInterfaceRegistry E interfaceReg
            (WithCodec E cdc emptyContext)))))) in
      bind (ReadFromClientConfig E clientCtx) (\<lambda>(clientCtx, _).
      let txConfigOpts = with_TextualCoinMetadataQueryFn E (NewGRPCCoinMetadataQueryFn E clientCtx) txConfigOpts in
      bind (or_panic (NewTxConfigWithOptions E (Codec_of E clientCtx) txConfigOpts)) (\<lambda>tx_config.
      ret (WithTxConfig E tx_config clientCtx))))"

definition main :: "('s, 'c, 'm, 't, 'p) root_env \<Rightarrow> string list \<Rightarrow> string list \<Rightarrow> ('s, unit) eff" where
  "main E order order' =
     bind (NewRootCmd E order order') (\<lambda>rootCmd s.
     case Execute E rootCmd (EnvPrefix E) (DefaultNodeHome E) s of
       (Err e, s') \<Rightarrow> bind (discard (Fprintln E e)) (\<lambda>_ t. (Exit 1, t)) s'
     | r \<Rightarrow> r)"

section \<open>Properties\<close>

lemma for_each_move:
  assumes "\<And>u. u \<in> set us \<Longrightarrow> bind (f u) (\<lambda>_. f x) = bind (f x) (\<lambda>_. f u)"
  shows "for_each f (us @ x # vs) = for_each f (x # us @ vs)"
  using assms
proof (induction us)
  case (Cons u us)
  have "for_each f ((u # us) @ x # vs) = bind (bind (f u) (\<lambda>_. f x)) (\<lambda>_. for_each f (us @ vs))"
    using Cons.IH [OF Cons.prems] by (simp add: bind_assoc)
  also have "bind (f u) (\<lambda>_. f x) = bind (f x) (\<lambda>_. f u)" by (rule Cons.prems) simp
  also have "bind (bind (f x) (\<lambda>_. f u)) (\<lambda>_. for_each f (us @ vs)) = for_each f (x # (u # us) @ vs)"
    by (simp add: bind_assoc)
  finally show ?case .
qed simp

lemma for_each_permuted:
  assumes "\<And>x y. x \<in> set xs \<Longrightarrow> y \<in> set xs \<Longrightarrow> bind (f x) (\<lambda>_. f y) = bind (f y) (\<lambda>_. f x)"
    and "mset xs = mset ys"
  shows "for_each f xs = for_each f ys"
  using assms
proof (induction xs arbitrary: ys)
  case (Cons x xs)
  have "x \<in> set ys" using Cons.prems(2) by (metis list.set_intros(1) set_mset_mset)
  then obtain us vs where ys: "ys = us @ x # vs" by (meson split_list)
  with Cons.prems(2) have m: "mset xs = mset (us @ vs)" by simp
  then have s: "set us \<subseteq> set xs" by (metis set_append set_mset_mset sup_ge1)
  have "for_each f ys = for_each f (x # us @ vs)"
    unfolding ys using s by (intro for_each_move Cons.prems(1)) auto
  moreover have "for_each f xs = for_each f (us @ vs)"
    using Cons.prems(1) m by (intro Cons.IH) auto
  ultimately show ?case by simp
qed simp

lemma add_ibc_commutes:
  "add_ibc_module E modules a \<circ> add_ibc_module E modules b = add_ibc_module E modules b \<circ> add_ibc_module E modules a"
  by (cases "a = b") (auto simp: fun_eq_iff add_ibc_module_def split: option.split prod.split)

lemma registrations_commute:
  fixes E :: "('s, 'c, 'm, 't, 'p) root_env"
  assumes "\<And>m m' g r r'. rt_RegisterInterfaces E m g = Some r \<Longrightarrow> rt_RegisterInterfaces E m' g = Some r' \<Longrightarrow>
    bind r (\<lambda>_. r') = bind r' (\<lambda>_. r)"
  shows "bind (register_module E reg modules a) (\<lambda>_. register_module E reg modules b)
    = bind (register_module E reg modules b) (\<lambda>_. register_module E reg modules a)"
proof -
  have r: "register_module E reg modules n = ret () \<or> (\<exists>m. rt_RegisterInterfaces E m reg = Some (register_module E reg modules n))" for n
    by (cases "modules n"; cases "rt_RegisterInterfaces E (the (modules n)) reg") (auto simp: register_module_def)
  have u: "bind m (\<lambda>_. ret ()) = bind (ret ()) (\<lambda>_. m)" for m :: "('s, unit) eff"
    by (auto simp: fun_eq_iff bind_def split: prod.split outcome.split)
  consider "register_module E reg modules a = ret ()" | "register_module E reg modules b = ret ()"
    | m m' where "rt_RegisterInterfaces E m reg = Some (register_module E reg modules a)"
      "rt_RegisterInterfaces E m' reg = Some (register_module E reg modules b)"
    using r [of a] r [of b] by blast
  then show ?thesis
  proof cases
    case 1 show ?thesis unfolding 1 by (rule u [symmetric])
  next
    case 2 show ?thesis unfolding 2 by (rule u)
  next
    case 3 then show ?thesis by (rule assms)
  qed
qed

lemma add_ibc_entry:
  "fst (add_ibc_module E modules a acc) n
    = (if n = a \<and> modules n \<noteq> None then Some (CoreAppModuleBasicAdaptor E n (the (modules n))) else fst acc n)"
  "snd (add_ibc_module E modules a acc) n = (if n = a \<and> modules n \<noteq> None then modules n else snd acc n)"
  by (cases acc; auto simp: add_ibc_module_def split: option.splits)+

lemma fold_add_ibc:
  "fst (fold (add_ibc_module E modules) names acc) n
    = (if n \<in> set names \<and> modules n \<noteq> None then Some (CoreAppModuleBasicAdaptor E n (the (modules n))) else fst acc n)"
  "snd (fold (add_ibc_module E modules) names acc) n
    = (if n \<in> set names \<and> modules n \<noteq> None then modules n else snd acc n)"
  by (induction names arbitrary: acc) (auto simp: add_ibc_entry)

text \<open>
  C32: The order in which Go happens to iterate over the map of the IBC modules does not matter: if
  the registrations of interfaces commute, the root command is the same for any two orders of the
  two loops; and when the names of the five modules differ, the loop leaves each of them in the
  manager, adapted, and in the options of autocli, and no other entry is touched.
\<close>

theorem map_order_is_irrelevant:
  fixes E :: "('s, 'c, 'm, 't, 'p) root_env"
  assumes "\<And>m m' g r r'. rt_RegisterInterfaces E m g = Some r \<Longrightarrow> rt_RegisterInterfaces E m' g = Some r' \<Longrightarrow>
    bind r (\<lambda>_. r') = bind r' (\<lambda>_. r)"
    and "inj (ibc_name E)"
    and "mset order1 = mset order2" and "mset order1' = mset order2'" and "set order1' = range (ibc_name E)"
  shows "NewRootCmd E order1 order1' = NewRootCmd E order2 order2'
    \<and> fold (add_ibc_module E (map_of (ibc_modules E cdc))) order1' (basic, auto)
      = (\<lambda>n. case map_of (ibc_modules E cdc) n of Some m \<Rightarrow> Some (CoreAppModuleBasicAdaptor E n m) | None \<Rightarrow> basic n,
         auto ++ map_of (ibc_modules E cdc))
    \<and> map_of (ibc_modules E cdc) (ibc_name E p) = Some (ibc_module E p cdc)"
proof (intro conjI)
  have "for_each (register_module E reg modules) order1 = for_each (register_module E reg modules) order2" for reg modules
    using registrations_commute [OF assms(1)] assms(3) by (rule for_each_permuted)
  moreover have "fold (add_ibc_module E modules) order1' = fold (add_ibc_module E modules) order2'" for modules
    using add_ibc_commutes assms(4) by (rule fold_multiset_equiv)
  ultimately show "NewRootCmd E order1 order1' = NewRootCmd E order2 order2'"
    by (simp add: NewRootCmd_def RegisterIBC_def Let_def)
  show names: "map_of (ibc_modules E cdc) (ibc_name E p) = Some (ibc_module E p cdc)" for p
    using assms(2) by (cases p) (auto simp: ibc_modules_def inj_eq)
  have "dom (map_of (ibc_modules E cdc)) \<subseteq> set order1'"
    unfolding assms(5) by (auto simp: ibc_modules_def dom_map_of_conv_image_fst)
  then show "fold (add_ibc_module E (map_of (ibc_modules E cdc))) order1' (basic, auto)
      = (\<lambda>n. case map_of (ibc_modules E cdc) n of Some m \<Rightarrow> Some (CoreAppModuleBasicAdaptor E n m) | None \<Rightarrow> basic n,
         auto ++ map_of (ibc_modules E cdc))"
    by (intro prod_eqI ext) (auto simp: fold_add_ibc map_add_def dom_def subset_iff split: option.split)
qed

fun sample_name :: "ibc_part \<Rightarrow> string" where
  "sample_name IBC_core = ''ibc''"
| "sample_name Transfer = ''transfer''"
| "sample_name Interchain_accounts = ''interchainaccounts''"
| "sample_name Tendermint_client = ''07-tendermint''"
| "sample_name Solo_machine = ''06-solomachine''"

definition sample_names :: "string list" where
  "sample_names = map sample_name [IBC_core, Transfer, Interchain_accounts, Tendermint_client, Solo_machine]"

text \<open>A registry that is a set of names, in which each module registers its own.\<close>

definition sample_root :: "(string set, unit, string, unit, unit) root_env" where
  "sample_root = \<lparr>rt_genutil_basic = (), rt_NewNopLogger = (), rt_Inject = (\<lambda>cs. ret (Map.empty, Map.empty, ())),
     ibc_name = sample_name, ibc_module = (\<lambda>p _. sample_name p), InterfaceRegistry_of = id,
     rt_RegisterInterfaces = (\<lambda>m _. Some (\<lambda>s. (Ok (), insert m s))),
     CoreAppModuleBasicAdaptor = (\<lambda>n m. n @ ''/'' @ m),
     AddCommandsWithStartCmdOptions = (\<lambda>_ _. ret), EnhanceRootCommand = (\<lambda>_. ret),
     SetOut_OutOrStdout = ret (), SetErr_ErrOrStderr = ret (), WithCmdContext = (\<lambda>_. id),
     WithCodec = (\<lambda>_. id), WithInterfaceRegistry = (\<lambda>_. id), WithLegacyAmino = (\<lambda>_. id),
     WithInput_Stdin = id, WithAccountRetriever = id, WithHomeDir = (\<lambda>_. id), WithViper = (\<lambda>_. id),
     WithTxConfig = (\<lambda>_. id), Codec_of = id, TxConfig_of = id, ReadPersistentCommandFlags = ret,
     ReadFromClientConfig = (\<lambda>c. ret (c, None)), NewGRPCCoinMetadataQueryFn = id,
     with_TextualCoinMetadataQueryFn = (\<lambda>_. id), NewTxConfigWithOptions = (\<lambda>_. ret),
     EnvPrefix = ''bps'', DefaultNodeHome = ''/root/.bps'',
     SetCmdClientContextHandler = ret, DefaultConfigTemplate = [],
     server_DefaultConfig = tm_DefaultConfig multi_sample_env, cmt_DefaultConfig = multi_sample_config,
     InterceptConfigsPreRunHandler = (\<lambda>_ _ _. ret ()),
     Execute = (\<lambda>_ _ _. ret ()), Fprintln = (\<lambda>_. ret ())\<rparr>"

lemma sample_root_parts:
  "ibc_name sample_root = sample_name"
  "ibc_module sample_root Transfer () = ''transfer''"
  "sample_name Transfer = ''transfer''"
  "rt_RegisterInterfaces sample_root m g = Some r \<longleftrightarrow> r = (\<lambda>s. (Ok (), insert m s))"
  by (auto simp: sample_root_def)

lemma sample_names: "inj sample_name" "range sample_name = set sample_names"
proof -
  have "x = y" if "sample_name x = sample_name y" for x y using that by (cases x; cases y) simp_all
  then show "inj sample_name" by (simp add: inj_def)
  have "p \<in> {IBC_core, Transfer, Interchain_accounts, Tendermint_client, Solo_machine}" for p by (cases p) simp_all
  then have U: "(UNIV :: ibc_part set) = {IBC_core, Transfer, Interchain_accounts, Tendermint_client, Solo_machine}" by blast
  show "range sample_name = set sample_names" unfolding U by (simp add: sample_names_def)
qed

theorem map_order_is_irrelevant_witness:
  "NewRootCmd sample_root sample_names sample_names = NewRootCmd sample_root (rev sample_names) (rev sample_names)
   \<and> map_of (ibc_modules sample_root ()) ''transfer'' = Some ''transfer''"
proof -
  have c: "bind r (\<lambda>_. r') = bind r' (\<lambda>_. r)"
    if "rt_RegisterInterfaces sample_root m g = Some r" "rt_RegisterInterfaces sample_root m' g = Some r'" for m m' g r r'
    using that by (auto simp: sample_root_parts bind_def fun_eq_iff)
  have "inj (ibc_name sample_root)" "set sample_names = range (ibc_name sample_root)"
    by (simp_all add: sample_root_parts sample_names)
  note t = map_order_is_irrelevant [where E = sample_root, OF c this(1) _ _ this(2), where p = Transfer and cdc = "()"
      and ?order2.0 = "rev sample_names" and ?order2' = "rev sample_names" and basic = Map.empty and auto = Map.empty]
  have "mset sample_names = mset (rev sample_names)" by simp
  from t [OF _ _ this this] show ?thesis by (simp only: sample_root_parts)
qed

end
