(* ===== verification/Api_Docs.thy ===== *)
theory Api_Docs
  imports Chain_Config
begin

text \<open>
  \<^verbatim>\<open>docs/docs.go\<close>: the two routes of the OpenAPI console that \<^verbatim>\<open>RegisterAPIRoutes\<close> adds to the API
  server. A handler works on a response writer of type \<open>'w\<close>; the embedded files, the file server
  and the template engine are the record \<open>docs_env\<close>. A template that does not parse is \<open>None\<close>.
\<close>

type_synonym ('s, 'w) handler = "'w \<Rightarrow> ('s, unit) eff"

record ('s, 'w, 't) docs_env =
  FileServer :: "('s, 'w) handler"
  ParseFS :: "string \<Rightarrow> 't option"
  Template_Execute :: "'t \<Rightarrow> 'w \<Rightarrow> string \<times> string \<Rightarrow> ('s, unit) eff"

definition apiFile :: string where "apiFile = ''/static/openapi.json''"
definition indexFile :: string where "indexFile = ''template/index.tpl''"

definition docs_handler :: "('s, 'w, 't) docs_env \<Rightarrow> string \<Rightarrow> ('s, 'w) handler" where
  "docs_handler E title =
     (let t = ParseFS E indexFile in
      (\<lambda>w. case t of
         None \<Rightarrow> panic (Error_text ''nil pointer dereference'')
       | Some t \<Rightarrow> discard (Template_Execute E t w (title, apiFile))))"

text \<open>A router is the list of its routes, in the order of their registration.\<close>

definition RegisterOpenAPIService ::
  "('s, 'w, 't) docs_env \<Rightarrow> string \<Rightarrow> (string \<times> ('s, 'w) handler) list \<Rightarrow> (string \<times> ('s, 'w) handler) list" where
  "RegisterOpenAPIService E appName rtr = (rtr @ [(apiFile, FileServer E)]) @ [(''/'', docs_handler E appName)]"

text \<open>
  On a router without these paths the page at the root is the template filled in with the name of
  the application and the path of the specification, and that path serves the embedded files; an
  error of the template is dropped, and other routes are as before.
\<close>

lemma console_routes:
  assumes "apiFile \<notin> fst ` set rtr" and "''/'' \<notin> fst ` set rtr" and "ParseFS E indexFile = Some t"
  shows "map_of (RegisterOpenAPIService E Name rtr) ''/'' = Some (\<lambda>w. discard (Template_Execute E t w (Name, apiFile)))"
    and "map_of (RegisterOpenAPIService E Name rtr) apiFile = Some (FileServer E)"
    and "p \<in> fst ` set rtr \<Longrightarrow> map_of (RegisterOpenAPIService E Name rtr) p = map_of rtr p"
proof -
  have "map_of rtr ''/'' = None" "map_of rtr apiFile = None" using assms(1,2) by (simp_all add: map_of_eq_None_iff)
  moreover have "apiFile \<noteq> ''/''" by (simp add: apiFile_def)
  ultimately show "map_of (RegisterOpenAPIService E Name rtr) ''/'' = Some (\<lambda>w. discard (Template_Execute E t w (Name, apiFile)))"
    "map_of (RegisterOpenAPIService E Name rtr) apiFile = Some (FileServer E)"
    by (simp_all add: RegisterOpenAPIService_def docs_handler_def assms(3) map_add_def)
  show "map_of (RegisterOpenAPIService E Name rtr) p = map_of rtr p" if "p \<in> fst ` set rtr"
  proof -
    have "map_of rtr p \<noteq> None" using that by (simp add: map_of_eq_None_iff)
    then obtain h where "map_of rtr p = Some h" by blast
    moreover have "p \<noteq> apiFile" using that assms(1) by metis
    moreover have "p \<noteq> ''/''" using that assms(2) by metis
    ultimately show ?thesis by (simp add: RegisterOpenAPIService_def map_add_def)
  qed
qed

end
