(* ===== verification/Network_Supply.thy ===== *)
theory Network_Supply
  imports Testnet_Outcome "HOL-Library.Countable"
begin

text \<open>
  Towards the composition of the multi-node command with the hard cap: how much of the chain's coin
  the balances of a test network hold; and, for a concrete instance, a codec of bank genesis states
  that loses nothing.
\<close>

section \<open>A test network under the hard cap\<close>

lemma genesis_coins_bond:
  assumes "genesis_coins L E = Ok coins" and "sdk_laws L" and "tm_DefaultBondDenom E = MintHardCapDenom"
    and "tm_TokensFromConsensusPower E 500 = 500000000" and "\<And>d cs. coins_of d (tm_SortCoins E cs) = coins_of d cs"
  shows "coins_of MintHardCapDenom coins = 500000000"
proof -
  have c: "c = \<lparr>denom = d, amount = a\<rparr>" if "NewCoin L d a = Ok c" for d a c
  proof -
    have "valid_denom L d \<and> 0 \<le> a"
      using that assms(2) unfolding sdk_laws_def by (metis outcome.distinct(3))
    then show ?thesis using that assms(2) by (simp add: sdk_laws_def)
  qed
  obtain t b where "NewCoin L ''testtoken'' (tm_TokensFromConsensusPower E 1000) = Ok t"
    "NewCoin L MintHardCapDenom 500000000 = Ok b" "coins = tm_SortCoins E [t, b]"
    using assms(1,3,4) by (auto simp: genesis_coins_def obind_eq_Ok)
  moreover from this c have "t = \<lparr>denom = ''testtoken'', amount = tm_TokensFromConsensusPower E 1000\<rparr>"
    "b = \<lparr>denom = MintHardCapDenom, amount = 500000000\<rparr>" by blast+
  ultimately have "coins_of MintHardCapDenom coins = coins_of MintHardCapDenom [t, b]" by (simp only: assms(5))
  also have "\<dots> = 500000000"
    unfolding \<open>t = _\<close> \<open>b = _\<close> by (simp add: coins_of_def MintHardCapDenom_def)
  finally show ?thesis .
qed

lemma network_balances:
  assumes "fold_m (node_step L E args) [0..<nat (numValidators args)] (initial_loop_state E args cfg) s = (Ok st, s')"
    and "sdk_laws L" and "tm_DefaultBondDenom E = MintHardCapDenom"
    and "tm_TokensFromConsensusPower E 500 = 500000000" and "\<And>d cs. coins_of d (tm_SortCoins E cs) = coins_of d cs"
  shows "balances_of MintHardCapDenom (ls_genBalances st) = 500000000 * int (nat (numValidators args))"
proof -
  obtain addrs where a: "length addrs = nat (numValidators args)"
    "map bal_Address (ls_genBalances st) = map (tm_AccString E) addrs"
    "\<forall>b \<in> set (ls_genBalances st). Ok (bal_Coins b) = genesis_coins L E"
    using loop_collected [OF assms(1)] unfolding collected_def by auto
  have "coins_of MintHardCapDenom (bal_Coins b) = 500000000" if "b \<in> set (ls_genBalances st)" for b
    using genesis_coins_bond [OF _ assms(2-5)] a(3) that by metis
  then have "map (\<lambda>b. coins_of MintHardCapDenom (bal_Coins b)) (ls_genBalances st)
      = replicate (length (ls_genBalances st)) 500000000"
    by (simp add: map_replicate_const cong: map_cong)
  moreover have "length (ls_genBalances st) = nat (numValidators args)"
    using arg_cong [OF a(2), of length] a(1) by simp
  ultimately show ?thesis by (simp add: balances_of_def sum_list_replicate)
qed

text \<open>A bank genesis as the number of a list of pairs, written in unary: a codec that loses nothing.\<close>

definition flat_coins :: "coin list \<Rightarrow> (string \<times> int) list" where
  "flat_coins cs = map (\<lambda>c. (denom c, amount c)) cs"

definition flat_genesis :: "nat bank_genesis \<Rightarrow> (string \<times> (string \<times> int) list) list \<times> (string \<times> int) list \<times> nat" where
  "flat_genesis g = (map (\<lambda>b. (bal_Address b, flat_coins (bal_Coins b))) (bank_Balances g),
     flat_coins (bank_Supply g), bank_Rest g)"

definition coins_from :: "(string \<times> int) list \<Rightarrow> coin list" where
  "coins_from ps = map (\<lambda>(d, a). \<lparr>denom = d, amount = a\<rparr>) ps"

definition from_flat :: "(string \<times> (string \<times> int) list) list \<times> (string \<times> int) list \<times> nat \<Rightarrow> nat bank_genesis" where
  "from_flat = (\<lambda>(bals, sup, r). \<lparr>bank_Balances = map (\<lambda>(a, cs). \<lparr>bal_Address = a, bal_Coins = coins_from cs\<rparr>) bals,
     bank_Supply = coins_from sup, bank_Rest = r\<rparr>)"

lemma from_flat_genesis: "from_flat (flat_genesis g) = g"
proof -
  have c: "coins_from (flat_coins cs) = cs" for cs
    by (induction cs) (simp_all add: coins_from_def flat_coins_def)
  have "map ((\<lambda>(a, cs). \<lparr>bal_Address = a, bal_Coins = coins_from cs\<rparr>) \<circ> (\<lambda>b. (bal_Address b, flat_coins (bal_Coins b)))) bs = bs" for bs
    by (induction bs) (simp_all add: c)
  then show ?thesis by (cases g) (simp add: from_flat_def flat_genesis_def c)
qed

definition encode_genesis :: "nat bank_genesis \<Rightarrow> bytes" where
  "encode_genesis g = replicate (to_nat (flat_genesis g)) 0"

definition decode_genesis :: "bytes \<Rightarrow> nat bank_genesis" where
  "decode_genesis b = from_flat (from_nat (length b))"

lemma decode_encode: "decode_genesis (encode_genesis g) = g"
  by (simp add: decode_genesis_def encode_genesis_def from_flat_genesis)

definition codec_env :: "(nat world, nat) multi_env" where
  "codec_env = plain_env\<lparr>
     tm_DefaultGenesis := \<lambda>m. Some (encode_genesis \<lparr>bank_Balances = [], bank_Supply = [], bank_Rest = 0\<rparr>),
     tm_MarshalBank := \<lambda>g. Ok (encode_genesis g), tm_UnmarshalBank := \<lambda>b. Ok (decode_genesis b)\<rparr>"

lemma codec_env_ok: "multi_env_ok sample_lib codec_env multi_sample_args sample_id"
proof -
  have "is_ok (NewCoin sample_lib (tm_DefaultBondDenom multi_sample_env) (tm_TokensFromConsensusPower multi_sample_env 100))"
    by (simp add: sample_lib_def plain_env_def)
  then show ?thesis
    using multi_sample_env_ok unfolding multi_env_ok_def
    by (simp add: codec_env_def genesis_coins_def stake_of_def split: option.splits)
qed

end
