(* ===== verification/Spec2Isabelle.thy ===== *)
theory Spec2Isabelle
  imports Mint_Hardcap Bps_Keeper Wire_Canonical Export_Command Governance Grpc_Client Messages Zero_Height_Spec Testnet_InPlace App_Config App_Wiring_Spec
    Gateway Chain_Config Testnet_Outcome Testnet_Takeover Testnet_Failure Testnet_Command Wire_Merge Module_Services Root_Command Api_Docs Network_Supply
begin

text \<open>
  A verification library for the \<^emph>\<open>bps\<close> node: a Cosmos SDK application (\<^verbatim>\<open>src/app\<close>), its own module
  (\<^verbatim>\<open>src/x/bps\<close>) and the daemon \<^verbatim>\<open>bpsd\<close> that runs them (\<^verbatim>\<open>src/cmd/bpsd\<close>). This theory imports
  all others; it says what they model and how the parts depend on each other.

  \<^bold>\<open>The program.\<close> The chain mints its coin \<^verbatim>\<open>ubps\<close> up to a hard cap (\<^verbatim>\<open>app/mint_hardcap.go\<close>, injected
  into the SDK's mint module). Its module \<^verbatim>\<open>x/bps\<close> keeps one item of parameters, which only its
  authority may change, and serves it over gRPC and a REST gateway; its messages travel in the
  protobuf wire format. \<^verbatim>\<open>app/app.go\<close> and \<^verbatim>\<open>app/ibc.go\<close> build the application from injected keepers
  and register the IBC modules by hand, with the orders and accounts of \<^verbatim>\<open>app/app_config.go\<close>;
  \<^verbatim>\<open>app/export.go\<close> exports its state, if asked as the genesis of a chain that restarts at height 0.
  Two commands make test networks: \<^verbatim>\<open>testnet.go\<close> turns a copy of a live chain's state into a network
  of one new validator, and \<^verbatim>\<open>testnet_multi_node.go\<close> writes the directories of any number of nodes.

  \<^bold>\<open>How code is modelled.\<close> A Go function that touches state is a function of type
  \<open>('s, 'a) eff = 's \<Rightarrow> 'a outcome \<times> 's\<close> (\<open>Prelude\<close>): it returns \<open>Ok\<close> a value, \<open>Err\<close> an error,
  \<open>Panic\<close> or \<open>Exit\<close>, and the state it leaves, also after an error. \<open>bind\<close> is \<^verbatim>\<open>if err != nil { return err }\<close>,
  \<open>or_panic\<close> is \<^verbatim>\<open>panic(err)\<close>, \<open>discard\<close> is \<^verbatim>\<open>_ = f()\<close>, \<open>attempt\<close> keeps the error as a value and
  \<open>for_each\<close> is a loop over a slice. Structs are records with the fields of the source, \<^verbatim>\<open>int\<close> and
  \<^verbatim>\<open>int64\<close> are integers with \<open>wrap64\<close> where the code can overflow, bytes and \<^verbatim>\<open>uint64\<close> are words.
  Keepers, codecs, stores and other packages are records of functions that the definitions take as
  an argument (\<open>mint_env\<close>, \<open>export_env\<close>, \<open>testnet_env\<close>, \<open>multi_env\<close>, \<open>wiring_env\<close>, \<open>gateway_env\<close>,
  \<open>root_env\<close>);
  what a theorem needs of them is a named hypothesis (\<open>..._laws\<close>), and a witness instantiates it.

  \<^bold>\<open>Theories.\<close>
    \<^item> \<open>Prelude\<close>: outcomes and effects, and four small calculi with a rule for every construct and a
      collection of these rules each: \<open>hoare\<close> (partial correctness on every exit), \<open>leaves\<close> (frames),
      \<open>runs\<close> (an exact run seen through a view of the state) and \<open>works\<close> (total correctness).
    \<^item> \<open>Supply_Limit\<close>, \<open>Mint_Hardcap\<close> (\<^verbatim>\<open>app/mint_hardcap.go\<close>): the locale of an operation that never
      passes a limit, interpreted on the clamp; the mint function refines "grant the smaller of the
      provision and the rest below the cap", is within the cap for every chain of blocks
      (\<open>chain_reach\<close>), and reaches \<open>min\<close> of the cap and the sum of the provisions.
    \<^item> \<open>Bps_Types\<close>, \<open>Bps_Keeper\<close> (\<^verbatim>\<open>x/bps/types\<close>, \<^verbatim>\<open>keeper\<close>, \<^verbatim>\<open>module\<close>): the keeper, its message and query
      servers, the module's genesis, its provider \<^verbatim>\<open>ProvideModule\<close> with what it takes and gives, and
      its declarations (autocli, simulation, expected keepers); who may write, what a query sees,
      export after import.
    \<^item> \<open>Go_Std\<close>: \<^verbatim>\<open>strconv.Itoa\<close>, \<^verbatim>\<open>strings.Split\<close>, \<^verbatim>\<open>HasPrefix\<close>, \<^verbatim>\<open>Join\<close> and 64-bit wrap-around.
    \<^item> \<open>Wire\<close>, \<open>Wire_Spec\<close>, \<open>Wire_Codec\<close>, \<open>Messages\<close> (\<^verbatim>\<open>x/bps/types/*.pb.go\<close>): varints, tags, the skipping
      of unknown fields and the seven messages, with Go's index and slice panics. The locales
      \<open>wire_message\<close>, \<open>open_message\<close>, \<open>fielded_message\<close> and \<open>empty_message\<close> prove round trips, exact
      sizes and freedom from panics once; every message interprets one of them. \<open>Wire_Merge\<close>: two
      encodings behind each other decode to their merge. \<open>Wire_Loops\<close>: the loops of the decoders as
      iterated bodies with an early return, each of which ends within a stated number of rounds (the
      locale \<open>go_loop\<close>). \<open>Wire_Canonical\<close>: what a decoder returns is well typed, and its encoding is
      canonical. \<open>Message_Methods\<close>: the other generated methods (\<^verbatim>\<open>MarshalTo\<close>, the entry points of the
      runtime, getters, equality).
    \<^item> \<open>Module_Services\<close> (\<^verbatim>\<open>module/module.go\<close>, \<^verbatim>\<open>codec.go\<close>, the handlers of \<^verbatim>\<open>tx.pb.go\<close> and \<^verbatim>\<open>query.pb.go\<close>):
      the services the module registers and the path of a message from its bytes to the store.
      \<open>Grpc_Client\<close>: the generated clients and the unimplemented servers; a call over the wire is a
      call of the keeper. \<open>Governance\<close>: from the options of \<^verbatim>\<open>app_config.go\<close> through \<^verbatim>\<open>ProvideModule\<close>, the
      services and the wire to the store: which messages change the parameters of the chain.
    \<^item> \<open>Zero_Height\<close>, \<open>Zero_Height_Spec\<close> (\<^verbatim>\<open>app/export.go\<close>): the phases of the preparation; they refine
      the function \<open>zeroed\<close> on the tables of staking and slashing, and conserve the rewards.
    \<^item> \<open>Testnet_InPlace\<close>, \<open>Testnet_Takeover\<close> (\<^verbatim>\<open>cmd/testnet.go\<close>): options, replacement of the validators,
      funding; and the whole of \<^verbatim>\<open>initAppForTestnet\<close>: the store, the signing info and the accounts of
      the network it makes out of any live state, in which one validator is left.
    \<^item> \<open>Paths\<close>, \<open>Os_Files\<close>: \<^verbatim>\<open>filepath.Clean\<close>, \<^verbatim>\<open>Join\<close>, \<^verbatim>\<open>Base\<close>, \<^verbatim>\<open>Abs\<close>, \<^verbatim>\<open>Rel\<close> on strings with their meaning on
      lists of components, and a file system of paths in which every call may fail.
    \<^item> \<open>Testnet_Multi\<close>, \<open>Testnet_Multi_Spec\<close>, \<open>Testnet_Gentx\<close>, \<open>Testnet_Run\<close>, \<open>Testnet_Outcome\<close>,
      \<open>Testnet_Failure\<close>, \<open>Testnet_Command\<close> (\<^verbatim>\<open>cmd/testnet_multi_node.go\<close>): the command; its arguments, ports and peers; the
      copying of the genesis transactions; that it completes; the genesis it leaves; what it removes
      when a node fails, and the chain id it draws; its flags, and that it works without any.
    \<^item> \<open>Network_Supply\<close>: the chain's coin in the balances of a test network; this theory composes it with
      the hard cap, from the command that writes the genesis to every state of the chain.
    \<^item> \<open>App_Config\<close> (\<^verbatim>\<open>app/app_config.go\<close>), \<open>App_Wiring\<close>, \<open>App_Wiring_Spec\<close> (\<^verbatim>\<open>app/app.go\<close>, \<^verbatim>\<open>app/ibc.go\<close>,
      \<^verbatim>\<open>cmd/commands.go\<close>): the configuration of every module, the orders and accounts; \<^verbatim>\<open>New\<close> and
      \<^verbatim>\<open>registerIBCModules\<close> as the ordered calls they make on a record with all fields of \<^verbatim>\<open>App\<close>; what the
      application holds afterwards. \<open>Export_Command\<close>: \<^verbatim>\<open>appExport\<close>, which joins \<^verbatim>\<open>New\<close>, the loading of a
      height and the export of \<open>Zero_Height\<close>.
    \<^item> \<open>Gateway\<close> (\<^verbatim>\<open>x/bps/types/query.pb.gw.go\<close>): the REST handlers and the life of their connection.
    \<^item> \<open>Api_Docs\<close> (\<^verbatim>\<open>docs/docs.go\<close>): the routes of the OpenAPI console.
    \<^item> \<open>Root_Command\<close> (\<^verbatim>\<open>main.go\<close>, \<^verbatim>\<open>cmd/root.go\<close>, \<^verbatim>\<open>cmd/commands.go\<close>): the tree of commands with the fields
      and flags the code sets, the client context, the hook before a command and the loops over the map
      of IBC modules, whose order is an argument.
    \<^item> \<open>Chain_Config\<close> (\<^verbatim>\<open>app/config.go\<close>, \<^verbatim>\<open>cmd/config.go\<close>, \<^verbatim>\<open>app/genesis_account.go\<close>): prefixes and
      defaults set when the process starts, and the validation of genesis accounts.

  \<^bold>\<open>Bounds.\<close> No definition needs fuel: loops over slices are structural, the varint and message loops
  terminate because their index grows up to the length of the buffer. Those loops are also given as
  \<open>while_option\<close> of their body; they return after at most as many rounds as there are bytes left and
  one more (eleven for a varint), with the value of the recursive definition. Lengths of buffers are taken
  below \<open>2 ^ 63\<close>, Go's limit. The default ports of the multi-node command are proved distinct for up
  to 1317 nodes, the number for which the last port is still positive.

  \<^bold>\<open>Not modelled.\<close> The SDK, CometBFT, ibc-go, gRPC and the Go runtime are parameters. The
  compressed protobuf file descriptors and their registration are data for the runtime, and the Go
  interfaces that are only type assertions have no behaviour. The help texts of the
  multi-node command are left out, its names, flags and defaults are kept; a command of the SDK is
  the call that makes it. A nil receiver is modelled for the getters and \<^verbatim>\<open>Equal\<close> only.
  Goroutines occur once, in the gateway, and are a queue of what remains to be done when the context ends. The Dart client, the scripts and the test code are outside the library.
\<close>

section \<open>A test network under the hard cap\<close>



end
